(* ===== verification/Prelude.thy ===== *)
theory Prelude
  imports Complex_Main "HOL-Library.AList" "HOL-Library.Sublist" "HOL-Library.Multiset"
begin

text \<open>
  The shared layer of the development: the values Python code of the middleware passes
  around, the exceptions it raises, results as a sum type, ordered dictionaries, the string
  methods of the standard library the sources call, and the generic lemmas on lists and
  dictionaries the component theories rest on.

  \<^item> A value is a \<open>pyval\<close>: what JSON can carry, tuples, and the \<open>datetime.time\<close> values that
    \<open>schema.Time\<close> makes. Dictionaries have string keys and keep insertion order, so they are
    association lists; assignment is \<open>AList.update\<close>, \<open>del\<close> and \<open>pop\<close> are \<open>AList.delete\<close>.
    A float is the rational number it denotes (the infinities and NaN are left out).
  \<^item> A string is a list of characters; \<open>str.isdigit\<close>, \<open>str.lower\<close> and the like are those of
    ASCII text.
  \<^item> A message is a list of pieces: literal text, and values that an f-string interpolates
    (with \<open>str\<close> or \<open>repr\<close>). Messages are compared and concatenated, never printed.
  \<^item> A function that may raise returns \<open>exn + 'a\<close>, with \<open>Inl\<close> for the exception.
\<close>

section \<open>Lemma collections\<close>

named_theorems dict_simps \<open>lookups after dictionary updates\<close>
named_theorems res_simps \<open>inversion of results\<close>

section \<open>Values, messages, exceptions\<close>

datatype pyval =
    PNone
  | PBool bool
  | PInt int
  | PFloat rat
  | PStr string
  | PTime int int
  | PList "pyval list"
  | PTuple "pyval list"
  | PDict "(string \<times> pyval) list"

type_synonym pydict = "(string \<times> pyval) list"

datatype piece = Txt string | Val pyval | Rep pyval

type_synonym msg = "piece list"

text \<open>The error numbers the sources name, the middleware's own ones last.\<close>

datatype errno =
    EINVAL | EFAULT | ENOENT | ENOTDIR | EISDIR | EACCES | EAGAIN | EBUSY | EBADMSG
  | ETOOMANYREFS | ECONNABORTED | ECONNREFUSED | ECONNRESET | EHOSTDOWN | ETIMEDOUT
  | ENOMETHOD | ESERVICESTARTFAILURE | EALERTCHECKERUNAVAILABLE

text \<open>
  One entry of a \<open>ValidationErrors\<close> collection, and the exceptions. \<open>SchemaError\<close> is
  \<open>schema.Error\<close>; \<open>ValidationErr\<close> is a single \<open>ValidationError\<close> (its attribute may be \<open>None\<close>);
  \<open>Validations\<close> is \<open>ValidationErrors\<close>; \<open>MatchNotFound\<close> is the subclass of \<open>IndexError\<close> that
  \<open>service_exception\<close> declares.
\<close>

datatype verror = VErr (attribute: string) (errmsg: msg) (verrno: errno)

datatype exn =
    ValueError msg
  | TypeError
  | KeyError msg
  | IndexError
  | MatchNotFound
  | AttributeError
  | AssertionError
  | NotImplementedError msg
  | RuntimeError msg
  | ResolverError msg
  | CancelledError
  | TimeoutError
  | SchemaError string msg errno
  | ValidationErr "string option" msg errno
  | Validations "verror list"
  | CallError msg errno pyval
  | OtherException msg

type_synonym 'a res = "exn + 'a"

text \<open>The \<open>except IndexError\<close> clause also catches the subclass.\<close>

fun is_IndexError :: "exn \<Rightarrow> bool" where
  "is_IndexError IndexError = True"
| "is_IndexError MatchNotFound = True"
| "is_IndexError _ = False"

definition rbind :: "'e + 'a \<Rightarrow> ('a \<Rightarrow> 'e + 'b) \<Rightarrow> 'e + 'b" where
  "rbind m f = (case m of Inl e \<Rightarrow> Inl e | Inr x \<Rightarrow> f x)"

lemma rbind_simps [simp]: "rbind (Inl e) f = Inl e" "rbind (Inr x) f = f x"
  by (simp_all add: rbind_def)

lemma rbind_cong [fundef_cong]:
  "m = m' \<Longrightarrow> (\<And>x. m' = Inr x \<Longrightarrow> f x = f' x) \<Longrightarrow> rbind m f = rbind m' f'"
  by (cases m') (auto simp: rbind_def)

lemma rbind_Inr [res_simps]: "(rbind m f = Inr y) = (\<exists>x. m = Inr x \<and> f x = Inr y)"
  by (cases m) auto

lemma rbind_Inl [res_simps]:
  "(rbind m f = Inl e) = (m = Inl e \<or> (\<exists>x. m = Inr x \<and> f x = Inl e))"
  by (cases m) auto

text \<open>A loop that stops at the first exception.\<close>

fun mapM :: "('a \<Rightarrow> 'e + 'b) \<Rightarrow> 'a list \<Rightarrow> 'e + 'b list" where
  "mapM f [] = Inr []"
| "mapM f (x # xs) = rbind (f x) (\<lambda>y. rbind (mapM f xs) (\<lambda>ys. Inr (y # ys)))"

lemma mapM_cong [fundef_cong]:
  "xs = ys \<Longrightarrow> (\<And>x. x \<in> set ys \<Longrightarrow> f x = g x) \<Longrightarrow> mapM f xs = mapM g ys"
  by (induction ys arbitrary: xs) auto

lemma mapM_length: "mapM f xs = Inr ys \<Longrightarrow> length ys = length xs"
  by (induction xs arbitrary: ys) (auto simp: res_simps)

lemma mapM_all_Inr: "(\<And>x. x \<in> set xs \<Longrightarrow> f x = Inr (g x)) \<Longrightarrow> mapM f xs = Inr (map g xs)"
  by (induction xs) auto

lemma mapM_Inr_nth:
  "mapM f xs = Inr ys \<Longrightarrow> i < length xs \<Longrightarrow> f (xs ! i) = Inr (ys ! i)"
proof (induction xs arbitrary: ys i)
  case Nil
  then show ?case by simp
next
  case (Cons x xs)
  then show ?case by (cases i) (auto simp: res_simps)
qed

section \<open>Truth, equality and order of values\<close>

text \<open>Python truth testing: \<open>None\<close>, \<open>False\<close>, zero and empty containers are false.\<close>

fun truthy :: "pyval \<Rightarrow> bool" where
  "truthy PNone = False"
| "truthy (PBool b) = b"
| "truthy (PInt i) = (i \<noteq> 0)"
| "truthy (PFloat q) = (q \<noteq> 0)"
| "truthy (PStr s) = (s \<noteq> [])"
| "truthy (PTime h m) = True"
| "truthy (PList xs) = (xs \<noteq> [])"
| "truthy (PTuple xs) = (xs \<noteq> [])"
| "truthy (PDict d) = (d \<noteq> [])"

text \<open>Numbers compare by value across \<open>bool\<close>, \<open>int\<close> and \<open>float\<close>.\<close>

fun num_of :: "pyval \<Rightarrow> rat option" where
  "num_of (PBool b) = Some (if b then 1 else 0)"
| "num_of (PInt i) = Some (of_int i)"
| "num_of (PFloat q) = Some q"
| "num_of _ = None"

text \<open>
  The operator \<open>==\<close>: numbers by value, sequences of one type element by element, dictionaries
  by their keys and values whatever the order; values of unrelated types differ.
\<close>

fun py_eq :: "pyval \<Rightarrow> pyval \<Rightarrow> bool"
  and py_eq_list :: "pyval list \<Rightarrow> pyval list \<Rightarrow> bool"
  and py_eq_items :: "pydict \<Rightarrow> pydict \<Rightarrow> bool" where
  "py_eq PNone y = (y = PNone)"
| "py_eq (PBool b) y = (num_of y = Some (if b then 1 else 0))"
| "py_eq (PInt i) y = (num_of y = Some (of_int i))"
| "py_eq (PFloat q) y = (num_of y = Some q)"
| "py_eq (PStr s) y = (y = PStr s)"
| "py_eq (PTime h m) y = (y = PTime h m)"
| "py_eq (PList xs) y = (case y of PList ys \<Rightarrow> py_eq_list xs ys | _ \<Rightarrow> False)"
| "py_eq (PTuple xs) y = (case y of PTuple ys \<Rightarrow> py_eq_list xs ys | _ \<Rightarrow> False)"
| "py_eq (PDict d) y =
     (case y of PDict d' \<Rightarrow> length d = length d' \<and> py_eq_items d d' | _ \<Rightarrow> False)"
| "py_eq_list [] ys = (ys = [])"
| "py_eq_list (x # xs) ys =
     (case ys of [] \<Rightarrow> False | y # ys' \<Rightarrow> py_eq x y \<and> py_eq_list xs ys')"
| "py_eq_items [] d' = True"
| "py_eq_items ((k, v) # d) d' =
     ((case map_of d' k of None \<Rightarrow> False | Some v' \<Rightarrow> py_eq v v') \<and> py_eq_items d d')"

lemma py_eq_str [simp]: "py_eq (PStr s) (PStr t) = (s = t)"
  by auto

text \<open>Lexicographic comparison of character lists by code point.\<close>

fun str_less :: "string \<Rightarrow> string \<Rightarrow> bool" where
  "str_less [] t = (t \<noteq> [])"
| "str_less (c # s) [] = False"
| "str_less (c # s) (d # t) =
     ((of_char c :: nat) < of_char d \<or> (c = d \<and> str_less s t))"

text \<open>
  The operator \<open><\<close>. Two sequences compare at the first position where they differ, or by
  length; unrelated types, \<open>None\<close> and dictionaries raise \<open>TypeError\<close>.
\<close>

fun py_lt :: "pyval \<Rightarrow> pyval \<Rightarrow> bool res"
  and py_lt_list :: "pyval list \<Rightarrow> pyval list \<Rightarrow> bool res" where
  "py_lt (PStr s) y = (case y of PStr t \<Rightarrow> Inr (str_less s t) | _ \<Rightarrow> Inl TypeError)"
| "py_lt (PTime h m) y =
     (case y of PTime h' m' \<Rightarrow> Inr (h < h' \<or> (h = h' \<and> m < m')) | _ \<Rightarrow> Inl TypeError)"
| "py_lt (PList xs) y = (case y of PList ys \<Rightarrow> py_lt_list xs ys | _ \<Rightarrow> Inl TypeError)"
| "py_lt (PTuple xs) y = (case y of PTuple ys \<Rightarrow> py_lt_list xs ys | _ \<Rightarrow> Inl TypeError)"
| "py_lt PNone y = Inl TypeError"
| "py_lt (PDict d) y = Inl TypeError"
| "py_lt (PBool b) y =
     (case num_of y of None \<Rightarrow> Inl TypeError | Some q \<Rightarrow> Inr ((if b then 1 else 0) < q))"
| "py_lt (PInt i) y = (case num_of y of None \<Rightarrow> Inl TypeError | Some q \<Rightarrow> Inr (of_int i < q))"
| "py_lt (PFloat p) y = (case num_of y of None \<Rightarrow> Inl TypeError | Some q \<Rightarrow> Inr (p < q))"
| "py_lt_list [] ys = Inr (ys \<noteq> [])"
| "py_lt_list (x # xs) ys =
     (case ys of [] \<Rightarrow> Inr False
      | y # ys' \<Rightarrow> if py_eq x y then py_lt_list xs ys' else py_lt x y)"

definition py_gt :: "pyval \<Rightarrow> pyval \<Rightarrow> bool res" where
  "py_gt x y = py_lt y x"

text \<open>\<open>x <= y\<close> on values that are comparable is \<open>x < y\<close> or \<open>x == y\<close>.\<close>

definition py_le :: "pyval \<Rightarrow> pyval \<Rightarrow> bool res" where
  "py_le x y = rbind (py_lt x y) (\<lambda>b. Inr (b \<or> py_eq x y))"

definition py_ge :: "pyval \<Rightarrow> pyval \<Rightarrow> bool res" where
  "py_ge x y = py_le y x"

text \<open>Values that can be dictionary keys or members of a set: no list or dictionary inside.\<close>

fun hashable :: "pyval \<Rightarrow> bool" where
  "hashable (PList xs) = False"
| "hashable (PDict d) = False"
| "hashable (PTuple xs) = list_all hashable xs"
| "hashable _ = True"

text \<open>
  The operator \<open>in\<close>: membership by \<open>==\<close> in a sequence, substring of a string (a non-string
  left operand raises \<open>TypeError\<close>), a key of a dictionary; other right operands raise.
\<close>

fun py_in :: "pyval \<Rightarrow> pyval \<Rightarrow> bool res" where
  "py_in x (PList ys) = Inr (list_ex (py_eq x) ys)"
| "py_in x (PTuple ys) = Inr (list_ex (py_eq x) ys)"
| "py_in x (PStr t) = (case x of PStr s \<Rightarrow> Inr (sublist s t) | _ \<Rightarrow> Inl TypeError)"
| "py_in x (PDict d) =
     (if \<not> hashable x then Inl TypeError
      else case x of PStr k \<Rightarrow> Inr (map_of d k \<noteq> None) | _ \<Rightarrow> Inr False)"
| "py_in x _ = Inl TypeError"

text \<open>What iterating over a value yields.\<close>

fun py_iter :: "pyval \<Rightarrow> pyval list res" where
  "py_iter (PList xs) = Inr xs"
| "py_iter (PTuple xs) = Inr xs"
| "py_iter (PStr s) = Inr (map (\<lambda>c. PStr [c]) s)"
| "py_iter (PDict d) = Inr (map (\<lambda>(k, v). PStr k) d)"
| "py_iter _ = Inl TypeError"

section \<open>Ordered dictionaries\<close>

text \<open>
  The interface every dictionary of the sources is used through: subscription and \<open>get\<close>,
  item assignment, \<open>pop\<close> and \<open>del\<close>. The laws are those a Python \<open>dict\<close> promises, insertion
  order included: assigning a present key keeps its position, a new key goes last.
\<close>

locale ordered_dict =
  fixes get_item :: "'d \<Rightarrow> 'k \<Rightarrow> 'v option"
    and set_item :: "'k \<Rightarrow> 'v \<Rightarrow> 'd \<Rightarrow> 'd"
    and del_item :: "'k \<Rightarrow> 'd \<Rightarrow> 'd"
    and key_list :: "'d \<Rightarrow> 'k list"
  assumes get_set: "get_item (set_item k v d) = (get_item d)(k := Some v)"
    and get_del: "get_item (del_item k d) = (get_item d)(k := None)"
    and keys_dom: "set (key_list d) = {k. get_item d k \<noteq> None}"
    and keys_set_old: "k \<in> set (key_list d) \<Longrightarrow> key_list (set_item k v d) = key_list d"
    and keys_set_new:
      "k \<notin> set (key_list d) \<Longrightarrow> key_list (set_item k v d) = key_list d @ [k]"
    and keys_del: "key_list (del_item k d) = filter (\<lambda>k'. k' \<noteq> k) (key_list d)"
begin

lemma distinct_set: "distinct (key_list d) \<Longrightarrow> distinct (key_list (set_item k v d))"
  by (cases "k \<in> set (key_list d)") (simp_all add: keys_set_old keys_set_new)

lemma distinct_del: "distinct (key_list d) \<Longrightarrow> distinct (key_list (del_item k d))"
  by (simp add: keys_del)

lemma keys_set_subset: "set (key_list (set_item k v d)) = insert k (set (key_list d))"
  by (auto simp: keys_dom get_set)

lemma keys_del_subset: "set (key_list (del_item k d)) = set (key_list d) - {k}"
  by (auto simp: keys_dom get_del)

lemma size_set:
  "length (key_list (set_item k v d)) =
     (if k \<in> set (key_list d) then length (key_list d) else Suc (length (key_list d)))"
  by (simp add: keys_set_old keys_set_new)

lemma size_del:
  "distinct (key_list d) \<Longrightarrow> k \<in> set (key_list d) \<Longrightarrow>
     Suc (length (key_list (del_item k d))) = length (key_list d)"
proof -
  assume "distinct (key_list d)" and "k \<in> set (key_list d)"
  then have "card (set (key_list d) - {k}) = card (set (key_list d)) - 1"
    and "0 < card (set (key_list d))"
    by (auto simp: card_gt_0_iff)
  then show ?thesis
    using \<open>distinct (key_list d)\<close>
    by (metis Suc_pred' distinct_card distinct_del keys_del_subset)
qed

text \<open>Deleting a list of keys one after the other keeps exactly the other entries.\<close>

lemma get_fold_del:
  "get_item (fold del_item ks d) k = (if k \<in> set ks then None else get_item d k)"
  by (induction ks arbitrary: d) (auto simp: get_del)

end

text \<open>The keys of an association list in order.\<close>

definition dict_keys :: "('k \<times> 'v) list \<Rightarrow> 'k list" where
  "dict_keys d = map fst d"

lemma dict_keys_simps [simp]: "dict_keys [] = []" "dict_keys ((k, v) # d) = k # dict_keys d"
  by (simp_all add: dict_keys_def)

lemma dict_keys_update:
  "dict_keys (AList.update k v d) = (if k \<in> set (dict_keys d) then dict_keys d else dict_keys d @ [k])"
  by (induction d) auto

lemma dict_keys_delete: "dict_keys (AList.delete k d) = filter (\<lambda>k'. k' \<noteq> k) (dict_keys d)"
  by (induction d) (auto simp: AList.delete_eq)

interpretation pd: ordered_dict "map_of :: ('k \<times> 'v) list \<Rightarrow> 'k \<Rightarrow> 'v option"
  AList.update AList.delete dict_keys
proof (unfold_locales, goal_cases)
  case (1 k v d)
  show ?case by (simp add: update_conv')
next
  case (2 k d)
  show ?case by (simp add: delete_conv')
next
  case (3 d)
  show ?case by (induction d) auto
next
  case (4 k d v)
  then show ?case by (simp add: dict_keys_update)
next
  case (5 k d v)
  then show ?case by (simp add: dict_keys_update)
next
  case (6 k d)
  show ?case by (rule dict_keys_delete)
qed

lemma map_of_update [simp, dict_simps]:
  "map_of (AList.update k v d) k' = (if k' = k then Some v else map_of d k')"
  by (simp add: pd.get_set)

lemma map_of_delete [simp, dict_simps]:
  "map_of (AList.delete k d) k' = (if k' = k then None else map_of d k')"
  by (simp add: pd.get_del)

lemma dict_keys_map_of: "(k \<in> set (dict_keys d)) = (map_of d k \<noteq> None)"
  using pd.keys_dom [of d] by auto

text \<open>\<open>d[k]\<close>, which raises \<open>KeyError\<close> for a missing key.\<close>

definition dict_item :: "(string \<times> 'v) list \<Rightarrow> string \<Rightarrow> 'v res" where
  "dict_item d k = (case map_of d k of None \<Rightarrow> Inl (KeyError [Rep (PStr k)]) | Some v \<Rightarrow> Inr v)"

text \<open>\<open>d.get(k)\<close> on a dictionary of values: \<open>None\<close> for a missing key.\<close>

definition dict_get :: "pydict \<Rightarrow> string \<Rightarrow> pyval" where
  "dict_get d k = (case map_of d k of None \<Rightarrow> PNone | Some v \<Rightarrow> v)"

lemma dict_get_update [simp, dict_simps]:
  "dict_get (AList.update k v d) k' = (if k' = k then v else dict_get d k')"
  by (simp add: dict_get_def)

section \<open>Text\<close>

abbreviation char_digits :: string where
  "char_digits \<equiv> ''0123456789''"

definition is_digit :: "char \<Rightarrow> bool" where
  "is_digit c \<longleftrightarrow> c \<in> set char_digits"

definition digit_value :: "char \<Rightarrow> nat" where
  "digit_value c = of_char c - 48"

text \<open>\<open>str.isdigit\<close>: at least one character, all of them digits.\<close>

definition py_isdigit :: "string \<Rightarrow> bool" where
  "py_isdigit s \<longleftrightarrow> s \<noteq> [] \<and> list_all is_digit s"

definition digits_value :: "string \<Rightarrow> int" where
  "digits_value s = foldl (\<lambda>acc c. 10 * acc + int (digit_value c)) 0 s"

definition py_space :: "char \<Rightarrow> bool" where
  "py_space c \<longleftrightarrow> c = CHR '' '' \<or> (9 \<le> (of_char c :: nat) \<and> (of_char c :: nat) \<le> 13)
     \<or> (28 \<le> (of_char c :: nat) \<and> (of_char c :: nat) \<le> 31)"

definition strip_by :: "(char \<Rightarrow> bool) \<Rightarrow> string \<Rightarrow> string" where
  "strip_by p s = rev (dropWhile p (rev (dropWhile p s)))"

text \<open>\<open>str.strip()\<close> and \<open>str.strip(chars)\<close>.\<close>

definition py_strip :: "string \<Rightarrow> string" where
  "py_strip s = strip_by py_space s"

definition py_strip_chars :: "string \<Rightarrow> string \<Rightarrow> string" where
  "py_strip_chars cs s = strip_by (\<lambda>c. c \<in> set cs) s"

text \<open>
  The digits of an integer literal: groups of digits with single underscores between them.
  \<open>int(s)\<close> accepts surrounding white space and a sign, and raises \<open>ValueError\<close> otherwise.
\<close>

fun int_literal :: "bool \<Rightarrow> string \<Rightarrow> string option" where
  "int_literal after_digit [] = (if after_digit then Some [] else None)"
| "int_literal after_digit (c # s) =
     (if is_digit c then map_option ((#) c) (int_literal True s)
      else if c = CHR ''_'' \<and> after_digit then int_literal False s
      else None)"

definition py_int :: "string \<Rightarrow> int res" where
  "py_int s =
     (let err = ValueError [Txt ''invalid literal for int() with base 10: '', Rep (PStr s)];
          t = py_strip s;
          (neg, u) = (case t of
              c # r \<Rightarrow> if c = CHR ''-'' then (True, r) else if c = CHR ''+'' then (False, r) else (False, t)
            | [] \<Rightarrow> (False, t))
      in case int_literal False u of
           None \<Rightarrow> Inl err
         | Some ds \<Rightarrow> Inr (if neg then - digits_value ds else digits_value ds))"

text \<open>\<open>str.startswith\<close>, \<open>str.endswith\<close>, \<open>str.lower\<close>, \<open>str.upper\<close>.\<close>

definition py_startswith :: "string \<Rightarrow> string \<Rightarrow> bool" where
  "py_startswith s p \<longleftrightarrow> take (length p) s = p"

definition py_endswith :: "string \<Rightarrow> string \<Rightarrow> bool" where
  "py_endswith s p \<longleftrightarrow> py_startswith (rev s) (rev p)"

lemma py_startswith_prefix: "py_startswith s p = prefix p s"
  unfolding py_startswith_def prefix_def
  by (metis append_eq_conv_conj append_take_drop_id)

definition char_lower :: "char \<Rightarrow> char" where
  "char_lower c = (if 65 \<le> (of_char c :: nat) \<and> (of_char c :: nat) \<le> 90
                   then char_of ((of_char c :: nat) + 32) else c)"

definition py_lower :: "string \<Rightarrow> string" where
  "py_lower s = map char_lower s"

text \<open>
  \<open>s.partition(c)\<close> for a one-character separator: what is before the first separator, whether
  there is one, what is after it. \<open>s.split(c)\<close> cuts at every separator; \<open>s.rsplit(c, 1)\<close> cuts
  at the last one.
\<close>

definition str_partition :: "char \<Rightarrow> string \<Rightarrow> string \<times> bool \<times> string" where
  "str_partition c s =
     (let l = takeWhile (\<lambda>x. x \<noteq> c) s; r = dropWhile (\<lambda>x. x \<noteq> c) s
      in (l, r \<noteq> [], tl r))"

fun split_on :: "char \<Rightarrow> string \<Rightarrow> string list" where
  "split_on c [] = [[]]"
| "split_on c (x # s) =
     (if x = c then [] # split_on c s
      else case split_on c s of [] \<Rightarrow> [[x]] | w # ws \<Rightarrow> (x # w) # ws)"

definition rsplit1 :: "char \<Rightarrow> string \<Rightarrow> string list" where
  "rsplit1 c s =
     (if c \<in> set s
      then [rev (tl (dropWhile (\<lambda>x. x \<noteq> c) (rev s))), rev (takeWhile (\<lambda>x. x \<noteq> c) (rev s))]
      else [s])"

text \<open>\<open>sep.join(parts)\<close>.\<close>

fun py_join :: "string \<Rightarrow> string list \<Rightarrow> string" where
  "py_join sep [] = []"
| "py_join sep [x] = x"
| "py_join sep (x # y # xs) = x @ sep @ py_join sep (y # xs)"

lemma split_on_nonempty [simp]: "split_on c s \<noteq> []"
  by (induction s) (auto split: list.splits)

lemma split_on_no_sep: "c \<notin> set s \<Longrightarrow> split_on c s = [s]"
  by (induction s) auto

lemma str_partition_length: "str_partition c s = (l, True, r) \<Longrightarrow> length r < length s"
proof -
  assume "str_partition c s = (l, True, r)"
  then have "dropWhile (\<lambda>x. x \<noteq> c) s \<noteq> []" and r: "r = tl (dropWhile (\<lambda>x. x \<noteq> c) s)"
    by (auto simp: str_partition_def Let_def)
  moreover have "length (dropWhile (\<lambda>x. x \<noteq> c) s) \<le> length s"
    by (rule length_dropWhile_le)
  ultimately show ?thesis
    by (cases "dropWhile (\<lambda>x. x \<noteq> c) s") auto
qed

lemma str_partition_none: "c \<notin> set s \<Longrightarrow> str_partition c s = (s, False, [])"
  by (induction s) (auto simp: str_partition_def Let_def)

lemma str_partition_found: "c \<notin> set l \<Longrightarrow> str_partition c (l @ c # r) = (l, True, r)"
  by (induction l) (auto simp: str_partition_def Let_def)

lemma str_partition_FalseD: "str_partition c s = (l, False, r) \<Longrightarrow> l = s \<and> r = []"
proof -
  assume p: "str_partition c s = (l, False, r)"
  then have "c \<notin> set s" by (auto simp: str_partition_def Let_def)
  with p show ?thesis by (simp add: str_partition_none)
qed

text \<open>The decimal representation of a number, as \<open>str\<close> and f-strings print it.\<close>

fun str_of_nat :: "nat \<Rightarrow> string" where
  "str_of_nat n =
     (if n < 10 then [char_of (48 + n)] else str_of_nat (n div 10) @ [char_of (48 + n mod 10)])"

declare str_of_nat.simps [simp del]

definition str_of_int :: "int \<Rightarrow> string" where
  "str_of_int i = (if i < 0 then CHR ''-'' # str_of_nat (nat (- i)) else str_of_nat (nat i))"

lemma is_digit_char_of:
  fixes d :: nat
  assumes "d < 10"
  shows "is_digit (char_of (48 + d))"
proof -
  from assms have "d \<in> {0, 1, 2, 3, 4, 5, 6, 7, 8, 9}" by auto
  then show ?thesis by (elim insertE) (simp_all add: is_digit_def char_of_def bit_simps)
qed

section \<open>Lists\<close>

text \<open>Python slices \<open>xs[i:]\<close> and \<open>xs[:i]\<close>; a negative bound counts from the end.\<close>

definition slice_index :: "'a list \<Rightarrow> int \<Rightarrow> nat" where
  "slice_index xs i = nat (if i < 0 then max 0 (int (length xs) + i) else i)"

definition slice_from :: "'a list \<Rightarrow> int \<Rightarrow> 'a list" where
  "slice_from xs i = drop (slice_index xs i) xs"

definition slice_to :: "'a list \<Rightarrow> int \<Rightarrow> 'a list" where
  "slice_to xs i = take (slice_index xs i) xs"

lemma slice_nonneg [simp]:
  "0 \<le> i \<Longrightarrow> slice_from xs i = drop (nat i) xs"
  "0 \<le> i \<Longrightarrow> slice_to xs i = take (nat i) xs"
  by (simp_all add: slice_from_def slice_to_def slice_index_def)

text \<open>\<open>xs[i]\<close>: a negative index counts from the end, out of range raises \<open>IndexError\<close>.\<close>

definition list_item :: "'a list \<Rightarrow> int \<Rightarrow> 'a res" where
  "list_item xs i =
     (let j = (if i < 0 then int (length xs) + i else i)
      in if 0 \<le> j \<and> j < int (length xs) then Inr (xs ! nat j) else Inl IndexError)"

text \<open>\<open>xs.remove(x)\<close> takes out the first occurrence.\<close>

lemma remove1_filter_distinct: "distinct xs \<Longrightarrow> remove1 x xs = filter (\<lambda>y. y \<noteq> x) xs"
  by (induction xs) (auto intro: filter_True [symmetric])

lemma fst_map_snd [simp]: "fst \<circ> (\<lambda>(k, a). (k, f a)) = fst"
  by auto

lemma distinct_map_inj:
  "distinct (map f xs) \<Longrightarrow> x \<in> set xs \<Longrightarrow> y \<in> set xs \<Longrightarrow> f x = f y \<Longrightarrow> x = y"
  by (auto simp: distinct_map inj_on_def)

end
