(* ===== verification/Errors.thy ===== *)
theory Errors
  imports Prelude
begin

text \<open>
  The exceptions of \<open>service_exception.py\<close>: how they print, the \<open>ValidationErrors\<close> collection
  with its operations, and the conversion of a failed command into a \<open>CallError\<close>.
  A \<open>ValidationErrors\<close> object is the list of its errors; an operation that mutates it returns
  the new list.
\<close>

section \<open>Names of error numbers and printing\<close>

text \<open>
  \<open>get_errname\<close> looks the code up in \<open>errno.errorcode\<close> and then among the middleware's own
  codes; every code of the model has a name there.
\<close>

fun get_errname :: "errno \<Rightarrow> string" where
  "get_errname EINVAL = ''EINVAL''"
| "get_errname EFAULT = ''EFAULT''"
| "get_errname ENOENT = ''ENOENT''"
| "get_errname ENOTDIR = ''ENOTDIR''"
| "get_errname EISDIR = ''EISDIR''"
| "get_errname EACCES = ''EACCES''"
| "get_errname EAGAIN = ''EAGAIN''"
| "get_errname EBUSY = ''EBUSY''"
| "get_errname EBADMSG = ''EBADMSG''"
| "get_errname ETOOMANYREFS = ''ETOOMANYREFS''"
| "get_errname ECONNABORTED = ''ECONNABORTED''"
| "get_errname ECONNREFUSED = ''ECONNREFUSED''"
| "get_errname ECONNRESET = ''ECONNRESET''"
| "get_errname EHOSTDOWN = ''EHOSTDOWN''"
| "get_errname ETIMEDOUT = ''ETIMEDOUT''"
| "get_errname ENOMETHOD = ''ENOMETHOD''"
| "get_errname ESERVICESTARTFAILURE = ''ESERVICESTARTFAILURE''"
| "get_errname EALERTCHECKERUNAVAILABLE = ''EALERTCHECKERUNAVAILABLE''"

text \<open>\<open>CallError.__str__\<close> and \<open>ValidationError.__str__\<close>.\<close>

definition CallError_str :: "msg \<Rightarrow> errno \<Rightarrow> msg" where
  "CallError_str m e = [Txt ''['', Txt (get_errname e), Txt ''] ''] @ m"

definition ValidationError_str :: "string option \<Rightarrow> msg \<Rightarrow> errno \<Rightarrow> msg" where
  "ValidationError_str a m e =
     [Txt ''['', Txt (get_errname e), Txt ''] '',
      Val (case a of None \<Rightarrow> PNone | Some s \<Rightarrow> PStr s), Txt '': ''] @ m"

section \<open>The collection of validation errors\<close>

type_synonym verrors = "verror list"

definition ve_add :: "verrors \<Rightarrow> string \<Rightarrow> msg \<Rightarrow> errno \<Rightarrow> verrors" where
  "ve_add ve a m e = ve @ [VErr a m e]"

definition add_validation_error :: "verrors \<Rightarrow> verror \<Rightarrow> verrors" where
  "add_validation_error ve e = ve @ [e]"

fun add_child :: "verrors \<Rightarrow> string \<Rightarrow> verrors \<Rightarrow> verrors" where
  "add_child ve a [] = ve"
| "add_child ve a (e # es) =
     add_child (ve_add ve (a @ ''.'' @ attribute e) (errmsg e) (verrno e)) a es"

text \<open>\<open>check\<close> raises the collection itself when it holds an error.\<close>

definition ve_check :: "verrors \<Rightarrow> unit res" where
  "ve_check ve = (if ve \<noteq> [] then Inl (Validations ve) else Inr ())"

fun ve_extend :: "verrors \<Rightarrow> verrors \<Rightarrow> verrors" where
  "ve_extend ve [] = ve"
| "ve_extend ve (e # es) = ve_extend (ve_add ve (attribute e) (errmsg e) (verrno e)) es"

text \<open>\<open>__iter__\<close>, \<open>__str__\<close> and \<open>__contains__\<close>.\<close>

definition ve_iter :: "verrors \<Rightarrow> (string \<times> msg \<times> errno) list" where
  "ve_iter ve = map (\<lambda>e. (attribute e, errmsg e, verrno e)) ve"

fun ve_str :: "verrors \<Rightarrow> msg" where
  "ve_str [] = []"
| "ve_str (e # es) =
     ValidationError_str (Some (attribute e)) (errmsg e) (verrno e) @ [Txt [CHR 0x0A]] @ ve_str es"

definition ve_contains :: "verrors \<Rightarrow> string \<Rightarrow> bool" where
  "ve_contains ve item \<longleftrightarrow> item \<in> set (map attribute ve)"

section \<open>Failed commands\<close>

text \<open>
  A \<open>subprocess.CalledProcessError\<close>: the command as a list of arguments or a string, the
  exit code, and what was captured, as bytes or text or not at all. \<open>decode_ignore\<close> stands for
  \<open>bytes.decode("utf-8", "ignore")\<close> and \<open>quote\<close> for \<open>shlex.quote\<close>.
\<close>

datatype captured = NoOutput | Bytes string | Text string

datatype command = ArgList "string list" | CmdLine string

datatype raised = CalledProcessError command int captured captured | OtherError exn

definition output_text :: "(string \<Rightarrow> string) \<Rightarrow> captured \<Rightarrow> string" where
  "output_text decode_ignore out =
     (case out of NoOutput \<Rightarrow> [] | Bytes b \<Rightarrow> decode_ignore b | Text t \<Rightarrow> t)"

definition join_commandline :: "(string \<Rightarrow> string) \<Rightarrow> string list \<Rightarrow> string" where
  "join_commandline quote args = py_join '' '' (map quote args)"

definition py_rstrip :: "string \<Rightarrow> string" where
  "py_rstrip s = rev (dropWhile py_space (rev s))"

definition adapt_exception ::
    "(string \<Rightarrow> string) \<Rightarrow> (string \<Rightarrow> string) \<Rightarrow> raised \<Rightarrow> exn option" where
  "adapt_exception decode_ignore quote e =
     (case e of
        CalledProcessError cmd code out err \<Rightarrow>
          (let cmdline = (case cmd of ArgList args \<Rightarrow> join_commandline quote args | CmdLine s \<Rightarrow> s);
               outp = py_rstrip (output_text decode_ignore out @ output_text decode_ignore err)
           in Some (CallError [Txt ''Command '', Txt cmdline, Txt '' failed (code '',
                Txt (str_of_int code), Txt ('')'' @ '':'' @ [CHR 0x0A]), Txt outp] EFAULT PNone))
      | OtherError _ \<Rightarrow> None)"

section \<open>Laws of the collection\<close>

lemma ve_extend_append [simp]: "ve_extend ve es = ve @ es"
  by (induction es arbitrary: ve) (simp_all add: ve_add_def)

lemma add_child_map:
  "add_child ve a es = ve @ map (\<lambda>e. VErr (a @ ''.'' @ attribute e) (errmsg e) (verrno e)) es"
  by (induction es arbitrary: ve) (simp_all add: ve_add_def)

lemma add_child_Nil_iff [simp]: "(add_child ve a es = []) = (ve = [] \<and> es = [])"
  by (simp add: add_child_map)

lemma ve_add_nonempty [simp]: "ve_add ve a m e \<noteq> []"
  by (simp add: ve_add_def)

lemma ve_check_simps [simp]:
  "(ve_check ve = Inr ()) = (ve = [])"
  "(ve_check ve = Inl x) = (ve \<noteq> [] \<and> x = Validations ve)"
  by (auto simp: ve_check_def)

text \<open>
  (C18) Reporting a nested object's errors through two levels, \<open>add_child(outer, ...)\<close> after
  \<open>add_child(inner, ...)\<close>, appends each error once, in order, with its message and error number
  and with the attribute \<open>outer.inner.attribute\<close>; the errors already collected stay in front.
\<close>

theorem add_child_nested_path:
  "add_child ve a (add_child [] b es) =
     ve @ map (\<lambda>e. VErr (a @ ''.'' @ b @ ''.'' @ attribute e) (errmsg e) (verrno e)) es"
  by (simp add: add_child_map)

end
