(* ===== verification/Query.thy ===== *)
theory Query
  imports Errors
begin

text \<open>
  The query language of \<open>middlewared/utils/__init__.py\<close>: paths into nested values
  (\<open>partition\<close>, \<open>get\<close>), the filter evaluator \<open>filter_list\<close> that every \<open>query\<close> method ends in,
  \<open>filter_getattrs\<close>, and the small helpers of the same file (\<open>bisect\<close>, \<open>is_empty\<close>, \<open>Nid\<close>, the
  refreshing cache, the service registry).
  The regular expression engine behind the operator \<open>~\<close> is the parameter \<open>re_match\<close>: pattern
  and text to whether \<open>re.match\<close> finds a match, or \<open>re.error\<close>.
\<close>

type_synonym regex = "string \<Rightarrow> string \<Rightarrow> bool res"

section \<open>Helpers\<close>

fun bisect :: "('a \<Rightarrow> bool) \<Rightarrow> 'a list \<Rightarrow> 'a list \<times> 'a list" where
  "bisect condition [] = ([], [])"
| "bisect condition (v # vs) =
     (let (a, b) = bisect condition vs in if condition v then (v # a, b) else (a, v # b))"

lemma bisect_filter [simp]: "bisect p xs = (filter p xs, filter (\<lambda>x. \<not> p x) xs)"
  by (induction xs) (simp_all add: case_prod_unfold)

text \<open>\<open>is_empty\<close>; \<open>val.isspace()\<close> of a non-empty string, \<open>AttributeError\<close> on other values.\<close>

definition is_empty :: "pyval \<Rightarrow> bool res" where
  "is_empty v =
     (if v = PNone \<or> v = PStr [] then Inr True
      else case v of PStr s \<Rightarrow> Inr (list_all py_space s) | _ \<Rightarrow> Inl AttributeError)"

text \<open>\<open>Nid.__call__\<close>: returns the counter and increments it.\<close>

definition nid_call :: "int \<Rightarrow> int \<times> int" where
  "nid_call n = (n, n + 1)"

text \<open>
  \<open>cache_with_autorefresh\<close>: the wrapped function is called when the refresh period is over or
  at the first call; \<open>fn\<close> is its result at this time. Times are in seconds.
\<close>

record 'a refresh_cache =
  refresh_period :: int
  cached_return :: "'a option"
  cache_first :: bool
  time_of_last_call :: int

definition cache_call :: "int \<Rightarrow> 'a \<Rightarrow> 'a refresh_cache \<Rightarrow> 'a option \<times> 'a refresh_cache" where
  "cache_call now fn c =
     (if now - time_of_last_call c > refresh_period c \<or> cache_first c
      then (let c' = c\<lparr>cache_first := False, time_of_last_call := now, cached_return := Some fn\<rparr>
            in (cached_return c', c'))
      else (cached_return c, c))"

section \<open>Paths\<close>

text \<open>
  \<open>partition(s)\<close> splits a path at its first dot that no backslash precedes, and removes the
  backslashes before the dots it skips. \<open>left[-1]\<close> of an empty \<open>left\<close> raises \<open>IndexError\<close>.
\<close>

function path_partition :: "string \<Rightarrow> string \<Rightarrow> (string \<times> string) res" where
  "path_partition rv s =
     (case str_partition (CHR ''.'') s of (left, sep, right) \<Rightarrow>
      if \<not> sep then Inr (rv @ left, right)
      else if left = [] then Inl IndexError
      else if last left = CHR 0x5C then path_partition (rv @ butlast left @ ''.'') right
      else Inr (rv @ left, right))"
  by pat_completeness auto
termination
  by (relation "measure (\<lambda>(rv, s). length s)") (auto dest!: sym [of "(_, _, _)"] str_partition_length)

declare path_partition.simps [simp del]

text \<open>One component of a path applied to a value.\<close>

definition get_step :: "pyval \<Rightarrow> string \<Rightarrow> pyval res" where
  "get_step cur left =
     (case cur of
        PDict d \<Rightarrow> Inr (dict_get d left)
      | PList xs \<Rightarrow>
          rbind (py_int left) (\<lambda>i. if i < int (length xs) then list_item xs i else Inr PNone)
      | PTuple xs \<Rightarrow>
          rbind (py_int left) (\<lambda>i. if i < int (length xs) then list_item xs i else Inr PNone)
      | _ \<Rightarrow> Inr cur)"

lemma path_partition_shorter:
  "path_partition rv s = Inr (l, r) \<Longrightarrow> s \<noteq> [] \<Longrightarrow> length r < length s"
proof (induction rv s rule: path_partition.induct)
  case (1 rv s)
  obtain left sep right where p: "str_partition (CHR ''.'') s = (left, sep, right)"
    by (metis prod_cases3)
  show ?case
  proof (cases "sep \<and> left \<noteq> [] \<and> last left = CHR 0x5C")
    case True
    then have rec: "path_partition (rv @ butlast left @ ''.'') right = Inr (l, r)"
      using "1.prems" p by (simp add: path_partition.simps [of rv s])
    have lt: "length right < length s"
      using p True by (auto dest: str_partition_length)
    show ?thesis
    proof (cases "right = []")
      case True
      then have "r = []"
        using rec by (simp add: path_partition.simps [of _ "[]"] str_partition_def)
      with "1.prems" show ?thesis by simp
    next
      case False
      with "1.IH" [OF p [symmetric] refl] \<open>sep \<and> left \<noteq> [] \<and> last left = CHR 0x5C\<close> rec
      have "length r < length right" by simp
      with lt show ?thesis by simp
    qed
  next
    case False
    then have "r = right" and "\<not> sep \<longrightarrow> right = []"
      using "1.prems" p
      by (auto simp: path_partition.simps [of rv s] split: if_splits dest: str_partition_FalseD)
    with p "1.prems" show ?thesis
      by (cases sep) (auto dest: str_partition_length)
  qed
qed

function get :: "pyval \<Rightarrow> string \<Rightarrow> pyval res" where
  "get cur right =
     (if right = [] then Inr cur
      else rbind (path_partition [] right)
             (\<lambda>(left, right'). rbind (get_step cur left) (\<lambda>cur'. get cur' right')))"
  by pat_completeness auto
termination
  by (relation "measure (\<lambda>(cur, right). length right)") (auto dest: path_partition_shorter)

declare get.simps [simp del]

lemma get_empty [simp]: "get v [] = Inr v"
  by (simp add: get.simps)

section \<open>Filters\<close>

text \<open>Methods \<open>x.startswith(y)\<close> and \<open>x.endswith(y)\<close> on values.\<close>

fun all_strs :: "pyval list \<Rightarrow> string list option" where
  "all_strs [] = Some []"
| "all_strs (v # vs) =
     (case v of PStr s \<Rightarrow> map_option ((#) s) (all_strs vs) | _ \<Rightarrow> None)"

definition val_affix :: "(string \<Rightarrow> string \<Rightarrow> bool) \<Rightarrow> pyval \<Rightarrow> pyval \<Rightarrow> bool res" where
  "val_affix p x y =
     (case x of
        PStr s \<Rightarrow>
          (case y of
             PStr t \<Rightarrow> Inr (p s t)
           | PTuple ts \<Rightarrow>
               (case all_strs ts of None \<Rightarrow> Inl TypeError | Some us \<Rightarrow> Inr (list_ex (p s) us))
           | _ \<Rightarrow> Inl TypeError)
      | _ \<Rightarrow> Inl AttributeError)"

definition res_not :: "bool res \<Rightarrow> bool res" where
  "res_not r = rbind r (\<lambda>b. Inr (\<not> b))"

text \<open>The operators that are false on \<open>None\<close> before anything else is evaluated.\<close>

definition guard_none :: "(pyval \<Rightarrow> pyval \<Rightarrow> bool res) \<Rightarrow> pyval \<Rightarrow> pyval \<Rightarrow> bool res" where
  "guard_none g x y = (if x = PNone then Inr False else g x y)"

definition opmap :: "regex \<Rightarrow> (string \<times> (pyval \<Rightarrow> pyval \<Rightarrow> bool res)) list" where
  "opmap re_match =
    [(''='', \<lambda>x y. Inr (py_eq x y)),
     (''!='', \<lambda>x y. Inr (\<not> py_eq x y)),
     (''>'', py_gt),
     (''>='', py_ge),
     (''<'', py_lt),
     (''<='', py_le),
     (''~'', \<lambda>x y. case (y, x) of (PStr p, PStr s) \<Rightarrow> re_match p s | _ \<Rightarrow> Inl TypeError),
     (''in'', py_in),
     (''nin'', \<lambda>x y. res_not (py_in x y)),
     (''rin'', guard_none (\<lambda>x y. py_in y x)),
     (''rnin'', guard_none (\<lambda>x y. res_not (py_in y x))),
     (''^'', guard_none (val_affix py_startswith)),
     (''!^'', guard_none (\<lambda>x y. res_not (val_affix py_startswith x y))),
     (''$'', guard_none (val_affix py_endswith)),
     (''!$'', guard_none (\<lambda>x y. res_not (val_affix py_endswith x y)))]"

text \<open>
  The attribute of a row a filter names: a path into a dictionary. A path that is not a
  string ends the loop of \<open>get\<close> at once when it is false and has no method \<open>partition\<close> otherwise.
  Rows that are not dictionaries are read with \<open>getattr\<close>; the values of the model have no
  attributes.
\<close>

definition row_source :: "pyval \<Rightarrow> pyval \<Rightarrow> pyval res" where
  "row_source i name =
     (case i of
        PDict d \<Rightarrow>
          (case name of
             PStr path \<Rightarrow> get i path
           | _ \<Rightarrow> if truthy name then Inl AttributeError else Inr i)
      | _ \<Rightarrow> Inl AttributeError)"

text \<open>\<open>filterop(f)\<close> for the row \<open>i\<close>.\<close>

definition filterop :: "regex \<Rightarrow> pyval \<Rightarrow> pyval \<Rightarrow> bool res" where
  "filterop re_match i f =
     rbind (py_iter f) (\<lambda>parts.
       case parts of
         [name, oper, v] \<Rightarrow>
           (if \<not> hashable oper then Inl TypeError
            else case (case oper of PStr p \<Rightarrow> map_of (opmap re_match) p | _ \<Rightarrow> None) of
                   None \<Rightarrow> Inl (ValueError [Txt ''Invalid operation: '', Val oper])
                 | Some g \<Rightarrow> rbind (row_source i name) (\<lambda>source. g source v))
       | _ \<Rightarrow> Inl (ValueError [Txt ''Invalid filter '', Val f]))"

text \<open>The \<open>for ... else\<close> loop over the alternatives of an \<open>OR\<close>.\<close>

fun any_filter :: "regex \<Rightarrow> pyval \<Rightarrow> pyval list \<Rightarrow> bool res" where
  "any_filter re_match i [] = Inr False"
| "any_filter re_match i (f # fs) =
     rbind (filterop re_match i f) (\<lambda>b. if b then Inr True else any_filter re_match i fs)"

text \<open>The inner loop of \<open>filter_list\<close>: whether a row passes every filter.\<close>

fun row_valid :: "regex \<Rightarrow> pyval \<Rightarrow> pyval list \<Rightarrow> bool res" where
  "row_valid re_match i [] = Inr True"
| "row_valid re_match i (f # fs) =
     rbind (py_iter f) (\<lambda>parts.
       case parts of
         [oper, v] \<Rightarrow>
           (if py_eq oper (PStr ''OR'')
            then rbind (py_iter v) (\<lambda>alts. rbind (any_filter re_match i alts)
                   (\<lambda>b. if b then row_valid re_match i fs else Inr False))
            else Inl (ValueError [Txt ''Invalid operation: '', Val oper]))
       | _ \<Rightarrow> rbind (filterop re_match i f)
                (\<lambda>b. if b then row_valid re_match i fs else Inr False))"

text \<open>The projection of a row onto the selected keys.\<close>

fun select_entry :: "pyval list \<Rightarrow> pyval \<Rightarrow> pydict \<Rightarrow> pydict res" where
  "select_entry [] i entry = Inr entry"
| "select_entry (s # ss) i entry =
     rbind (py_in s i) (\<lambda>b.
       if \<not> b then select_entry ss i entry
       else case (i, s) of
              (PDict d, PStr k) \<Rightarrow>
                rbind (dict_item d k) (\<lambda>v. select_entry ss i (AList.update k v entry))
            | _ \<Rightarrow> Inl TypeError)"

definition make_entry :: "pyval \<Rightarrow> pyval \<Rightarrow> pyval res" where
  "make_entry select i =
     (if truthy select
      then rbind (py_iter select) (\<lambda>ss. rbind (select_entry ss i []) (\<lambda>e. Inr (PDict e)))
      else Inr i)"

text \<open>
  The outer loop when there are filters. \<open>Inl\<close> inside the result is the early \<open>return entry\<close>
  that the option \<open>get\<close> asks for, \<open>Inr\<close> the rows collected.
\<close>

fun filter_loop ::
    "regex \<Rightarrow> pyval list \<Rightarrow> pyval \<Rightarrow> bool \<Rightarrow> pyval list \<Rightarrow> pyval list \<Rightarrow> (pyval + pyval list) res" where
  "filter_loop re_match filters select get_opt [] rv = Inr (Inr rv)"
| "filter_loop re_match filters select get_opt (i # rows) rv =
     rbind (row_valid re_match i filters) (\<lambda>valid.
       if \<not> valid then filter_loop re_match filters select get_opt rows rv
       else rbind (make_entry select i) (\<lambda>entry.
              if get_opt then Inr (Inl entry)
              else filter_loop re_match filters select get_opt rows (rv @ [entry])))"

text \<open>
  \<open>sorted(rv, key=..., reverse=...)\<close>: a stable sort by \<open><\<close>; \<open>reverse\<close> keeps the order of rows
  with equal keys. Comparing two keys of unrelated types raises \<open>TypeError\<close>, so the sort raises
  when some pair of keys cannot be compared. (For keys that are sequences this is an
  approximation: a sort may succeed without ever comparing such a pair.)
\<close>

definition key_less :: "pyval \<Rightarrow> pyval \<Rightarrow> bool" where
  "key_less x y \<longleftrightarrow> py_lt x y = Inr True"

definition comparable :: "pyval \<Rightarrow> pyval \<Rightarrow> bool" where
  "comparable x y = (case (py_lt x y, py_lt y x) of (Inr _, Inr _) \<Rightarrow> True | _ \<Rightarrow> False)"

fun all_comparable :: "pyval list \<Rightarrow> bool" where
  "all_comparable [] = True"
| "all_comparable (k # ks) = (list_all (comparable k) ks \<and> all_comparable ks)"

fun insert_row :: "pyval \<times> 'a \<Rightarrow> (pyval \<times> 'a) list \<Rightarrow> (pyval \<times> 'a) list" where
  "insert_row p [] = [p]"
| "insert_row p (q # qs) =
     (if key_less (fst q) (fst p) then q # insert_row p qs else p # q # qs)"

definition stable_sort :: "(pyval \<times> 'a) list \<Rightarrow> (pyval \<times> 'a) list" where
  "stable_sort ps = foldr insert_row ps []"

definition py_sorted :: "bool \<Rightarrow> (pyval \<times> 'a) list \<Rightarrow> 'a list res" where
  "py_sorted reverse ps =
     (if \<not> all_comparable (map fst ps) then Inl TypeError
      else Inr (map snd (if reverse then rev (stable_sort (rev ps)) else stable_sort ps)))"

text \<open>\<open>x[o]\<close> for a row, and one round of the \<open>order_by\<close> loop.\<close>

definition row_item :: "string \<Rightarrow> pyval \<Rightarrow> pyval res" where
  "row_item k x = (case x of PDict d \<Rightarrow> dict_item d k | _ \<Rightarrow> Inl TypeError)"

definition order_rows :: "pyval \<Rightarrow> pyval list \<Rightarrow> pyval list res" where
  "order_rows ob rv =
     (case ob of
        PStr s \<Rightarrow>
          (let reverse = py_startswith s ''-''; key = (if reverse then drop 1 s else s)
           in rbind (mapM (row_item key) rv) (\<lambda>ks. py_sorted reverse (zip ks rv)))
      | _ \<Rightarrow> Inl AttributeError)"

fun order_loop :: "pyval list \<Rightarrow> pyval list \<Rightarrow> pyval list res" where
  "order_loop [] rv = Inr rv"
| "order_loop (ob # obs) rv = rbind (order_rows ob rv) (order_loop obs)"

text \<open>A slice bound has to be an integer.\<close>

fun as_index :: "pyval \<Rightarrow> int res" where
  "as_index (PInt i) = Inr i"
| "as_index (PBool b) = Inr (if b then 1 else 0)"
| "as_index _ = Inl TypeError"

text \<open>What \<open>filter_list\<close> does with the rows it collected.\<close>

definition finish_rows :: "pydict \<Rightarrow> pyval list \<Rightarrow> pyval res" where
  "finish_rows options rv =
     (if dict_get options ''count'' = PBool True then Inr (PInt (int (length rv)))
      else
        rbind (if truthy (dict_get options ''order_by'')
               then rbind (py_iter (dict_get options ''order_by'')) (\<lambda>obs. order_loop obs rv)
               else Inr rv) (\<lambda>rv1.
          if dict_get options ''get'' = PBool True
          then (case rv1 of [] \<Rightarrow> Inl MatchNotFound | r # _ \<Rightarrow> Inr r)
          else
            rbind (if truthy (dict_get options ''offset'')
                   then rbind (as_index (dict_get options ''offset'')) (\<lambda>n. Inr (slice_from rv1 n))
                   else Inr rv1) (\<lambda>rv2.
              if truthy (dict_get options ''limit'')
              then rbind (as_index (dict_get options ''limit'')) (\<lambda>n. Inr (PList (slice_to rv2 n)))
              else Inr (PList rv2))))"

definition filter_list ::
    "regex \<Rightarrow> pyval list \<Rightarrow> pyval list option \<Rightarrow> pydict option \<Rightarrow> pyval res" where
  "filter_list re_match lst filters_arg options_arg =
     (let filters = (case filters_arg of None \<Rightarrow> [] | Some fs \<Rightarrow> fs);
          options = (case options_arg of None \<Rightarrow> [] | Some opts \<Rightarrow> opts);
          select = dict_get options ''select''
      in if filters \<noteq> [] then
           rbind (filter_loop re_match filters select (dict_get options ''get'' = PBool True) lst [])
             (\<lambda>r. case r of Inl entry \<Rightarrow> Inr entry | Inr rv \<Rightarrow> finish_rows options rv)
         else if truthy select then
           rbind (mapM (make_entry select) lst) (finish_rows options)
         else finish_rows options lst)"

section \<open>Attributes a filter uses\<close>

text \<open>\<open>len\<close> and indexing of a filter: sequences by position; a dictionary has no key 0 or 1.\<close>

fun filter_parts :: "pyval \<Rightarrow> pyval list res" where
  "filter_parts (PList xs) = Inr xs"
| "filter_parts (PTuple xs) = Inr xs"
| "filter_parts (PStr s) = Inr (map (\<lambda>c. PStr [c]) s)"
| "filter_parts (PDict d) =
     (if length d = 2 \<or> length d = 3 then Inl (KeyError []) else Inl (ValueError [Txt ''Invalid filter.'']))"
| "filter_parts _ = Inl TypeError"

text \<open>A measure that shrinks from a filter to its parts.\<close>

fun weight :: "pyval \<Rightarrow> nat" where
  "weight (PStr s) = Suc (length s)"
| "weight (PList xs) = Suc (sum_list (map weight xs))"
| "weight (PTuple xs) = Suc (sum_list (map weight xs))"
| "weight _ = 1"

lemma filter_parts_weight: "filter_parts f = Inr [a, b] \<Longrightarrow> weight b < weight f"
  by (cases f) (auto split: if_splits simp: map_eq_Cons_conv)

text \<open>
  The loop of \<open>filter_getattrs\<close>; the end of the working list is the head of the model's stack.
  The set of attributes is the list of values in the order they are added.
\<close>

function getattrs_loop :: "pyval list \<Rightarrow> pyval list \<Rightarrow> pyval list res" where
  "getattrs_loop [] attrs = Inr attrs"
| "getattrs_loop (f # stack) attrs =
     rbind (filter_parts f) (\<lambda>parts.
       case parts of
         [a, b] \<Rightarrow> getattrs_loop (b # stack) attrs
       | [a, b, c] \<Rightarrow>
           if hashable a then getattrs_loop stack (if list_ex (py_eq a) attrs then attrs else attrs @ [a])
           else Inl TypeError
       | _ \<Rightarrow> Inl (ValueError [Txt ''Invalid filter.'']))"
  by pat_completeness auto
termination
  by (relation "measure (\<lambda>(stack, attrs). sum_list (map (\<lambda>f. Suc (weight f)) stack))")
     (auto dest: filter_parts_weight)

declare getattrs_loop.simps(2) [simp del]

lemma getattrs_pair [simp]:
  "filter_parts f = Inr [a, b] \<Longrightarrow> getattrs_loop (f # stack) attrs = getattrs_loop (b # stack) attrs"
  by (subst getattrs_loop.simps) simp

lemma getattrs_triple [simp]:
  "filter_parts f = Inr [a, b, c] \<Longrightarrow> hashable a \<Longrightarrow>
     getattrs_loop (f # stack) attrs =
       getattrs_loop stack (if list_ex (py_eq a) attrs then attrs else attrs @ [a])"
  by (subst getattrs_loop.simps) simp

lemma getattrs_single [simp]:
  "filter_parts f = Inr [a] \<Longrightarrow>
     getattrs_loop (f # stack) attrs = Inl (ValueError [Txt ''Invalid filter.''])"
  by (subst getattrs_loop.simps) simp


section \<open>Paths: escaping a key\<close>

text \<open>
  The path that names one key: every dot of the key preceded by a backslash. The sources have
  no such function; callers write such paths by hand, as in the example of the docstring of \<open>get\<close>.
\<close>

definition escape_key :: "string \<Rightarrow> string" where
  "escape_key k = concat (map (\<lambda>c. if c = CHR ''.'' then [CHR 0x5C, CHR ''.''] else [c]) k)"

lemma escape_key_no_dot: "CHR ''.'' \<notin> set k \<Longrightarrow> escape_key k = k"
  by (induction k) (auto simp: escape_key_def)

lemma escape_key_dot: "CHR ''.'' \<notin> set l \<Longrightarrow>
    escape_key (l @ CHR ''.'' # r) = l @ CHR 0x5C # CHR ''.'' # escape_key r"
  by (induction l) (auto simp: escape_key_def)

lemma path_partition_step:
  "CHR ''.'' \<notin> set l \<Longrightarrow>
     path_partition rv (l @ CHR 0x5C # CHR ''.'' # r) = path_partition (rv @ l @ ''.'') r"
  using str_partition_found [of "CHR ''.''" "l @ [CHR 0x5C]" r]
  by (subst path_partition.simps) simp

lemma path_partition_escape: "path_partition rv (escape_key k) = Inr (rv @ k, [])"
proof (induction k arbitrary: rv rule: length_induct)
  case (1 k)
  show ?case
  proof (cases "CHR ''.'' \<in> set k")
    case True
    then obtain l r where k: "k = l @ CHR ''.'' # r" and l: "CHR ''.'' \<notin> set l"
      by (meson split_list_first)
    with "1.IH" have "path_partition (rv @ l @ ''.'') (escape_key r) = Inr (rv @ l @ ''.'' @ r, [])"
      by simp
    with k l show ?thesis by (simp add: escape_key_dot path_partition_step)
  next
    case False
    then show ?thesis
      by (simp add: escape_key_no_dot path_partition.simps [of rv k] str_partition_none)
  qed
qed


lemma escape_key_Nil [simp]: "(escape_key k = []) = (k = [])"
  by (cases k) (auto simp: escape_key_def)

lemma get_escape_key: "k \<noteq> [] \<Longrightarrow> get (PDict d) (escape_key k) = Inr (dict_get d k)"
  by (subst get.simps) (simp add: path_partition_escape get_step_def)




section \<open>What the filters mean\<close>

text \<open>
  The reading of the filter language as a formula: a simple filter holds of a row when its
  operator gives true on the attribute it names; an \<open>OR\<close> holds when one of its alternatives does.
\<close>

definition simple_holds :: "regex \<Rightarrow> pyval \<Rightarrow> pyval \<Rightarrow> bool" where
  "simple_holds re_match i f \<longleftrightarrow>
     (\<exists>name oper v g src. py_iter f = Inr [name, PStr oper, v] \<and>
        map_of (opmap re_match) oper = Some g \<and> row_source i name = Inr src \<and> g src v = Inr True)"

definition filter_holds :: "regex \<Rightarrow> pyval \<Rightarrow> pyval \<Rightarrow> bool" where
  "filter_holds re_match i f \<longleftrightarrow>
     simple_holds re_match i f \<or>
     (\<exists>v alts. py_iter f = Inr [PStr ''OR'', v] \<and> py_iter v = Inr alts \<and>
        (\<exists>a \<in> set alts. simple_holds re_match i a))"

lemma py_eq_PStr_right: "py_eq x (PStr s) = (x = PStr s)"
  by (cases x) auto

lemma filterop_three:
  "filterop re_match i f = Inr b \<Longrightarrow>
     \<exists>name oper v g src. py_iter f = Inr [name, PStr oper, v] \<and>
       map_of (opmap re_match) oper = Some g \<and> row_source i name = Inr src \<and> g src v = Inr b"
  unfolding filterop_def rbind_Inr
  by (elim exE conjE) (simp split: list.split_asm option.split_asm pyval.split_asm if_split_asm
        add: rbind_Inr; blast)

lemma filterop_eval:
  "py_iter f = Inr [name, PStr oper, v] \<Longrightarrow> map_of (opmap re_match) oper = Some g \<Longrightarrow>
     row_source i name = Inr src \<Longrightarrow> filterop re_match i f = g src v"
  by (simp add: filterop_def)

lemma filterop_True: "(filterop re_match i f = Inr True) = simple_holds re_match i f"
  unfolding simple_holds_def by (metis filterop_three filterop_eval)

lemma any_filter_True:
  assumes "any_filter re_match i alts = Inr b"
  shows "b = (\<exists>a \<in> set alts. simple_holds re_match i a)"
  using assms
proof (induction alts)
  case (Cons a alts)
  then obtain c where c: "filterop re_match i a = Inr c" by (auto simp: res_simps)
  with Cons filterop_True [of re_match i a] show ?case by (cases c) auto
qed simp

text \<open>Whatever the loop over the filters answers is the conjunction of their readings.\<close>

lemma row_valid_holds:
  assumes "row_valid re_match i fs = Inr b"
  shows "b = (\<forall>f \<in> set fs. filter_holds re_match i f)"
  using assms
proof (induction fs)
  case (Cons f fs)
  obtain parts where parts: "py_iter f = Inr parts"
    using Cons.prems by (auto simp: res_simps)
  show ?case
  proof (cases "\<exists>oper v. parts = [oper, v]")
    case True
    then obtain v alts where "parts = [PStr ''OR'', v]" and alts: "py_iter v = Inr alts"
      using Cons.prems parts by (auto simp: res_simps py_eq_PStr_right split: if_splits)
    then have holds: "filter_holds re_match i f = (\<exists>a \<in> set alts. simple_holds re_match i a)"
      using parts by (auto simp: filter_holds_def simple_holds_def)
    obtain c where c: "any_filter re_match i alts = Inr c"
      using Cons.prems parts \<open>parts = [PStr ''OR'', v]\<close> alts by (auto simp: res_simps)
    show ?thesis
      using Cons parts \<open>parts = [PStr ''OR'', v]\<close> alts c any_filter_True [OF c] holds
      by (cases c) auto
  next
    case False
    then have rv: "row_valid re_match i (f # fs) =
        rbind (filterop re_match i f) (\<lambda>b. if b then row_valid re_match i fs else Inr False)"
      using parts by (auto split: list.splits)
    have holds: "filter_holds re_match i f = simple_holds re_match i f"
      using False parts by (auto simp: filter_holds_def)
    obtain c where c: "filterop re_match i f = Inr c"
      using Cons.prems [unfolded rv] by (auto simp: rbind_Inr)
    show ?thesis
      using Cons.IH Cons.prems [unfolded rv] c filterop_True [of re_match i f] holds by (cases c) auto
  qed
qed simp

text \<open>Rows on which no filter raises.\<close>

definition decidable :: "regex \<Rightarrow> pyval list \<Rightarrow> pyval list \<Rightarrow> bool" where
  "decidable re_match fs rows \<longleftrightarrow> list_all (\<lambda>i. case row_valid re_match i fs of Inl _ \<Rightarrow> False | Inr _ \<Rightarrow> True) rows"

abbreviation matching :: "regex \<Rightarrow> pyval list \<Rightarrow> pyval list \<Rightarrow> pyval list" where
  "matching re_match fs rows \<equiv> filter (\<lambda>i. \<forall>f \<in> set fs. filter_holds re_match i f) rows"

lemma filter_loop_rows:
  "decidable re_match fs rows \<Longrightarrow> \<not> truthy sel \<Longrightarrow>
     filter_loop re_match fs sel False rows rv = Inr (Inr (rv @ matching re_match fs rows))"
proof (induction rows arbitrary: rv)
  case (Cons i rows)
  then obtain b where b: "row_valid re_match i fs = Inr b"
    by (auto simp: decidable_def split: sum.splits)
  with Cons row_valid_holds [OF b] show ?case
    by (auto simp: decidable_def make_entry_def)
qed simp


text \<open>
  (C13) \<open>filter_list\<close> with filters, an offset and a limit returns one page of the rows that
  satisfy the filters read as a formula (all of them hold, an \<open>OR\<close> when one alternative does),
  in the order of the input; a zero offset or limit means none. The filters must not raise on
  any row.
\<close>

theorem filter_list_page:
  assumes "fs \<noteq> []" and "decidable re_match fs rows"
  shows "filter_list re_match rows (Some fs)
           (Some [(''offset'', PInt (int n)), (''limit'', PInt (int l))]) =
         Inr (PList (if l = 0 then drop n (matching re_match fs rows)
                     else take l (drop n (matching re_match fs rows))))"
  using assms
  by (simp add: filter_list_def Let_def filter_loop_rows dict_get_def finish_rows_def)

theorem filter_list_page_witness:
  "filter_list (\<lambda>p s. Inr True)
     [PDict [(''id'', PInt 1)], PDict [(''id'', PInt 2)], PDict [(''id'', PInt 3)]]
     (Some [PList [PStr ''OR'', PList [PList [PStr ''id'', PStr ''='', PInt 1],
                                       PList [PStr ''id'', PStr ''>'', PInt 2]]]])
     (Some [(''offset'', PInt (int 1)), (''limit'', PInt (int 5))]) =
   Inr (PList (take 5 (drop 1 (matching (\<lambda>p s. Inr True)
     [PList [PStr ''OR'', PList [PList [PStr ''id'', PStr ''='', PInt 1],
                                 PList [PStr ''id'', PStr ''>'', PInt 2]]]]
     [PDict [(''id'', PInt 1)], PDict [(''id'', PInt 2)], PDict [(''id'', PInt 3)]]))))"
proof -
  have "get (PDict [(''id'', v)]) ''id'' = Inr v" for v
    using get_escape_key [of "''id''" "[(''id'', v)]"] by (simp add: escape_key_def dict_get_def)
  then show ?thesis
    by (subst filter_list_page)
       (simp_all add: decidable_def filterop_def opmap_def row_source_def py_gt_def)
qed




section \<open>Ordering\<close>

text \<open>
  What the sort needs of the keys: on the set \<open>K\<close> the operator \<open><\<close> never raises and is a strict
  weak order.
\<close>

locale key_order =
  fixes K :: "pyval set"
  assumes total: "x \<in> K \<Longrightarrow> y \<in> K \<Longrightarrow> comparable x y"
    and asym: "x \<in> K \<Longrightarrow> y \<in> K \<Longrightarrow> key_less x y \<Longrightarrow> \<not> key_less y x"
    and ge_trans: "x \<in> K \<Longrightarrow> y \<in> K \<Longrightarrow> z \<in> K \<Longrightarrow>
      \<not> key_less y x \<Longrightarrow> \<not> key_less z y \<Longrightarrow> \<not> key_less z x"
begin

abbreviation ordered :: "(pyval \<times> 'a) list \<Rightarrow> bool" where
  "ordered \<equiv> sorted_wrt (\<lambda>p q. \<not> key_less (fst q) (fst p))"

lemma set_insert_row: "set (insert_row p qs) = insert p (set qs)"
  by (induction qs) auto

lemma mset_insert_row: "mset (insert_row p qs) = add_mset p (mset qs)"
  by (induction qs) auto

lemma insert_row_ordered:
  "fst p \<in> K \<Longrightarrow> fst ` set qs \<subseteq> K \<Longrightarrow> ordered qs \<Longrightarrow> ordered (insert_row p qs)"
proof (induction qs)
  case (Cons q qs)
  show ?case
  proof (cases "key_less (fst q) (fst p)")
    case True
    with Cons show ?thesis by (auto simp: set_insert_row dest: asym)
  next
    case False
    have "\<not> key_less (fst r) (fst p)" if "r \<in> set qs" for r
      using ge_trans [of "fst p" "fst q" "fst r"] Cons.prems that False by auto
    with False Cons.prems show ?thesis by simp
  qed
qed simp

lemma insert_row_stable:
  "fst p \<in> K \<Longrightarrow> fst ` set qs \<subseteq> K \<Longrightarrow>
     filter (\<lambda>q. fst q = x) (insert_row p qs) = filter (\<lambda>q. fst q = x) (p # qs)"
  by (induction qs) (auto dest: asym)

lemma stable_sort_keys: "set (stable_sort ps) = set ps"
  unfolding stable_sort_def by (induction ps) (simp_all add: set_insert_row)

lemma stable_sort_mset: "mset (stable_sort ps) = mset ps"
  unfolding stable_sort_def by (induction ps) (simp_all add: mset_insert_row)

lemma stable_sort_ordered: "fst ` set ps \<subseteq> K \<Longrightarrow> ordered (stable_sort ps)"
proof (induction ps)
  case (Cons p ps)
  then show ?case
    using stable_sort_keys [of ps] by (simp add: stable_sort_def insert_row_ordered)
qed (simp add: stable_sort_def)

lemma stable_sort_stable:
  "fst ` set ps \<subseteq> K \<Longrightarrow>
     filter (\<lambda>q. fst q = x) (stable_sort ps) = filter (\<lambda>q. fst q = x) ps"
proof (induction ps)
  case (Cons p ps)
  then show ?case
    using stable_sort_keys [of ps] by (simp add: stable_sort_def insert_row_stable)
qed (simp add: stable_sort_def)

lemma all_comparable_K: "set ks \<subseteq> K \<Longrightarrow> all_comparable ks"
  by (induction ks) (auto simp: list_all_iff intro: total)

text \<open>Rows sorted by a key: sorted either way, the same rows, stable.\<close>

lemma py_sorted_rows:
  assumes K: "fst ` set ps \<subseteq> K"
  shows "\<exists>qs. py_sorted rv ps = Inr (map snd qs) \<and> mset qs = mset ps \<and>
           sorted_wrt (\<lambda>p q. if rv then \<not> key_less (fst p) (fst q) else \<not> key_less (fst q) (fst p)) qs \<and>
           (\<forall>x. filter (\<lambda>q. fst q = x) qs = filter (\<lambda>q. fst q = x) ps)"
proof -
  have c: "all_comparable (map fst ps)"
    using K by (intro all_comparable_K) auto
  show ?thesis
  proof (cases rv)
    case True
    have "ordered (stable_sort (rev ps))"
      using K by (intro stable_sort_ordered) auto
    moreover have "filter (\<lambda>q. fst q = x) (rev (stable_sort (rev ps))) = filter (\<lambda>q. fst q = x) ps" for x
      using stable_sort_stable [of "rev ps" x] K by (simp flip: rev_filter)
    ultimately show ?thesis
      using True c
      by (intro exI [of _ "rev (stable_sort (rev ps))"])
         (simp add: py_sorted_def sorted_wrt_rev stable_sort_mset)
  next
    case False
    then show ?thesis
      using c K
      by (intro exI [of _ "stable_sort ps"])
         (simp add: py_sorted_def stable_sort_mset stable_sort_ordered stable_sort_stable)
  qed
qed

end

lemma key_less_int [simp]: "key_less (PInt i) (PInt j) = (i < j)"
  by (simp add: key_less_def)

lemma key_less_str [simp]: "key_less (PStr s) (PStr t) = str_less s t"
  by (simp add: key_less_def)

lemma str_less_Nil [simp]: "\<not> str_less s []"
  by (cases s) simp_all

lemma str_less_asym: "str_less s t \<Longrightarrow> \<not> str_less t s"
  by (induction s t rule: str_less.induct) auto

lemma str_less_trans: "str_less s t \<Longrightarrow> str_less t u \<Longrightarrow> str_less s u"
proof (induction s t arbitrary: u rule: str_less.induct)
  case (1 t)
  then show ?case by (cases u) auto
next
  case (3 c s d t)
  then show ?case by (cases u) auto
qed simp

lemma str_less_linear: "s = t \<or> str_less s t \<or> str_less t s"
proof (induction s t rule: str_less.induct)
  case (1 t)
  show ?case by auto
next
  case (2 c s)
  show ?case by simp
next
  case (3 c s d t)
  show ?case
  proof (cases "c = d")
    case True
    with 3 show ?thesis by auto
  next
    case False
    then have "(of_char c :: nat) \<noteq> of_char d" by simp
    then consider "(of_char c :: nat) < of_char d" | "(of_char d :: nat) < of_char c"
      by (meson linorder_neqE_nat)
    then show ?thesis by cases auto
  qed
qed

interpretation int_keys: key_order "range PInt"
  by unfold_locales (auto simp: comparable_def)

interpretation str_keys: key_order "range PStr"
proof (unfold_locales, goal_cases)
  case (1 x y)
  then show ?case by (auto simp: comparable_def)
next
  case (2 x y)
  then show ?case by (auto dest: str_less_asym)
next
  case (3 x y z)
  then obtain a b c where "x = PStr a" and "y = PStr b" and "z = PStr c" by auto
  with 3 show ?case
    using str_less_linear [of a b] str_less_linear [of b c] str_less_trans [of c a b] by auto
qed

lemma mapM_keys:
  assumes "list_all (\<lambda>r. \<exists>x \<in> K. f r = Inr x) rows"
  shows "\<exists>ks. mapM f rows = Inr ks \<and> set ks \<subseteq> K"
  using assms by (induction rows) (auto simp: res_simps)

text \<open>
  (C14) Sorting by a key whose values are all integers or all strings: the result is the same
  rows (as a multiset), ordered by the key, descending when the key is given with a leading
  minus sign, and rows with equal keys keep their input order in both directions.
\<close>

theorem order_by_sorts:
  assumes rows: "list_all (\<lambda>r. \<exists>x \<in> K. row_item k r = Inr x) rows"
    and K: "K = range PInt \<or> K = range PStr"
    and k: "\<not> py_startswith k ''-''"
  shows "\<exists>ys. filter_list re_match rows None
                (Some [(''order_by'', PList [PStr (if desc then ''-'' @ k else k)])]) = Inr (PList ys) \<and>
           mset ys = mset rows \<and>
           sorted_wrt (\<lambda>a b. \<forall>x y. row_item k a = Inr x \<longrightarrow> row_item k b = Inr y \<longrightarrow>
              (if desc then \<not> key_less x y else \<not> key_less y x)) ys \<and>
           (\<forall>x. filter (\<lambda>r. row_item k r = Inr x) ys = filter (\<lambda>r. row_item k r = Inr x) rows)"
proof -
  obtain ks where ks: "mapM (row_item k) rows = Inr ks" and in_K: "set ks \<subseteq> K"
    using mapM_keys [OF rows] by blast
  have len: "length ks = length rows"
    using ks by (rule mapM_length)
  have key: "(x, r) \<in> set (zip ks rows) \<Longrightarrow> row_item k r = Inr x" for x r
    using mapM_Inr_nth [OF ks] len by (auto simp: set_zip)
  have zK: "fst ` set (zip ks rows) \<subseteq> K"
    using in_K by (auto dest: set_zip_leftD)
  obtain qs where qs: "py_sorted desc (zip ks rows) = Inr (map snd qs)"
    and mset_qs: "mset qs = mset (zip ks rows)"
    and sorted: "sorted_wrt (\<lambda>p q. if desc then \<not> key_less (fst p) (fst q)
                                          else \<not> key_less (fst q) (fst p)) qs"
    and stable: "\<And>x. filter (\<lambda>q. fst q = x) qs = filter (\<lambda>q. fst q = x) (zip ks rows)"
    using K zK int_keys.py_sorted_rows [of "zip ks rows" desc]
      str_keys.py_sorted_rows [of "zip ks rows" desc] by blast
  have set_qs: "set qs = set (zip ks rows)"
    using mset_qs by (metis set_mset_mset)
  have kq: "row_item k (snd q) = Inr (fst q)" if "q \<in> set qs" for q
    using that set_qs key [of "fst q" "snd q"] by simp
  have fl: "filter_list re_match rows None
      (Some [(''order_by'', PList [PStr (if desc then ''-'' @ k else k)])]) = Inr (PList (map snd qs))"
    using ks qs k
    by (cases desc) (simp_all add: filter_list_def dict_get_def finish_rows_def order_rows_def py_startswith_def)
  have "mset (map snd qs) = mset rows"
    using arg_cong [OF mset_qs, of "image_mset snd"] len by (simp flip: mset_map)
  moreover have "sorted_wrt (\<lambda>a b. \<forall>x y. row_item k a = Inr x \<longrightarrow> row_item k b = Inr y \<longrightarrow>
      (if desc then \<not> key_less x y else \<not> key_less y x)) (map snd qs)"
    unfolding sorted_wrt_map
    by (rule sorted_wrt_mono_rel [OF _ sorted]) (use kq in auto)
  moreover have "filter (\<lambda>r. row_item k r = Inr x) (map snd qs) = filter (\<lambda>r. row_item k r = Inr x) rows" for x
  proof -
    have "filter (\<lambda>r. row_item k r = Inr x) (map snd qs) = map snd (filter (\<lambda>q. fst q = x) qs)"
      unfolding filter_map o_def using kq by (intro arg_cong [of _ _ "map snd"] filter_cong) auto
    also have "\<dots> = map snd (filter (\<lambda>q. row_item k (snd q) = Inr x) (zip ks rows))"
      unfolding stable using key by (intro arg_cong [of _ _ "map snd"] filter_cong) auto
    also have "\<dots> = filter (\<lambda>r. row_item k r = Inr x) (map snd (zip ks rows))"
      unfolding filter_map o_def by simp
    finally show ?thesis using len by simp
  qed
  ultimately show ?thesis using fl by blast
qed

theorem order_by_sorts_witness:
  "\<exists>ys. filter_list (\<lambda>p s. Inr True) [PDict [(''id'', PInt 1)], PDict [(''id'', PInt 2)]] None
          (Some [(''order_by'', PList [PStr (if True then ''-'' @ ''id'' else ''id'')])]) = Inr (PList ys) \<and>
        mset ys = mset [PDict [(''id'', PInt 1)], PDict [(''id'', PInt 2)]]"
proof -
  have "list_all (\<lambda>r. \<exists>x \<in> range PInt. row_item ''id'' r = Inr x)
      [PDict [(''id'', PInt 1)], PDict [(''id'', PInt 2)]]"
    by (simp add: row_item_def dict_item_def)
  from order_by_sorts [OF this, where desc = True and re_match = "\<lambda>p s. Inr True"] show ?thesis
    by (auto simp: py_startswith_def)
qed

section \<open>Attributes of a filter\<close>


end
