(* ===== verification/Validators.thy ===== *)
theory Validators
  imports Errors
begin

text \<open>
  The validators of \<open>validators.py\<close>, called on values that \<open>clean\<close> has accepted, and the
  hostname, country and path checks of \<open>async_validators.py\<close>. A validator returns or raises
  \<open>ValueError\<close>; a value of the wrong type raises what the Python operation raises on it.

  Third-party and standard library functions that decide about text (regular expressions with a
  pattern that is an argument, \<open>ipaddress\<close>, \<open>uuid\<close>, \<open>urllib\<close>, the snapshot naming schema of
  \<open>zettarepl\<close>) and the middleware calls of \<open>IpInUse\<close> are the fields of the record \<open>vlib\<close>. The two
  regular expressions that the file itself writes down, for MAC addresses and host names, are
  modelled as matching functions.
\<close>

section \<open>The library\<close>

record vlib =
  lib_match :: "string \<Rightarrow> int \<Rightarrow> string \<Rightarrow> bool"
  lib_ip_address :: "pyval \<Rightarrow> bool"
  lib_ip_network :: "string \<Rightarrow> pyval \<Rightarrow> bool"
  lib_uuid :: "pyval \<Rightarrow> unit res"
  lib_urlparse :: "pyval \<Rightarrow> msg + string \<times> string"
  lib_naming_schema :: "pyval \<Rightarrow> unit res"
  lib_jail_query :: "(string \<times> string) list"
  lib_ip_in_use :: "string list"

datatype validator =
    Email bool
  | Exact pyval
  | IpAddress
  | Netmask bool bool bool
  | VTime
  | Match string int "string option"
  | NotMatch string int "string option"
  | Hostname "string option"
  | Or "validator list"
  | Range pyval pyval
  | Port
  | Unique
  | IpInUse "pyval list"
  | MACAddr "char option"
  | ReplicationSnapshotNamingSchema
  | UUID
  | PasswordComplexity "string list" "int option"
  | URL "string list"

section \<open>One definition per validator\<close>

text \<open>\<open>len(v)\<close> of a value.\<close>

fun py_len :: "pyval \<Rightarrow> nat res" where
  "py_len (PStr s) = Inr (length s)"
| "py_len (PList xs) = Inr (length xs)"
| "py_len (PTuple xs) = Inr (length xs)"
| "py_len (PDict d) = Inr (length d)"
| "py_len _ = Inl TypeError"

text \<open>\<open>s.rfind(c)\<close>, with \<open>None\<close> for -1.\<close>

definition py_rfind :: "char \<Rightarrow> string \<Rightarrow> nat option" where
  "py_rfind c s =
     (if c \<in> set s then Some (length s - 1 - length (takeWhile (\<lambda>x. x \<noteq> c) (rev s))) else None)"

definition Email_max_path :: nat where
  "Email_max_path = 254"

definition quoted_at :: string where
  "quoted_at = [CHR 0x27] @ ''@'' @ [CHR 0x27]"

definition Email_call :: "bool \<Rightarrow> pyval \<Rightarrow> unit res" where
  "Email_call allow_empty v =
     (if v = PNone \<or> (allow_empty \<and> \<not> truthy v) then Inr ()
      else rbind (py_len v) (\<lambda>n.
        if n > Email_max_path then Inl (ValueError [Txt ''Maximum length is {self.max_path} characters.''])
        else case v of
          PStr s \<Rightarrow>
            (case py_rfind (CHR ''@'') s of
               None \<Rightarrow> Inl (ValueError [Txt (''Missing '' @ quoted_at @ '' symbol.'')])
             | Some i \<Rightarrow>
                 if take i s = [] then
                   Inl (ValueError [Txt (''Missing local part of email string (part before the '' @ quoted_at @ '').'')])
                 else if drop i s = ''@'' then
                   Inl (ValueError [Txt (''Missing domain part of email string (part after the '' @ quoted_at @ '').'')])
                 else Inr ())
        | _ \<Rightarrow> Inl AttributeError))"

definition Exact_call :: "pyval \<Rightarrow> pyval \<Rightarrow> unit res" where
  "Exact_call x v =
     (if \<not> py_eq v x then Inl (ValueError [Txt ''Should be '', Rep x]) else Inr ())"

definition IpAddress_call :: "'z vlib_scheme \<Rightarrow> pyval \<Rightarrow> unit res" where
  "IpAddress_call L v =
     (if lib_ip_address L v then Inr () else Inl (ValueError [Txt ''Not a valid IP address'']))"

text \<open>\<open>v.isdigit()\<close> on a value.\<close>

definition val_isdigit :: "pyval \<Rightarrow> bool res" where
  "val_isdigit v = (case v of PStr s \<Rightarrow> Inr (py_isdigit s) | _ \<Rightarrow> Inl AttributeError)"

definition val_int :: "pyval \<Rightarrow> int res" where
  "val_int v = (case v of PStr s \<Rightarrow> py_int s | _ \<Rightarrow> Inl TypeError)"

definition Netmask_call :: "'z vlib_scheme \<Rightarrow> bool \<Rightarrow> bool \<Rightarrow> bool \<Rightarrow> pyval \<Rightarrow> unit res" where
  "Netmask_call L ipv4 ipv6 prefix_length v =
     rbind (if \<not> prefix_length then val_isdigit v else Inr False) (\<lambda>bad.
       if bad then Inl (ValueError [Txt ''Please specify expanded netmask i.e 255.255.255.128.''])
       else
         rbind (if ipv4 \<and> ipv6 then val_isdigit v else Inr False) (\<lambda>digits.
         rbind (if digits then rbind (val_int v) (\<lambda>n. Inr (if n > 32 then ''2001:db8::'' else ''1.1.1.1''))
                else if ipv6 \<and> \<not> ipv4 then Inr ''2001:db8::'' else Inr ''1.1.1.1'') (\<lambda>ip.
           if lib_ip_network L ip v then Inr () else Inl (ValueError [Txt ''Not a valid netmask'']))))"

text \<open>
  Splitting \<open>hours:minutes\<close> and \<open>datetime.time(int(hours), int(minutes))\<close>, which raises
  \<open>ValueError\<close> outside the ranges; shared with the schema attribute \<open>Time\<close>.
\<close>

definition time_format_error :: exn where
  "time_format_error = ValueError [Txt (''Time should be in 24 hour format like '' @ [CHR 0x22] @ ''18:00'' @ [CHR 0x22])]"

definition make_time :: "int \<Rightarrow> int \<Rightarrow> pyval res" where
  "make_time h m =
     (if \<not> (0 \<le> h \<and> h \<le> 23) then Inl (ValueError [Txt ''hour must be in 0..23''])
      else if \<not> (0 \<le> m \<and> m \<le> 59) then Inl (ValueError [Txt ''minute must be in 0..59''])
      else Inr (PTime h m))"

definition parse_time :: "pyval \<Rightarrow> pyval res" where
  "parse_time v =
     (case v of
        PStr s \<Rightarrow>
          (case split_on (CHR '':'') s of
             [hours, minutes] \<Rightarrow> rbind (py_int hours) (\<lambda>h. rbind (py_int minutes) (make_time h))
           | _ \<Rightarrow> Inl time_format_error)
      | _ \<Rightarrow> Inl AttributeError)"

definition Time_call :: "pyval \<Rightarrow> unit res" where
  "Time_call v = rbind (parse_time v) (\<lambda>_. Inr ())"

text \<open>\<open>self.explanation or default\<close>.\<close>

definition explain :: "string option \<Rightarrow> msg \<Rightarrow> msg" where
  "explain e m = (case e of None \<Rightarrow> m | Some s \<Rightarrow> if s = [] then m else [Txt s])"

text \<open>\<open>regex.match(v)\<close> raises \<open>TypeError\<close> on what is not a string.\<close>

definition val_match :: "(string \<Rightarrow> bool) \<Rightarrow> pyval \<Rightarrow> bool res" where
  "val_match r v = (case v of PStr s \<Rightarrow> Inr (r s) | _ \<Rightarrow> Inl TypeError)"

definition Match_call :: "(string \<Rightarrow> bool) \<Rightarrow> string \<Rightarrow> string option \<Rightarrow> pyval \<Rightarrow> unit res" where
  "Match_call r pat expl v =
     (if v = PNone then Inr ()
      else rbind (val_match r v) (\<lambda>b.
        if \<not> b then Inl (ValueError (explain expl [Txt ''Does not match '', Txt pat])) else Inr ()))"

definition NotMatch_call :: "(string \<Rightarrow> bool) \<Rightarrow> string \<Rightarrow> string option \<Rightarrow> pyval \<Rightarrow> unit res" where
  "NotMatch_call r pat expl v =
     (if v = PNone then Inr ()
      else rbind (val_match r v) (\<lambda>b.
        if b then Inl (ValueError (explain expl [Txt ''Value matches '', Rep (PStr pat), Txt '' pattern'']))
        else Inr ()))"

text \<open>
  The pattern of \<open>Hostname\<close>, letters of either case, digits, dots and dashes with a letter or digit
  last. \<open>$\<close> also matches before a final newline.
\<close>

definition drop_newline :: "string \<Rightarrow> string" where
  "drop_newline s = (if s \<noteq> [] \<and> last s = CHR 0x0A then butlast s else s)"

definition is_alpha :: "char \<Rightarrow> bool" where
  "is_alpha c \<longleftrightarrow> c \<in> set ''abcdefghijklmnopqrstuvwxyzABCDEFGHIJKLMNOPQRSTUVWXYZ''"

definition hostname_pattern :: string where
  "hostname_pattern = ''^[a-z'' @ [CHR 0x5C] @ ''.'' @ [CHR 0x5C] @ ''-0-9]*[a-z0-9]$''"

definition hostname_match :: "string \<Rightarrow> bool" where
  "hostname_match s =
     (let t = drop_newline s
      in t \<noteq> [] \<and> (is_alpha (last t) \<or> is_digit (last t)) \<and>
         list_all (\<lambda>c. is_alpha c \<or> is_digit c \<or> c = CHR ''.'' \<or> c = CHR ''-'') t)"

text \<open>\<open>self.min is not None and value < self.min\<close> and the like for \<open>Range\<close>.\<close>

definition Range_error :: "pyval \<Rightarrow> pyval \<Rightarrow> msg" where
  "Range_error mn mx =
     (if mn \<noteq> PNone \<and> mx \<noteq> PNone then [Txt ''between '', Val mn, Txt '' and '', Val mx]
      else if mx \<noteq> PNone then [Txt ''less or equal than '', Val mx]
      else if mn \<noteq> PNone then [Txt ''greater or equal than '', Val mn]
      else [Txt ''''])"

definition Range_call :: "pyval \<Rightarrow> pyval \<Rightarrow> pyval \<Rightarrow> unit res" where
  "Range_call mn mx v0 =
     (if v0 = PNone then Inr ()
      else
        let v = (case v0 of PStr s \<Rightarrow> PInt (int (length s)) | _ \<Rightarrow> v0);
            err = Inl (ValueError (Txt ''Should be '' # Range_error mn mx))
        in rbind (if mn \<noteq> PNone then py_lt v mn else Inr False) (\<lambda>low.
             if low then err
             else rbind (if mx \<noteq> PNone then py_gt v mx else Inr False) (\<lambda>high.
               if high then err else Inr ())))"

text \<open>\<open>value.count(item)\<close> for an item of the value, and the loop of \<open>Unique\<close>.\<close>

fun val_count :: "pyval \<Rightarrow> pyval \<Rightarrow> nat res" where
  "val_count (PList ys) x = Inr (length (filter (py_eq x) ys))"
| "val_count (PTuple ys) x = Inr (length (filter (py_eq x) ys))"
| "val_count (PStr s) x = Inr (length (filter (\<lambda>c. x = PStr [c]) s))"
| "val_count _ x = Inl AttributeError"

fun unique_loop :: "pyval \<Rightarrow> pyval list \<Rightarrow> unit res" where
  "unique_loop v [] = Inr ()"
| "unique_loop v (x # xs) =
     rbind (val_count v x) (\<lambda>n.
       if n > 1 then Inl (ValueError [Txt ''Duplicate values are not allowed: '', Rep x])
       else unique_loop v xs)"

definition Unique_call :: "pyval \<Rightarrow> unit res" where
  "Unique_call v = rbind (py_iter v) (unique_loop v)"

text \<open>
  The addresses \<open>IpInUse\<close> compares with: those of the jails (\<open>iface|address/prefix\<close>, comma
  separated) and those of the interfaces.
\<close>

definition jail_address :: "string \<Rightarrow> string" where
  "jail_address v =
     (if CHR ''|'' \<in> set v then hd (split_on (CHR ''/'') (split_on (CHR ''|'') v ! 1)) else ''none'')"

definition used_addresses :: "'z vlib_scheme \<Rightarrow> string list" where
  "used_addresses L =
     concat (map (\<lambda>(ip4, ip6). concat (map (\<lambda>j_ip. map jail_address (split_on (CHR '','') j_ip)) [ip4, ip6]))
       (lib_jail_query L)) @ lib_ip_in_use L"

definition IpInUse_call :: "'z vlib_scheme \<Rightarrow> pyval list \<Rightarrow> pyval \<Rightarrow> unit res" where
  "IpInUse_call L exclude ip =
     rbind (IpAddress_call L ip) (\<lambda>_.
       if list_ex (py_eq ip) exclude then Inr ()
       else if list_ex (\<lambda>u. py_eq ip (PStr u)) (used_addresses L)
       then Inl (ValueError [Val ip, Txt '' is already being used by the system. Please select another IP''])
       else Inr ())"

text \<open>
  \<open>RE_MAC_ADDRESS\<close>: five pairs of hexadecimal digits, each with an optional separator, and a sixth
  pair. A separator is no hexadecimal digit, so the greedy choice is the only one.
\<close>

definition is_hex :: "char \<Rightarrow> bool" where
  "is_hex c \<longleftrightarrow> c \<in> set ''0123456789abcdefABCDEF''"

definition mac_separators :: string where
  "mac_separators = '':-''"

fun mac_pairs :: "nat \<Rightarrow> string \<Rightarrow> bool" where
  "mac_pairs 0 s = (case s of [a, b] \<Rightarrow> is_hex a \<and> is_hex b
                             | [a, b, n] \<Rightarrow> is_hex a \<and> is_hex b \<and> n = CHR 0x0A | _ \<Rightarrow> False)"
| "mac_pairs (Suc k) (a # b # s) =
     (is_hex a \<and> is_hex b \<and>
      (case s of c # r \<Rightarrow> if c \<in> set mac_separators then mac_pairs k r else mac_pairs k s
               | [] \<Rightarrow> False))"
| "mac_pairs (Suc k) _ = False"

definition re_mac_address :: "string \<Rightarrow> bool" where
  "re_mac_address s = mac_pairs 5 s"

definition other_separator :: "char \<Rightarrow> char" where
  "other_separator c = (if c = CHR '':'' then CHR ''-'' else CHR '':'')"

definition MACAddr_call :: "char option \<Rightarrow> pyval \<Rightarrow> unit res" where
  "MACAddr_call separator v =
     (case v of
        PStr s \<Rightarrow>
          (if \<not> re_mac_address (py_lower s) \<or>
              (case separator of None \<Rightarrow> False
               | Some sep \<Rightarrow> sep \<notin> set s \<or> other_separator sep \<in> set (py_lower s))
           then Inl (ValueError [Txt ''Please provide a valid MAC address''])
           else Inr ())
      | _ \<Rightarrow> Inl AttributeError)"

definition UUID_call :: "'z vlib_scheme \<Rightarrow> pyval \<Rightarrow> unit res" where
  "UUID_call L v =
     (case lib_uuid L v of
        Inl (ValueError m) \<Rightarrow> Inl (ValueError (Txt ''Invalid UUID: '' # m))
      | r \<Rightarrow> r)"

text \<open>
  \<open>any(c in chars for c in value)\<close>: the items of the value are tested in turn, a non-string item
  raises \<open>TypeError\<close>.
\<close>

fun any_in :: "string \<Rightarrow> pyval list \<Rightarrow> bool res" where
  "any_in chars [] = Inr False"
| "any_in chars (c # cs) = rbind (py_in c (PStr chars)) (\<lambda>b. if b then Inr True else any_in chars cs)"

definition ascii_lowercase :: string where
  "ascii_lowercase = ''abcdefghijklmnopqrstuvwxyz''"

definition ascii_uppercase :: string where
  "ascii_uppercase = ''ABCDEFGHIJKLMNOPQRSTUVWXYZ''"

definition punctuation :: string where
  "punctuation = ''!'' @ [CHR 0x22] @ ''#$%&'' @ [CHR 0x27] @ ''()*+,-./:;<=>?@['' @ [CHR 0x5C] @ '']^_'' @ [CHR 0x60] @ ''{|}~''"

text \<open>
  The four blocks of \<open>PasswordComplexity\<close>: the type, its characters, the name in the summary and
  the sentence. Each block adds its name, counts a success, or adds its sentence when no count is
  required.
\<close>

definition password_categories :: "(string \<times> string \<times> string \<times> string) list" where
  "password_categories =
     [(''ASCII_LOWER'', ascii_lowercase, ''lowercase character'', ''Must contain at least one lowercase character. ''),
      (''ASCII_UPPER'', ascii_uppercase, ''uppercase character'', ''Must contain at least one uppercase character. ''),
      (''DIGIT'', char_digits, ''digits 0-9'', ''Must contain at least one numeric digit (0-9). ''),
      (''SPECIAL'', punctuation, ''special characters (!, $, #, %, etc.)'',
         ''Must contain at least one special character (!, $, #, %, etc.). '')]"

fun password_loop ::
    "string list \<Rightarrow> int option \<Rightarrow> pyval \<Rightarrow> (string \<times> string \<times> string \<times> string) list \<Rightarrow>
     int \<times> string list \<times> string \<Rightarrow> (int \<times> string list \<times> string) res" where
  "password_loop types required_cnt v [] acc = Inr acc"
| "password_loop types required_cnt v ((t, chars, req, sentence) # cats) (cnt, reqs, errstr) =
     (if t \<in> set types then
        rbind (rbind (py_iter v) (any_in chars)) (\<lambda>found.
          password_loop types required_cnt v cats
            (if found then (cnt + 1, reqs @ [req], errstr)
             else (cnt, reqs @ [req], if required_cnt = None then errstr @ sentence else errstr)))
      else password_loop types required_cnt v cats (cnt, reqs, errstr))"

definition PasswordComplexity_call :: "string list \<Rightarrow> int option \<Rightarrow> pyval \<Rightarrow> unit res" where
  "PasswordComplexity_call types required_cnt v =
     rbind (if truthy v \<and> types \<noteq> []
            then password_loop types required_cnt v password_categories (0, [], [])
            else Inr (0, [], [])) (\<lambda>(cnt, reqs, errstr).
       case required_cnt of
         Some n \<Rightarrow>
           (if n \<noteq> 0 \<and> n > cnt then
              Inl (ValueError [Txt ''Must contain at least '', Txt (str_of_int n),
                Txt '' of the following categories: '', Txt (py_join '', '' reqs)])
            else if errstr \<noteq> [] then Inl (ValueError [Txt errstr]) else Inr ())
       | None \<Rightarrow> if errstr \<noteq> [] then Inl (ValueError [Txt errstr]) else Inr ())"

definition URL_call :: "'z vlib_scheme \<Rightarrow> string list \<Rightarrow> pyval \<Rightarrow> unit res" where
  "URL_call L schemes v =
     (case lib_urlparse L v of
        Inl m \<Rightarrow> Inl (ValueError (Txt ''Invalid URL: '' # m))
      | Inr (scheme, netloc) \<Rightarrow>
          if scheme = [] then Inl (ValueError [Txt ''Invalid URL: no scheme specified''])
          else if schemes \<noteq> [] \<and> scheme \<notin> set schemes then
            Inl (ValueError [Txt ''Invalid URL: invalid scheme: '', Txt scheme])
          else if netloc = [] then Inl (ValueError [Txt ''Invalid URL: no netloc specified''])
          else Inr ())"

text \<open>\<open>" or ".join(errors)\<close> on messages.\<close>

fun join_msgs :: "msg list \<Rightarrow> msg" where
  "join_msgs [] = []"
| "join_msgs [m] = m"
| "join_msgs (m # m' # ms) = m @ [Txt '' or ''] @ join_msgs (m' # ms)"

text \<open>Calling a validator object; \<open>call_or\<close> is the loop of \<open>Or.__call__\<close>.\<close>

fun call_validator :: "'z vlib_scheme \<Rightarrow> validator \<Rightarrow> pyval \<Rightarrow> unit res"
  and call_or :: "'z vlib_scheme \<Rightarrow> validator list \<Rightarrow> msg list \<Rightarrow> pyval \<Rightarrow> unit res" where
  "call_validator L (Email allow_empty) v = Email_call allow_empty v"
| "call_validator L (Exact x) v = Exact_call x v"
| "call_validator L IpAddress v = IpAddress_call L v"
| "call_validator L (Netmask a b c) v = Netmask_call L a b c v"
| "call_validator L VTime v = Time_call v"
| "call_validator L (Match pat flags expl) v = Match_call (lib_match L pat flags) pat expl v"
| "call_validator L (NotMatch pat flags expl) v = NotMatch_call (lib_match L pat flags) pat expl v"
| "call_validator L (Hostname expl) v = Match_call hostname_match hostname_pattern expl v"
| "call_validator L (Or vs) v = call_or L vs [] v"
| "call_validator L (Range mn mx) v = Range_call mn mx v"
| "call_validator L Port v = Range_call (PInt 1) (PInt 65535) v"
| "call_validator L Unique v = Unique_call v"
| "call_validator L (IpInUse exclude) v = IpInUse_call L exclude v"
| "call_validator L (MACAddr sep) v = MACAddr_call sep v"
| "call_validator L ReplicationSnapshotNamingSchema v = lib_naming_schema L v"
| "call_validator L UUID v = UUID_call L v"
| "call_validator L (PasswordComplexity types cnt) v = PasswordComplexity_call types cnt v"
| "call_validator L (URL schemes) v = URL_call L schemes v"
| "call_or L [] errors v = Inl (ValueError (join_msgs errors))"
| "call_or L (x # xs) errors v =
     (case call_validator L x v of
        Inl (ValueError m) \<Rightarrow> call_or L xs (errors @ [m]) v
      | Inl e \<Rightarrow> Inl e
      | Inr _ \<Rightarrow> Inr ())"

section \<open>Asynchronous checks\<close>

text \<open>
  \<open>async_validators.py\<close>. \<open>gethostbyname\<close> is the resolver (\<open>None\<close> when it raises), \<open>in_time\<close>
  whether the thread answered within five seconds, \<open>countries\<close> what
  \<open>system.general.country_choices\<close> returns; \<open>realpath\<close> and \<open>commonpath\<close> stand for \<open>os.path\<close>.
\<close>

definition resolve_hostname ::
    "'z vlib_scheme \<Rightarrow> (string \<Rightarrow> string option) \<Rightarrow> bool \<Rightarrow> verrors \<Rightarrow> string \<Rightarrow> string \<Rightarrow> verrors" where
  "resolve_hostname L gethostbyname in_time verrors nm hostname =
     (let result = (if \<not> in_time then None
                    else case IpAddress_call L (PStr hostname) of
                           Inr _ \<Rightarrow> Some hostname
                         | Inl _ \<Rightarrow> gethostbyname hostname)
      in case result of
           Some r \<Rightarrow> if r \<noteq> [] then verrors
                     else ve_add verrors nm [Txt (''Couldn'' @ [CHR 0x27] @ ''t resolve hostname'')] EINVAL
         | None \<Rightarrow> ve_add verrors nm [Txt (''Couldn'' @ [CHR 0x27] @ ''t resolve hostname'')] EINVAL)"

definition validate_country :: "string list \<Rightarrow> string \<Rightarrow> verrors \<Rightarrow> string \<Rightarrow> verrors" where
  "validate_country countries country_name verrors v_field_name =
     (if country_name \<notin> set countries
      then ve_add verrors v_field_name
             [Txt country_name, Txt '' not in countries recognized by the system''] EINVAL
      else verrors)"

text \<open>\<open>os.path.join(a, b)\<close> for an \<open>a\<close> without a slash at its end.\<close>

definition path_join :: "string \<Rightarrow> string \<Rightarrow> string" where
  "path_join a b = (if py_startswith b ''/'' then b else a @ ''/'' @ b)"

definition check_path_resides_within_volume ::
    "(string \<Rightarrow> string) \<Rightarrow> (string list \<Rightarrow> string) \<Rightarrow> string list \<Rightarrow> verrors \<Rightarrow> string \<Rightarrow> string \<Rightarrow> verrors" where
  "check_path_resides_within_volume realpath commonpath vol_names verrors nm path =
     (let rp = realpath path; vol_paths = map (path_join ''/mnt'') vol_names
      in if \<not> py_startswith path ''/mnt/'' \<or>
            \<not> list_ex (\<lambda>parent. commonpath [parent] = commonpath [parent, rp]) vol_paths
         then ve_add verrors nm [Txt ''The path must reside within a volume mount point''] EINVAL
         else verrors)"

section \<open>What the validators accept\<close>

lemma sublist_singleton: "sublist [c] s = (c \<in> set s)"
  by (auto simp: sublist_def in_set_conv_decomp)

lemma any_in_string: "any_in chars (map (\<lambda>c. PStr [c]) s) = Inr (\<exists>c \<in> set s. c \<in> set chars)"
  by (induction s) (simp_all add: sublist_singleton)

text \<open>The requested categories of which the text has a character.\<close>

definition satisfied :: "string list \<Rightarrow> string \<Rightarrow> string \<times> string \<times> string \<times> string \<Rightarrow> bool" where
  "satisfied types s = (\<lambda>(t, chars, _). t \<in> set types \<and> (\<exists>c \<in> set s. c \<in> set chars))"

definition requested :: "string list \<Rightarrow> string \<times> string \<times> string \<times> string \<Rightarrow> bool" where
  "requested types = (\<lambda>(t, _). t \<in> set types)"

lemma password_loop_string:
  "password_loop types required_cnt (PStr s) cats (cnt, reqs, errstr) =
     Inr (cnt + int (length (filter (satisfied types s) cats)),
          reqs @ map (\<lambda>(t, chars, req, sentence). req) (filter (requested types) cats),
          errstr @ (if required_cnt = None
                    then concat (map (\<lambda>(t, chars, req, sentence). sentence)
                           (filter (\<lambda>c. requested types c \<and> \<not> satisfied types s c) cats))
                    else []))"
proof (induction cats arbitrary: cnt reqs errstr)
  case (Cons cat cats)
  obtain t chars req sentence where "cat = (t, chars, req, sentence)" by (metis prod_cases4)
  with Cons show ?case
    by (auto simp: satisfied_def requested_def any_in_string)
qed simp

lemma category_sentence:
  "c \<in> set password_categories \<Longrightarrow> (case c of (t, chars, req, sentence) \<Rightarrow> sentence \<noteq> [])"
  by (auto simp: password_categories_def)

text \<open>
  (C20) Password complexity. Without a required count, a text is accepted iff it is empty or has a
  character of every requested category; with a required count \<open>n > 0\<close>, iff it satisfies at least
  \<open>n\<close> of the requested categories, so that the empty text is always rejected.
\<close>

theorem password_complexity:
  "(PasswordComplexity_call types None (PStr s) = Inr ()) =
     (s = [] \<or> list_all (\<lambda>c. requested types c \<longrightarrow> satisfied types s c) password_categories) \<and>
   (0 < n \<longrightarrow> (PasswordComplexity_call types (Some n) (PStr s) = Inr ()) =
     (s \<noteq> [] \<and> n \<le> int (length (filter (satisfied types s) password_categories))))"
proof -
  have none: "filter (satisfied [] s) cats = []" for s cats
    by (induction cats) (auto simp: satisfied_def)
  have "concat (map (\<lambda>(t, chars, req, sentence). sentence)
          (filter (\<lambda>c. requested types c \<and> \<not> satisfied types s c) password_categories)) = []
        \<longleftrightarrow> list_all (\<lambda>c. requested types c \<longrightarrow> satisfied types s c) password_categories"
    using category_sentence by (fastforce simp: list_all_iff)
  then show ?thesis
    by (auto simp: PasswordComplexity_call_def password_loop_string none requested_def list_all_iff)
qed

theorem password_complexity_witness:
  "PasswordComplexity_call [''DIGIT'', ''ASCII_LOWER''] (Some 2) (PStr ''a1'') = Inr ()"
  using password_complexity [of "[''DIGIT'', ''ASCII_LOWER'']" "''a1''" 2]
  by (simp add: satisfied_def password_categories_def ascii_lowercase_def)

lemma py_rfind_last:
  "c \<notin> set r \<Longrightarrow> py_rfind c (l @ c # r) = Some (length l)"
proof -
  assume "c \<notin> set r"
  then have "takeWhile (\<lambda>x. x \<noteq> c) (rev r @ c # rev l) = rev r"
    by (subst takeWhile_append2) auto
  then show ?thesis by (simp add: py_rfind_def)
qed

text \<open>
  (C21) \<open>Email\<close> accepts a non-empty text iff it has at most 254 characters and its last at sign has
  something before and something after it.
\<close>

theorem email_accepts:
  "(Email_call allow_empty (PStr s) = Inr ()) =
     ((allow_empty \<and> s = []) \<or>
      (length s \<le> 254 \<and> (\<exists>l r. s = l @ ''@'' @ r \<and> CHR ''@'' \<notin> set r \<and> l \<noteq> [] \<and> r \<noteq> [])))"
proof (cases "CHR ''@'' \<in> set s")
  case True
  then obtain l r where s: "s = l @ CHR ''@'' # r" and r: "CHR ''@'' \<notin> set r"
    by (meson split_list_last)
  have uniq: "l' = l \<and> r' = r" if "s = l' @ CHR ''@'' # r'" and "CHR ''@'' \<notin> set r'" for l' r'
  proof -
    have eq: "l' @ CHR ''@'' # r' = l @ CHR ''@'' # r"
      by (rule trans [OF that(1) [symmetric] s])
    then have "length l' = length l"
      using py_rfind_last [OF that(2), of l'] py_rfind_last [OF r, of l]
      by (metis option.inject)
    with eq show ?thesis by simp
  qed
  have "(Email_call allow_empty (PStr s) = Inr ()) = (length s \<le> 254 \<and> l \<noteq> [] \<and> r \<noteq> [])"
    using s py_rfind_last [OF r, of l] by (auto simp: Email_call_def Email_max_path_def)
  moreover have "(\<exists>l r. s = l @ ''@'' @ r \<and> CHR ''@'' \<notin> set r \<and> l \<noteq> [] \<and> r \<noteq> []) = (l \<noteq> [] \<and> r \<noteq> [])"
    using s r uniq by (metis append_Cons append_Nil)
  moreover have "s \<noteq> []" using True by auto
  ultimately show ?thesis by blast
next
  case False
  then show ?thesis
    by (auto simp: Email_call_def Email_max_path_def py_rfind_def)
qed

end
