(* ===== verification/Schema.thy ===== *)
theory Schema
  imports Validators Query
begin

text \<open>
  The attribute classes of \<open>schema.py\<close>: what \<open>clean\<close> accepts and returns, what \<open>validate\<close> reports,
  what \<open>dump\<close> shows of a value, and \<open>to_json_schema\<close>.

  \<^item> An attribute object is a value of the datatype \<open>attr\<close>, one constructor per class (the
    subclasses of \<open>Str\<close> are the kinds \<open>str_kind\<close>, \<open>Cron\<close> is a kind of \<open>Dict\<close>), with the fields that
    \<open>Attribute.__init__\<close> sets in the record \<open>attr_info\<close>. \<open>ARef\<close> and \<open>APatch\<close> are the placeholders
    that \<open>resolve\<close> replaces; they have none of the methods.
  \<^item> \<open>clean\<close> takes \<open>None\<close> for \<open>NOT_PROVIDED\<close>. It works on the argument in place, and a list tries its
    item types one after the other on the same object, so an exception comes with the argument as
    it is at that moment.
  \<^item> \<open>slib\<close> adds to the validators' library what the attribute classes call: \<open>float\<close>, the \<open>ipaddress\<close>
    factories, the file system, \<open>croniter\<close> and \<open>str\<close> of values other than text and numbers.
\<close>

section \<open>Attributes\<close>

record attr_info =
  at_name :: string
  at_has_default :: bool
  at_default :: pyval
  at_required :: bool
  at_null :: bool
  at_empty :: bool
  at_private :: bool
  at_title :: string
  at_description :: "string option"
  at_validators :: "validator list"
  at_register :: bool
  at_hidden :: bool

text \<open>\<open>Attribute.__init__(name)\<close> without keyword arguments.\<close>

definition Attribute_defaults :: "string \<Rightarrow> attr_info" where
  "Attribute_defaults nm =
     \<lparr>at_name = nm, at_has_default = False, at_default = PNone, at_required = False, at_null = False,
      at_empty = True, at_private = False, at_title = nm, at_description = None, at_validators = [],
      at_register = False, at_hidden = False\<rparr>"

record ip_options =
  ip_cidr :: bool
  ip_network :: bool
  ip_network_strict :: bool
  ip_v4 :: bool
  ip_v6 :: bool
  ip_allow_zone_index :: bool

datatype str_kind = KStr | KPath | KPassword | KDir | KFile | KIPAddr ip_options | KTime | KUnixPerm

datatype dict_kind = KDict | KCron bool

datatype attr =
    AAny attr_info
  | AStr str_kind attr_info "pyval list option" nat
  | ABool attr_info
  | AInt attr_info "pyval list option"
  | AFloat attr_info "pyval list option"
  | AList attr_info "pyval list option" "attr list" bool
  | ADict dict_kind attr_info bool bool "(string \<times> attr) list"
  | ARef string
  | APatch string string "patch list" bool
  and patch =
    AddSpec pydict
  | AddAttr attr
  | RmAttr string
  | EditAttr string "string option"
  | SetAttrs pydict

text \<open>
  \<open>ADict k i additional_attrs update attrs\<close>; the flag \<open>strict\<close> is used at construction only.
  The factory an \<open>IPAddr\<close> calls is chosen from its flags; the library gives what \<open>str\<close> of the parsed
  object is and whether it is an IPv6 address, or the message of the \<open>ValueError\<close>.
\<close>

datatype ip_family = AnyIP | OnlyV4 | OnlyV6
datatype ip_shape = NetworkShape bool | InterfaceShape | AddressShape

datatype path_kind = Missing | Directory | RegularFile | OtherFile

record slib = vlib +
  lib_float :: "pyval \<Rightarrow> rat option"
  lib_ip :: "ip_family \<Rightarrow> ip_shape \<Rightarrow> string \<Rightarrow> msg + string \<times> bool"
  lib_path :: "pyval \<Rightarrow> path_kind res"
  lib_croniter :: "string \<Rightarrow> msg + (nat \<Rightarrow> pyval)"
  lib_str :: "pyval \<Rightarrow> string"

definition Error :: "string \<Rightarrow> msg \<Rightarrow> exn" where
  "Error a m = SchemaError a m EINVAL"

definition Error_str :: "string \<Rightarrow> msg \<Rightarrow> msg" where
  "Error_str a m = [Txt ''['', Txt a, Txt ''] ''] @ m"

section \<open>Cleaning scalar values\<close>

definition Attribute_clean :: "attr_info \<Rightarrow> pyval option \<Rightarrow> pyval res" where
  "Attribute_clean i v =
     (if v = Some PNone \<and> \<not> at_null i then Inl (Error (at_name i) [Txt ''null not allowed''])
      else case v of
             None \<Rightarrow> if at_has_default i then Inr (at_default i)
                     else Inl (Error (at_name i) [Txt ''attribute required''])
           | Some x \<Rightarrow> Inr x)"

definition EnumMixin_clean :: "attr_info \<Rightarrow> pyval list option \<Rightarrow> pyval option \<Rightarrow> pyval res" where
  "EnumMixin_clean i enum v =
     rbind (Attribute_clean i v) (\<lambda>x.
       case enum of
         None \<Rightarrow> Inr x
       | Some es \<Rightarrow>
           if x = PNone \<and> at_null i then Inr x
           else
             let tmp = (case x of PList xs \<Rightarrow> xs | PTuple xs \<Rightarrow> xs | _ \<Rightarrow> [x])
             in if list_all (\<lambda>y. list_ex (py_eq y) es) tmp then Inr x
                else Inl (Error (at_name i) [Txt ''Invalid choice: '', Val x]))"

definition Str_clean :: "attr_info \<Rightarrow> pyval list option \<Rightarrow> pyval option \<Rightarrow> pyval res" where
  "Str_clean i enum v =
     rbind (EnumMixin_clean i enum v) (\<lambda>x.
       if x = PNone then Inr x
       else
         case (case x of PInt n \<Rightarrow> PStr (str_of_int n) | _ \<Rightarrow> x) of
           PStr s \<Rightarrow> if \<not> at_empty i \<and> s = [] then Inl (Error (at_name i) [Txt ''Empty value not allowed''])
                     else Inr (PStr s)
         | _ \<Rightarrow> Inl (Error (at_name i) [Txt ''Not a string'']))"

text \<open>
  \<open>os.path.normpath\<close>: empty components and dots go, a double dot takes the component before it
  away unless there is none to take; one or two leading slashes stay.
\<close>

fun norm_comps :: "bool \<Rightarrow> string list \<Rightarrow> string list \<Rightarrow> string list" where
  "norm_comps rooted [] new_comps = rev new_comps"
| "norm_comps rooted (c # cs) new_comps =
     (if c = [] \<or> c = ''.'' then norm_comps rooted cs new_comps
      else if c \<noteq> ''..'' \<or> (\<not> rooted \<and> new_comps = []) \<or> (new_comps \<noteq> [] \<and> hd new_comps = ''..'')
      then norm_comps rooted cs (c # new_comps)
      else norm_comps rooted cs (tl new_comps))"

definition normpath :: "string \<Rightarrow> string" where
  "normpath path =
     (if path = [] then ''.''
      else
        let rooted = py_startswith path ''/'';
            slashes = (if rooted \<and> py_startswith path ''//'' \<and> \<not> py_startswith path ''///'' then ''//''
                       else if rooted then ''/'' else [])
        in let p = slashes @ py_join ''/'' (norm_comps rooted (split_on (CHR ''/'') path) [])
           in if p = [] then ''.'' else p)"

definition Path_normalise :: "string \<Rightarrow> string" where
  "Path_normalise s = normpath (py_strip (py_strip_chars ''/'' (py_strip s)))"

text \<open>The choice of the factory in \<open>IPAddr.__init__\<close>, and \<open>IPAddr.clean\<close> on a non-empty text.\<close>

definition ip_factory :: "ip_options \<Rightarrow> (ip_family \<times> ip_shape) res" where
  "ip_factory opts =
     (let shape = (if ip_network opts then NetworkShape (ip_network_strict opts)
                   else if ip_cidr opts then InterfaceShape else AddressShape)
      in if ip_v4 opts \<and> ip_v6 opts then Inr (AnyIP, shape)
         else if ip_v4 opts then Inr (OnlyV4, shape)
         else if ip_v6 opts then Inr (OnlyV6, shape)
         else Inl (ValueError [Txt ''Either IPv4 or IPv6 should be allowed'']))"

definition IPAddr_text :: "'z slib_scheme \<Rightarrow> ip_options \<Rightarrow> ip_family \<times> ip_shape \<Rightarrow> string \<Rightarrow> msg + string" where
  "IPAddr_text L opts factory s =
     (if ip_network opts then
        (case lib_ip L (fst factory) (snd factory) s of Inl m \<Rightarrow> Inl m | Inr (t, v6) \<Rightarrow> Inr t)
      else if ip_cidr opts \<and> CHR ''/'' \<notin> set s then
        Inl [Txt ''Specified address should be in CIDR notation, e.g. 192.168.0.2/24'']
      else
        let (addr, zone_index) =
              (if ip_allow_zone_index opts \<and> CHR ''%'' \<in> set s
               then (case rsplit1 (CHR ''%'') s of [a, z] \<Rightarrow> (a, Some z) | _ \<Rightarrow> (s, None))
               else (s, None))
        in case lib_ip L (fst factory) (snd factory) addr of
             Inl m \<Rightarrow> Inl m
           | Inr (t, v6) \<Rightarrow>
               (case zone_index of
                  None \<Rightarrow> Inr t
                | Some z \<Rightarrow> if \<not> v6 then Inl [Txt ''Zone index is allowed only for IPv6 addresses'']
                            else Inr (t @ ''%'' @ z)))"

definition IPAddr_finish :: "'z slib_scheme \<Rightarrow> attr_info \<Rightarrow> ip_options \<Rightarrow> string \<Rightarrow> pyval res" where
  "IPAddr_finish L i opts s =
     (if s = [] then Inr (PStr s)
      else rbind (ip_factory opts) (\<lambda>factory.
        case IPAddr_text L opts factory s of
          Inl m \<Rightarrow> Inl (Error (at_name i) m)
        | Inr t \<Rightarrow> Inr (PStr t)))"

text \<open>\<open>clean\<close> of \<open>Str\<close> and its subclasses.\<close>

definition AStr_clean ::
    "'z slib_scheme \<Rightarrow> str_kind \<Rightarrow> attr_info \<Rightarrow> pyval list option \<Rightarrow> pyval option \<Rightarrow> pyval res" where
  "AStr_clean L kind i enum v =
     rbind (Str_clean i enum v) (\<lambda>x.
       case x of
         PStr s \<Rightarrow>
           (case kind of
              KPath \<Rightarrow> Inr (PStr (Path_normalise s))
            | KIPAddr opts \<Rightarrow> IPAddr_finish L i opts s
            | KTime \<Rightarrow> parse_time x
            | _ \<Rightarrow> Inr x)
       | _ \<Rightarrow> Inr x)"

definition Bool_clean :: "attr_info \<Rightarrow> pyval option \<Rightarrow> pyval res" where
  "Bool_clean i v =
     rbind (Attribute_clean i v) (\<lambda>x.
       case x of PNone \<Rightarrow> Inr x | PBool b \<Rightarrow> Inr x
       | _ \<Rightarrow> Inl (Error (at_name i) [Txt ''Not a boolean'']))"

definition Int_clean :: "attr_info \<Rightarrow> pyval list option \<Rightarrow> pyval option \<Rightarrow> pyval res" where
  "Int_clean i enum v =
     rbind (EnumMixin_clean i enum v) (\<lambda>x.
       case x of
         PNone \<Rightarrow> Inr x
       | PInt n \<Rightarrow> Inr x
       | PStr s \<Rightarrow> if py_isdigit s then rbind (py_int s) (\<lambda>n. Inr (PInt n))
                   else Inl (Error (at_name i) [Txt ''Not an integer''])
       | _ \<Rightarrow> Inl (Error (at_name i) [Txt ''Not an integer'']))"

definition Float_clean :: "'z slib_scheme \<Rightarrow> attr_info \<Rightarrow> pyval list option \<Rightarrow> pyval option \<Rightarrow> pyval res" where
  "Float_clean L i enum v =
     rbind (EnumMixin_clean i enum v) (\<lambda>x.
       if x = PNone \<and> \<not> at_required i then Inr (at_default i)
       else
         let err = Inl (Error (at_name i) [Txt ''Not a floating point number''])
         in case x of PBool b \<Rightarrow> err
            | _ \<Rightarrow> (case lib_float L x of None \<Rightarrow> err | Some q \<Rightarrow> Inr (PFloat q)))"

section \<open>Cleaning lists and dictionaries\<close>

text \<open>
  A cleaner returns the value, or the exception together with the argument as it was left.
\<close>

type_synonym cleaner = "pyval option \<Rightarrow> (exn \<times> pyval option) + pyval"

definition scalar :: "(pyval option \<Rightarrow> pyval res) \<Rightarrow> cleaner" where
  "scalar f v = (case f v of Inl e \<Rightarrow> Inl (e, v) | Inr x \<Rightarrow> Inr x)"

definition after :: "pyval \<Rightarrow> pyval option \<Rightarrow> pyval" where
  "after v v' = (case v' of None \<Rightarrow> v | Some x \<Rightarrow> x)"

text \<open>
  The inner loop of \<open>List.clean\<close> over the item types: the first that accepts wins; an \<open>Error\<close> is
  remembered and the next one tried on what is left of the value; another exception escapes.
  The flag tells the two apart.
\<close>

fun try_items :: "cleaner list \<Rightarrow> pyval \<Rightarrow> msg \<Rightarrow> (bool \<times> exn \<times> msg \<times> pyval) + pyval" where
  "try_items [] v found = Inl (True, TypeError, found, v)"
| "try_items (c # cs) v found =
     (case c (Some v) of
        Inr w \<Rightarrow> Inr w
      | Inl (SchemaError a m n, v') \<Rightarrow> try_items cs (after v v') (Error_str a m)
      | Inl (e, v') \<Rightarrow> Inl (False, e, [], after v v'))"

fun list_loop :: "string \<Rightarrow> cleaner list \<Rightarrow> nat \<Rightarrow> pyval list \<Rightarrow> (exn \<times> pyval list) + pyval list" where
  "list_loop nm items index [] = Inr []"
| "list_loop nm items index (v # vs) =
     (case try_items items v [] of
        Inl (exhausted, e, found, v') \<Rightarrow>
          Inl (if exhausted
               then Error nm ([Txt ''Item#'', Txt (str_of_nat index),
                      Txt '' is not valid per list types: ''] @ found)
               else e, v' # vs)
      | Inr w \<Rightarrow>
          (case list_loop nm items (Suc index) vs of
             Inl (e, ws) \<Rightarrow> Inl (e, w # ws)
           | Inr ws \<Rightarrow> Inr (w # ws)))"

definition List_clean :: "attr_info \<Rightarrow> pyval list option \<Rightarrow> cleaner list \<Rightarrow> cleaner" where
  "List_clean i enum items v =
     (case EnumMixin_clean i enum v of
        Inl e \<Rightarrow> Inl (e, v)
      | Inr x \<Rightarrow>
          (case x of
             PNone \<Rightarrow> Inr (at_default i)
           | PList xs \<Rightarrow>
               if \<not> at_empty i \<and> xs = [] then Inl (Error (at_name i) [Txt ''Empty value not allowed''], v)
               else if items = [] then Inr x
               else (case list_loop (at_name i) items 0 xs of
                       Inl (e, ys) \<Rightarrow> Inl (e, map_option (\<lambda>_. PList ys) v)
                     | Inr ys \<Rightarrow> Inr (PList ys))
           | _ \<Rightarrow> Inl (Error (at_name i) [Txt ''Not a list''], v)))"

text \<open>What \<open>Dict.clean\<close> uses of an attribute: its name, whether it is filled in, its \<open>clean\<close>.\<close>

record field =
  fl_name :: string
  fl_fill :: bool
  fl_clean :: cleaner

fun fields_loop ::
    "bool \<Rightarrow> (string \<times> field) list \<Rightarrow> pydict \<Rightarrow> pydict \<Rightarrow> (exn \<times> pydict) + pydict" where
  "fields_loop additional flds [] data = Inr data"
| "fields_loop additional flds ((key, v) # rest) data =
     (case map_of flds key of
        None \<Rightarrow> if \<not> additional then Inl (Error key [Txt ''Field was not expected''], data)
                else fields_loop additional flds rest data
      | Some f \<Rightarrow>
          (case fl_clean f (Some v) of
             Inl (e, v') \<Rightarrow> Inl (e, AList.update key (after v v') data)
           | Inr w \<Rightarrow> fields_loop additional flds rest (AList.update key w data)))"

fun defaults_loop :: "(string \<times> field) list \<Rightarrow> pydict \<Rightarrow> (exn \<times> pydict) + pydict" where
  "defaults_loop [] data = Inr data"
| "defaults_loop ((key, f) # rest) data =
     (if map_of data (fl_name f) = None \<and> fl_fill f
      then (case fl_clean f None of
              Inl (e, _) \<Rightarrow> Inl (e, data)
            | Inr w \<Rightarrow> defaults_loop rest (AList.update (fl_name f) w data))
      else defaults_loop rest data)"

definition Dict_clean :: "attr_info \<Rightarrow> bool \<Rightarrow> bool \<Rightarrow> (string \<times> field) list \<Rightarrow> cleaner" where
  "Dict_clean i additional upd flds v =
     (case Attribute_clean i v of
        Inl e \<Rightarrow> Inl (e, v)
      | Inr x \<Rightarrow>
          (case x of
             PNone \<Rightarrow> Inr (if at_null i then PNone else at_default i)
           | PDict data \<Rightarrow>
               (case (case fields_loop additional flds data data of
                        Inl r \<Rightarrow> Inl r
                      | Inr data1 \<Rightarrow> if upd then Inr data1 else defaults_loop flds data1) of
                  Inl (e, data') \<Rightarrow> Inl (e, map_option (\<lambda>_. PDict data') v)
                | Inr data' \<Rightarrow> Inr (PDict data'))
           | _ \<Rightarrow> Inl (Error (at_name i) [Txt ''A dict was expected''], v)))"

text \<open>The name of an attribute, and whether \<open>Dict.clean\<close> cleans \<open>NOT_PROVIDED\<close> for it.\<close>

fun info :: "attr \<Rightarrow> attr_info option" where
  "info (AAny i) = Some i"
| "info (AStr k i enum n) = Some i"
| "info (ABool i) = Some i"
| "info (AInt i enum) = Some i"
| "info (AFloat i enum) = Some i"
| "info (AList i enum items u) = Some i"
| "info (ADict k i additional upd attrs) = Some i"
| "info (ARef nm) = None"
| "info (APatch nm newname patches reg) = None"

fun attr_name :: "attr \<Rightarrow> string" where
  "attr_name (ARef nm) = nm"
| "attr_name (APatch nm newname patches reg) = nm"
| "attr_name a = (case info a of Some i \<Rightarrow> at_name i | None \<Rightarrow> [])"

definition filled_in :: "attr \<Rightarrow> bool" where
  "filled_in a = (case info a of Some i \<Rightarrow> at_required i \<or> at_has_default i | None \<Rightarrow> True)"

fun clean :: "'z slib_scheme \<Rightarrow> attr \<Rightarrow> cleaner" where
  "clean L (AAny i) = scalar (Attribute_clean i)"
| "clean L (AStr kind i enum n) = scalar (AStr_clean L kind i enum)"
| "clean L (ABool i) = scalar (Bool_clean i)"
| "clean L (AInt i enum) = scalar (Int_clean i enum)"
| "clean L (AFloat i enum) = scalar (Float_clean L i enum)"
| "clean L (AList i enum items u) = List_clean i enum (map (clean L) items)"
| "clean L (ADict k i additional upd attrs) =
     Dict_clean i additional upd
       (map (\<lambda>(key, a). (key, \<lparr>fl_name = attr_name a, fl_fill = filled_in a, fl_clean = clean L a\<rparr>)) attrs)"
| "clean L (ARef nm) = scalar (\<lambda>_. Inl AttributeError)"
| "clean L (APatch nm newname patches reg) = scalar (\<lambda>_. Inl AttributeError)"

section \<open>Validation\<close>

text \<open>\<open>str(v)\<close>; a \<open>datetime.time\<close> prints with seconds.\<close>

definition two_digits :: "int \<Rightarrow> string" where
  "two_digits n = (if n < 10 then ''0'' else []) @ str_of_int n"

fun py_str :: "'z slib_scheme \<Rightarrow> pyval \<Rightarrow> string" where
  "py_str L (PStr s) = s"
| "py_str L (PInt n) = str_of_int n"
| "py_str L PNone = ''None''"
| "py_str L (PBool b) = (if b then ''True'' else ''False'')"
| "py_str L (PTime h m) = two_digits h @ '':'' @ two_digits m @ '':00''"
| "py_str L v = lib_str L v"

text \<open>The loop of \<open>Attribute.validate\<close>: a \<open>ValueError\<close> is collected, another exception escapes.\<close>

fun run_validators ::
    "'z slib_scheme \<Rightarrow> string \<Rightarrow> validator list \<Rightarrow> pyval \<Rightarrow> verrors \<Rightarrow> verrors res" where
  "run_validators L nm [] v verrors = Inr verrors"
| "run_validators L nm (x # xs) v verrors =
     (case call_validator L x v of
        Inl (ValueError m) \<Rightarrow> run_validators L nm xs v (ve_add verrors nm m EINVAL)
      | Inl e \<Rightarrow> Inl e
      | Inr _ \<Rightarrow> run_validators L nm xs v verrors)"

definition Attribute_validate :: "'z slib_scheme \<Rightarrow> attr_info \<Rightarrow> pyval \<Rightarrow> unit res" where
  "Attribute_validate L i v = rbind (run_validators L (at_name i) (at_validators i) v []) ve_check"

definition Str_validate :: "'z slib_scheme \<Rightarrow> attr_info \<Rightarrow> nat \<Rightarrow> pyval \<Rightarrow> unit res" where
  "Str_validate L i max_length v =
     (if v = PNone then Inr ()
      else if truthy v \<and> length (py_str L v) > max_length then
        Inl (Validations [VErr (at_name i)
               [Txt ''Value greater than '', Txt (str_of_nat max_length), Txt '' not allowed''] EINVAL])
      else Attribute_validate L i v)"

definition Dir_validate :: "'z slib_scheme \<Rightarrow> attr_info \<Rightarrow> nat \<Rightarrow> pyval \<Rightarrow> unit res" where
  "Dir_validate L i max_length v =
     (if v = PNone then Inr ()
      else rbind (if truthy v then lib_path L v else Inr Directory) (\<lambda>kind.
        if kind = Missing then
          Inl (Validations [VErr (at_name i) [Txt ''This path does not exist.''] ENOENT])
        else if kind \<noteq> Directory then
          Inl (Validations [VErr (at_name i) [Txt ''This path is not a directory.''] ENOTDIR])
        else Str_validate L i max_length v))"

definition File_validate :: "'z slib_scheme \<Rightarrow> attr_info \<Rightarrow> nat \<Rightarrow> pyval \<Rightarrow> unit res" where
  "File_validate L i max_length v =
     (if v = PNone then Inr ()
      else rbind (if truthy v then lib_path L v else Inr RegularFile) (\<lambda>kind.
        if kind = Missing then
          Inl (Validations [VErr (at_name i) [Txt ''This path does not exist.''] ENOENT])
        else if kind \<noteq> RegularFile then
          Inl (Validations [VErr (at_name i) [Txt ''This path is not a file.''] EISDIR])
        else Str_validate L i max_length v))"

text \<open>
  \<open>int(s, 8)\<close>: white space, a sign, an optional prefix \<open>0o\<close> that one underscore may follow, octal
  digits with single underscores between them.
\<close>

fun octal_literal :: "bool \<Rightarrow> string \<Rightarrow> int \<Rightarrow> int option" where
  "octal_literal after_digit [] n = (if after_digit then Some n else None)"
| "octal_literal after_digit (c # s) n =
     (if c \<in> set ''01234567'' then octal_literal True s (8 * n + int (digit_value c))
      else if c = CHR ''_'' \<and> after_digit then octal_literal False s n
      else None)"

definition py_int8 :: "string \<Rightarrow> int option" where
  "py_int8 s =
     (let t = py_strip s;
          (neg, u) = (case t of
              c # r \<Rightarrow> if c = CHR ''-'' then (True, r) else if c = CHR ''+'' then (False, r) else (False, t)
            | [] \<Rightarrow> (False, t));
          digits = (case u of
              z # p # r \<Rightarrow>
                if z = CHR ''0'' \<and> p \<in> set ''oO''
                then (case r of c # r' \<Rightarrow> if c = CHR ''_'' then r' else r | [] \<Rightarrow> r) else u
            | _ \<Rightarrow> u)
      in map_option (\<lambda>n. if neg then - n else n) (octal_literal False digits 0))"

definition UnixPerm_validate :: "'z slib_scheme \<Rightarrow> attr_info \<Rightarrow> nat \<Rightarrow> pyval \<Rightarrow> unit res" where
  "UnixPerm_validate L i max_length v =
     (if v = PNone then Inr ()
      else case v of
        PStr s \<Rightarrow>
          (case py_int8 s of
             None \<Rightarrow> Inl (ValueError [Txt ''Not a valid integer. Must be between 000 and 777''])
           | Some mode \<Rightarrow>
               if \<not> (0 \<le> mode \<and> mode \<le> 511)
               then Inl (ValueError [Txt ''Please supply a value between 000 and 777''])
               else Str_validate L i max_length v)
      | _ \<Rightarrow> Inl TypeError)"

definition AStr_validate :: "'z slib_scheme \<Rightarrow> str_kind \<Rightarrow> attr_info \<Rightarrow> nat \<Rightarrow> pyval \<Rightarrow> unit res" where
  "AStr_validate L kind i max_length v =
     (case kind of
        KDir \<Rightarrow> Dir_validate L i max_length v
      | KFile \<Rightarrow> File_validate L i max_length v
      | KTime \<Rightarrow> Str_validate L i max_length (PStr (py_str L v))
      | KUnixPerm \<Rightarrow> UnixPerm_validate L i max_length v
      | _ \<Rightarrow> Str_validate L i max_length v)"

text \<open>
  \<open>List.validate\<close>. With \<open>unique\<close>, a dictionary is turned into the sorted tuple of its items before it
  is looked up in the set of values seen, and the variable keeps that tuple.
  The inner loop gives the errors of an item that no item type accepts, none otherwise.
\<close>

definition freeze :: "pyval \<Rightarrow> pyval res" where
  "freeze v =
     (case v of
        PDict d \<Rightarrow>
          rbind (py_sorted False (map (\<lambda>(k, x). (PTuple [PStr k, x], PTuple [PStr k, x])) d))
            (\<lambda>ts. Inr (PTuple ts))
      | _ \<Rightarrow> Inr v)"

fun item_errors :: "(pyval \<Rightarrow> unit res) list \<Rightarrow> string \<Rightarrow> pyval \<Rightarrow> verrors \<Rightarrow> verrors res" where
  "item_errors [] label v acc = Inr acc"
| "item_errors (f # fs) label v acc =
     (case f v of
        Inr _ \<Rightarrow> Inr []
      | Inl (Validations es) \<Rightarrow> item_errors fs label v (add_child acc label es)
      | Inl e \<Rightarrow> Inl e)"

fun list_errors ::
    "string \<Rightarrow> bool \<Rightarrow> (pyval \<Rightarrow> unit res) list \<Rightarrow> nat \<Rightarrow> pyval list \<Rightarrow> pyval list \<Rightarrow> verrors \<Rightarrow> verrors res"
  where
  "list_errors nm uniq fs index [] seen verrors = Inr verrors"
| "list_errors nm uniq fs index (v0 # vs) seen verrors =
     (let label = nm @ ''.'' @ str_of_nat index
      in rbind (if uniq then freeze v0 else Inr v0) (\<lambda>v.
           if uniq \<and> \<not> hashable v then Inl TypeError
           else
             let verrors1 = (if uniq \<and> list_ex (py_eq v) seen
                             then ve_add verrors label [Txt ''This value is not unique.''] EINVAL
                             else verrors);
                 seen1 = (if uniq then v # seen else seen)
             in rbind (item_errors fs label v []) (\<lambda>es.
                  list_errors nm uniq fs (Suc index) vs seen1 (ve_extend verrors1 es))))"

definition List_validate ::
    "'z slib_scheme \<Rightarrow> attr_info \<Rightarrow> bool \<Rightarrow> (pyval \<Rightarrow> unit res) list \<Rightarrow> pyval \<Rightarrow> unit res" where
  "List_validate L i uniq fs v =
     (if v = PNone then Inr ()
      else rbind (py_iter v) (\<lambda>vs.
        rbind (list_errors (at_name i) uniq fs 0 vs [] []) (\<lambda>verrors.
          if verrors \<noteq> [] then Inl (Validations verrors) else Attribute_validate L i v)))"

text \<open>\<open>value[name]\<close> for a text \<open>name\<close>, and the loop of \<open>Dict.validate\<close>.\<close>

definition val_item :: "pyval \<Rightarrow> string \<Rightarrow> pyval res" where
  "val_item v k = (case v of PDict d \<Rightarrow> dict_item d k | _ \<Rightarrow> Inl TypeError)"

fun attrs_errors ::
    "string \<Rightarrow> (string \<times> (pyval \<Rightarrow> unit res)) list \<Rightarrow> pyval \<Rightarrow> verrors \<Rightarrow> verrors res" where
  "attrs_errors nm [] v verrors = Inr verrors"
| "attrs_errors nm ((a, f) # fs) v verrors =
     rbind (py_in (PStr a) v) (\<lambda>present.
       if \<not> present then attrs_errors nm fs v verrors
       else rbind (val_item v a) (\<lambda>x.
         case f x of
           Inr _ \<Rightarrow> attrs_errors nm fs v verrors
         | Inl (Validations es) \<Rightarrow> attrs_errors nm fs v (add_child verrors nm es)
         | Inl e \<Rightarrow> Inl e))"

definition Dict_validate :: "attr_info \<Rightarrow> (string \<times> (pyval \<Rightarrow> unit res)) list \<Rightarrow> pyval \<Rightarrow> unit res" where
  "Dict_validate i fs v =
     (if v = PNone then Inr () else rbind (attrs_errors (at_name i) fs v []) ve_check)"

text \<open>\<open>Cron.validate\<close>: unexpected keys, the cron expression, the interval.\<close>

definition Cron_FIELDS :: "string list" where
  "Cron_FIELDS = [''minute'', ''hour'', ''dom'', ''month'', ''dow'']"

definition val_get :: "pyval \<Rightarrow> string \<Rightarrow> pyval res" where
  "val_get v k = (case v of PDict d \<Rightarrow> Inr (dict_get d k) | _ \<Rightarrow> Inl AttributeError)"

definition unexpected_keys :: "string \<Rightarrow> bool \<Rightarrow> pyval list \<Rightarrow> verrors" where
  "unexpected_keys nm begin_end ks =
     map (\<lambda>k. VErr nm [Txt ''Unexpected '', Val k, Txt '' value''] EINVAL)
       (filter (\<lambda>k. \<not> (begin_end \<and> k \<in> set [PStr ''begin'', PStr ''end'']) \<and> k \<notin> set (map PStr Cron_FIELDS)) ks)"

fun cron_expression :: "pyval \<Rightarrow> string list \<Rightarrow> string res" where
  "cron_expression v [] = Inr []"
| "cron_expression v (f # fs) =
     rbind (val_get v f) (\<lambda>x.
       rbind (if truthy x then (case x of PStr s \<Rightarrow> Inr (s @ '' '') | _ \<Rightarrow> Inl TypeError) else Inr ''* '')
         (\<lambda>t. rbind (cron_expression v fs) (\<lambda>r. Inr (t @ r))))"

fun cron_scan :: "(nat \<Rightarrow> pyval) \<Rightarrow> pyval \<Rightarrow> pyval \<Rightarrow> nat \<Rightarrow> nat \<Rightarrow> bool res" where
  "cron_scan it b e k 0 = Inr False"
| "cron_scan it b e k (Suc n) =
     rbind (py_le b (it k)) (\<lambda>low.
       rbind (if low then py_le (it k) e else Inr False) (\<lambda>hit.
         if hit then Inr True else cron_scan it b e (Suc k) n))"

definition Cron_validate ::
    "'z slib_scheme \<Rightarrow> attr_info \<Rightarrow> bool \<Rightarrow> (string \<times> (pyval \<Rightarrow> unit res)) list \<Rightarrow> pyval \<Rightarrow> unit res" where
  "Cron_validate L i begin_end fs v =
     (if v = PNone then Inr ()
      else
        rbind (attrs_errors (at_name i) fs v []) (\<lambda>verrors0.
        rbind (py_iter v) (\<lambda>ks.
        rbind (ve_check (verrors0 @ unexpected_keys (at_name i) begin_end ks)) (\<lambda>_.
        rbind (cron_expression v Cron_FIELDS) (\<lambda>expr.
        rbind (val_get v ''begin'') (\<lambda>b.
        rbind (val_get v ''end'') (\<lambda>e.
          let (it, verrors1) = (case lib_croniter L expr of
                Inl m \<Rightarrow> (None, [VErr (at_name i) (Txt ''Please ensure fields match cron syntax - '' # m) EINVAL])
              | Inr f \<Rightarrow> (Some f, []))
          in rbind (if truthy b \<and> truthy e then py_le b e else Inr True) (\<lambda>ordered.
               let verrors2 = (if ordered then verrors1
                     else ve_add verrors1 (at_name i) [Txt ''Begin time should be less or equal than end time''] EINVAL)
               in rbind (case it of
                           Some f \<Rightarrow>
                             if truthy b \<or> truthy e
                             then cron_scan f (if truthy b then b else PTime 0 0) (if truthy e then e else PTime 23 59)
                                    0 (24 * 60)
                             else Inr True
                         | None \<Rightarrow> Inr True) (\<lambda>hit.
                    ve_check (if hit then verrors2
                      else ve_add verrors2 (at_name i)
                             [Txt ''Specified schedule does not match specified time interval''] EINVAL))))))))))"

fun validate :: "'z slib_scheme \<Rightarrow> attr \<Rightarrow> pyval \<Rightarrow> unit res" where
  "validate L (AAny i) = Attribute_validate L i"
| "validate L (AStr kind i enum n) = AStr_validate L kind i n"
| "validate L (ABool i) = Attribute_validate L i"
| "validate L (AInt i enum) = Attribute_validate L i"
| "validate L (AFloat i enum) = Attribute_validate L i"
| "validate L (AList i enum items u) = List_validate L i u (map (validate L) items)"
| "validate L (ADict k i additional upd attrs) =
     (case k of
        KDict \<Rightarrow> Dict_validate i (map (\<lambda>(key, a). (attr_name a, validate L a)) attrs)
      | KCron begin_end \<Rightarrow>
          Cron_validate L i begin_end (map (\<lambda>(key, a). (attr_name a, validate L a)) attrs))"
| "validate L (ARef nm) = (\<lambda>_. Inl AttributeError)"
| "validate L (APatch nm newname patches reg) = (\<lambda>_. Inl AttributeError)"

section \<open>Dumping\<close>

text \<open>\<open>has_private\<close> and \<open>dump\<close> are called on resolved attributes only; placeholders have neither.\<close>

fun has_private :: "attr \<Rightarrow> bool" where
  "has_private (AAny i) = at_private i"
| "has_private (AStr kind i enum n) = at_private i"
| "has_private (ABool i) = at_private i"
| "has_private (AInt i enum) = at_private i"
| "has_private (AFloat i enum) = at_private i"
| "has_private (AList i enum items u) = (at_private i \<or> list_ex has_private items)"
| "has_private (ADict k i additional upd attrs) = (at_private i \<or> list_ex (\<lambda>(key, a). has_private a) attrs)"
| "has_private (ARef nm) = False"
| "has_private (APatch nm newname patches reg) = False"

definition masked :: pyval where
  "masked = PStr ''********''"

definition Attribute_dump :: "attr_info \<Rightarrow> pyval \<Rightarrow> pyval" where
  "Attribute_dump i v = (if at_private i then masked else v)"

text \<open>The loop of \<open>Dict.dump\<close> over the copy of the value.\<close>

definition dump_items :: "(string \<times> (pyval \<Rightarrow> pyval)) list \<Rightarrow> pydict \<Rightarrow> pydict" where
  "dump_items dumps d = map (\<lambda>(k, v). (k, case map_of dumps k of None \<Rightarrow> v | Some f \<Rightarrow> f v)) d"

fun dump :: "attr \<Rightarrow> pyval \<Rightarrow> pyval" where
  "dump (AAny i) v = Attribute_dump i v"
| "dump (AStr kind i enum n) v = Attribute_dump i v"
| "dump (ABool i) v = Attribute_dump i v"
| "dump (AInt i enum) v = Attribute_dump i v"
| "dump (AFloat i enum) v = Attribute_dump i v"
| "dump (AList i enum items u) v = (if has_private (AList i enum items u) then masked else v)"
| "dump (ADict k i additional upd attrs) v =
     (if at_private i then masked
      else case v of
             PDict d \<Rightarrow> PDict (dump_items (map (\<lambda>(key, a). (key, dump a)) attrs) d)
           | _ \<Rightarrow> v)"
| "dump (ARef nm) v = v"
| "dump (APatch nm newname patches reg) v = v"

section \<open>JSON schemas\<close>

text \<open>The entries most classes add when there is no parent.\<close>

definition json_description :: "attr_info \<Rightarrow> pydict" where
  "json_description i =
     (case at_description i of Some (c # cs) \<Rightarrow> [(''description'', PStr (c # cs))] | _ \<Rightarrow> [])"

definition json_default :: "attr_info \<Rightarrow> pydict" where
  "json_default i = (if at_has_default i then [(''default'', at_default i)] else [])"

definition json_head :: "bool \<Rightarrow> attr_info \<Rightarrow> pydict" where
  "json_head parent i =
     (if parent then []
      else [(''title'', PStr (at_title i))] @ json_description i @ json_default i @
           [(''_required_'', PBool (at_required i))])"

definition json_type :: "string \<Rightarrow> attr_info \<Rightarrow> pyval" where
  "json_type t i = (if at_null i then PList [PStr t, PStr ''null''] else PStr t)"

definition json_enum :: "pyval list option \<Rightarrow> pydict" where
  "json_enum enum = (case enum of None \<Rightarrow> [] | Some es \<Rightarrow> [(''enum'', PList es)])"

definition Any_json :: "bool \<Rightarrow> attr_info \<Rightarrow> pydict" where
  "Any_json parent i =
     [(''anyOf'', PList (map (\<lambda>t. PDict [(''type'', PStr t)])
         [''string'', ''integer'', ''boolean'', ''object'', ''array''])),
      (''title'', PStr (at_title i)), (''nullable'', PBool (at_null i))] @
     json_description i @ json_default i @
     (if parent then [] else [(''_required_'', PBool (at_required i))])"

definition Str_json :: "bool \<Rightarrow> attr_info \<Rightarrow> pyval list option \<Rightarrow> pydict" where
  "Str_json parent i enum = json_head parent i @ [(''type'', json_type ''string'' i)] @ json_enum enum"

definition Bool_json :: "bool \<Rightarrow> attr_info \<Rightarrow> pydict" where
  "Bool_json parent i = [(''type'', json_type ''boolean'' i)] @ json_head parent i"

definition Int_json :: "bool \<Rightarrow> attr_info \<Rightarrow> pydict" where
  "Int_json parent i = [(''type'', json_type ''integer'' i)] @ json_head parent i"

text \<open>Without a parent \<open>Float\<close> reads \<open>self.verbose\<close>, which no attribute has.\<close>

definition Float_json :: "bool \<Rightarrow> attr_info \<Rightarrow> pydict res" where
  "Float_json parent i =
     (if parent then Inr [(''type'', json_type ''float'' i)] else Inl AttributeError)"

text \<open>The types of the items: of a list of types only the first one.\<close>

definition json_item :: "pydict \<Rightarrow> pyval list res" where
  "json_item child =
     rbind (dict_item child ''type'') (\<lambda>t.
       case t of
         PList ts \<Rightarrow> Inr (map (\<lambda>u. PDict [(''type'', u)]) (take 1 ts))
       | _ \<Rightarrow> Inr [PDict [(''type'', t)]])"

definition List_json :: "bool \<Rightarrow> attr_info \<Rightarrow> pyval list option \<Rightarrow> pyval list \<Rightarrow> pydict" where
  "List_json parent i enum items =
     [(''type'', json_type ''array'' i)] @ json_head parent i @ json_enum enum @
     [(''items'', PList (if items = [] then [PDict [(''type'', PStr ''null'')]] else items))]"

definition Dict_json :: "bool \<Rightarrow> attr_info \<Rightarrow> bool \<Rightarrow> (string \<times> pydict) list \<Rightarrow> pydict" where
  "Dict_json parent i additional children =
     [(''type'', PStr ''object''), (''properties'', PDict (map (\<lambda>(k, c). (k, PDict c)) children)),
      (''additionalProperties'', PBool additional)] @ json_head parent i"

fun to_json_schema :: "bool \<Rightarrow> attr \<Rightarrow> pydict res" where
  "to_json_schema parent (AAny i) = Inr (Any_json parent i)"
| "to_json_schema parent (AStr kind i enum n) = Inr (Str_json parent i enum)"
| "to_json_schema parent (ABool i) = Inr (Bool_json parent i)"
| "to_json_schema parent (AInt i enum) = Inr (Int_json parent i)"
| "to_json_schema parent (AFloat i enum) = Float_json parent i"
| "to_json_schema parent (AList i enum items u) =
     rbind (mapM (\<lambda>a. rbind (to_json_schema True a) json_item) items)
       (\<lambda>types. Inr (List_json parent i enum (concat types)))"
| "to_json_schema parent (ADict k i additional upd attrs) =
     rbind (mapM (\<lambda>(key, a). rbind (to_json_schema True a) (\<lambda>c. Inr (key, c))) attrs)
       (\<lambda>children. Inr (Dict_json parent i additional children))"
| "to_json_schema parent (ARef nm) = Inl AttributeError"
| "to_json_schema parent (APatch nm newname patches reg) = Inl AttributeError"

end
