(* ===== verification/Schema_Laws.thy ===== *)
theory Schema_Laws
  imports Schema
begin

text \<open>
  What the schema classes guarantee: the shape of a cleaned value, cleaning twice, partial updates,
  what \<open>dump\<close> reveals, and what the validation of a list with \<open>unique\<close> looks at.
\<close>

section \<open>Well-formed schemas and values\<close>

text \<open>
  The attributes of a dictionary are stored under their own names, each name once. (A \<open>Patch\<close> or
  \<open>Ref\<close> inside a dictionary is stored under the name it had before it was resolved.)
\<close>

fun wf_attr :: "attr \<Rightarrow> bool" where
  "wf_attr (AList i enum items u) = list_all wf_attr items"
| "wf_attr (ADict k i additional upd attrs) =
     (distinct (map fst attrs) \<and> list_all (\<lambda>(key, a). attr_name a = key \<and> wf_attr a) attrs)"
| "wf_attr a = True"


definition as_field :: "'z slib_scheme \<Rightarrow> attr \<Rightarrow> field" where
  "as_field L a = \<lparr>fl_name = attr_name a, fl_fill = filled_in a, fl_clean = clean L a\<rparr>"

lemma as_field_simps [simp]:
  "fl_name (as_field L a) = attr_name a" "fl_fill (as_field L a) = filled_in a"
  "fl_clean (as_field L a) = clean L a"
  by (simp_all add: as_field_def)

lemma clean_ADict:
  "clean L (ADict k i additional upd attrs) =
     Dict_clean i additional upd (map (\<lambda>(key, a). (key, as_field L a)) attrs)"
  by (simp add: as_field_def)

lemma map_of_as_field [simp]:
  "map_of (map (\<lambda>(key, a). (key, as_field L a)) attrs) k = map_option (as_field L) (map_of attrs k)"
  by (induction attrs) auto

lemma fields_of_attrs:
  "list_all (\<lambda>(key, a). attr_name a = key \<and> wf_attr a) attrs \<Longrightarrow>
     list_all (\<lambda>(key, f). fl_name f = key) (map (\<lambda>(key, a). (key, as_field L a)) attrs)"
  by (induction attrs) auto

text \<open>A library for concrete instances: nothing parses but floats of floats.\<close>

definition sample_lib :: slib where
  "sample_lib =
     \<lparr>lib_match = \<lambda>p f s. False, lib_ip_address = \<lambda>v. False, lib_ip_network = \<lambda>ip v. False,
      lib_uuid = \<lambda>v. Inl TypeError, lib_urlparse = \<lambda>v. Inr ([], []), lib_naming_schema = \<lambda>v. Inr (),
      lib_jail_query = [], lib_ip_in_use = [],
      lib_float = \<lambda>v. case v of PFloat q \<Rightarrow> Some q | _ \<Rightarrow> None,
      lib_ip = \<lambda>f sh s. Inl [], lib_path = \<lambda>v. Inr Missing, lib_croniter = \<lambda>s. Inl [],
      lib_str = \<lambda>v. []\<rparr>"

lemmas eval_clean = scalar_def AStr_clean_def Str_clean_def Int_clean_def EnumMixin_clean_def
  Attribute_clean_def Attribute_defaults_def Dict_clean_def filled_in_def py_isdigit_def is_digit_def
  py_int_def py_strip_def strip_by_def py_space_def digits_value_def digit_value_def

section \<open>The loops\<close>

lemma scalar_Inr [simp]: "(scalar f v = Inr w) = (f v = Inr w)"
  by (auto simp: scalar_def split: sum.splits)

lemma Attribute_clean_Inr:
  "Attribute_clean i v = Inr x \<Longrightarrow>
     (v = None \<and> at_has_default i \<and> x = at_default i) \<or> (v = Some x \<and> (x = PNone \<longrightarrow> at_null i))"
  by (auto simp: Attribute_clean_def split: if_splits option.splits)


lemma try_items_Inr: "try_items cs v found = Inr w \<Longrightarrow> \<exists>c \<in> set cs. \<exists>v'. c (Some v') = Inr w"
  by (induction cs arbitrary: v found) (auto split: sum.splits exn.splits, blast+)

lemma list_loop_Inr:
  "list_loop nm items n xs = Inr ys \<Longrightarrow>
     length ys = length xs \<and> list_all (\<lambda>y. \<exists>c \<in> set items. \<exists>v. c (Some v) = Inr y) ys"
  by (induction nm items n xs arbitrary: ys rule: list_loop.induct)
     (auto split: sum.splits prod.splits dest: try_items_Inr)


text \<open>
  After the loop over the given items, a key of the schema that was given holds something its
  attribute returned, every other key is as before, and no key was added or removed.
\<close>

lemma fields_loop_Inr:
  assumes "fields_loop additional flds items data = Inr data'"
    and "fst ` set items \<subseteq> set (dict_keys data)"
  shows "dict_keys data' = dict_keys data"
    and "additional \<or> fst ` set items \<subseteq> fst ` set flds"
    and "map_of flds k = None \<or> k \<notin> fst ` set items \<Longrightarrow> map_of data' k = map_of data k"
    and "map_of flds k = Some f \<Longrightarrow> k \<in> fst ` set items \<Longrightarrow>
           \<exists>v w. (k, v) \<in> set items \<and> fl_clean f (Some v) = Inr w \<and> map_of data' k = Some w"
proof -
  have "dict_keys data' = dict_keys data \<and>
        (additional \<or> fst ` set items \<subseteq> fst ` set flds) \<and>
        (map_of flds k = None \<or> k \<notin> fst ` set items \<longrightarrow> map_of data' k = map_of data k) \<and>
        (map_of flds k = Some f \<longrightarrow> k \<in> fst ` set items \<longrightarrow>
          (\<exists>v w. (k, v) \<in> set items \<and> fl_clean f (Some v) = Inr w \<and> map_of data' k = Some w))"
    using assms
  proof (induction additional flds items data arbitrary: data' rule: fields_loop.induct)
    case (2 additional flds key v rest data)
    show ?case
    proof (cases "map_of flds key")
      case None
      with 2 show ?thesis by (auto split: if_splits)
    next
      case (Some g)
      then obtain w where w: "fl_clean g (Some v) = Inr w"
        and rest: "fields_loop additional flds rest (AList.update key w data) = Inr data'"
        using "2.prems"(1) by (auto split: sum.splits)
      have keys: "dict_keys (AList.update key w data) = dict_keys data"
        using "2.prems"(2) by (simp add: dict_keys_update)
      note IH = "2.IH"(2) [OF Some w rest]
      have key_in: "key \<in> fst ` set flds"
        using map_of_SomeD [OF Some] by force
      show ?thesis
      proof (cases "k = key \<and> k \<notin> fst ` set rest")
        case True
        then show ?thesis using IH keys "2.prems"(2) Some w key_in by auto
      next
        case False
        then show ?thesis using IH keys "2.prems"(2) Some key_in by auto
      qed
    qed
  qed simp
  then show "dict_keys data' = dict_keys data"
    and "additional \<or> fst ` set items \<subseteq> fst ` set flds"
    and "map_of flds k = None \<or> k \<notin> fst ` set items \<Longrightarrow> map_of data' k = map_of data k"
    and "map_of flds k = Some f \<Longrightarrow> k \<in> fst ` set items \<Longrightarrow>
           \<exists>v w. (k, v) \<in> set items \<and> fl_clean f (Some v) = Inr w \<and> map_of data' k = Some w"
    by blast+
qed

text \<open>After the loop over the defaults every attribute to fill in has a value.\<close>

lemma defaults_loop_Inr:
  assumes "defaults_loop flds data = Inr data'" and "list_all (\<lambda>(key, f). fl_name f = key) flds"
  shows "map_of data k = Some x \<Longrightarrow> map_of data' k = Some x"
    and "map_of data k = None \<Longrightarrow> map_of data' k = Some x \<Longrightarrow>
           \<exists>f. (k, f) \<in> set flds \<and> fl_clean f None = Inr x"
    and "(k, f) \<in> set flds \<Longrightarrow> fl_fill f \<Longrightarrow> map_of data' k \<noteq> None"
    and "distinct (dict_keys data) \<Longrightarrow> distinct (dict_keys data')"
proof -
  have "(map_of data k = Some x \<longrightarrow> map_of data' k = Some x) \<and>
        (map_of data k = None \<longrightarrow> map_of data' k = Some x \<longrightarrow>
           (\<exists>f. (k, f) \<in> set flds \<and> fl_clean f None = Inr x)) \<and>
        ((k, f) \<in> set flds \<longrightarrow> fl_fill f \<longrightarrow> map_of data' k \<noteq> None) \<and>
        (distinct (dict_keys data) \<longrightarrow> distinct (dict_keys data'))"
    using assms
  proof (induction flds data arbitrary: data' x rule: defaults_loop.induct)
    case (2 key g rest data)
    have nm: "fl_name g = key" and rest_nm: "list_all (\<lambda>(key, f). fl_name f = key) rest"
      using "2.prems"(2) by auto
    show ?case
    proof (cases "map_of data key = None \<and> fl_fill g")
      case True
      then obtain w where w: "fl_clean g None = Inr w"
        and rest: "defaults_loop rest (AList.update key w data) = Inr data'"
        using "2.prems"(1) nm by (auto split: sum.splits)
      note IH = "2.IH"(1) [unfolded nm, OF True w rest rest_nm]
      show ?thesis
        using IH [of w] IH [of x] True w pd.distinct_set [of data key w]
        by (cases "k = key") auto
    next
      case False
      then have rest: "defaults_loop rest data = Inr data'"
        using "2.prems"(1) nm by (auto split: if_splits)
      note IH = "2.IH"(2) [unfolded nm, OF False rest rest_nm]
      show ?thesis
      proof (cases "k = key \<and> f = g")
        case True
        then show ?thesis using IH False IH [of "the (map_of data k)"] by auto
      next
        case no: False
        then show ?thesis using IH by auto
      qed
    qed
  qed simp
  then show "map_of data k = Some x \<Longrightarrow> map_of data' k = Some x"
    and "map_of data k = None \<Longrightarrow> map_of data' k = Some x \<Longrightarrow>
           \<exists>f. (k, f) \<in> set flds \<and> fl_clean f None = Inr x"
    and "(k, f) \<in> set flds \<Longrightarrow> fl_fill f \<Longrightarrow> map_of data' k \<noteq> None"
    and "distinct (dict_keys data) \<Longrightarrow> distinct (dict_keys data')"
    by blast+
qed



text \<open>
  The two loops together: \<open>cleaned_dict\<close> says what becomes of the dictionary \<open>data\<close>. \<open>from_clean\<close> is
  the origin of a value: its attribute returned it for the value given under its key, or for none.
\<close>

definition from_clean :: "field \<Rightarrow> pydict \<Rightarrow> string \<Rightarrow> pyval \<Rightarrow> bool" where
  "from_clean f data k x \<longleftrightarrow>
     fl_clean f None = Inr x \<or> (\<exists>y. (k, y) \<in> set data \<and> fl_clean f (Some y) = Inr x)"

definition cleaned_dict :: "bool \<Rightarrow> bool \<Rightarrow> (string \<times> field) list \<Rightarrow> pydict \<Rightarrow> pydict \<Rightarrow> bool" where
  "cleaned_dict additional upd flds data data' \<longleftrightarrow>
     (additional \<or> set (dict_keys data) \<subseteq> fst ` set flds) \<and>
     (upd \<longrightarrow> dict_keys data' = dict_keys data) \<and>
     (distinct (dict_keys data) \<longrightarrow> distinct (dict_keys data')) \<and>
     (\<forall>k f x. map_of flds k = Some f \<longrightarrow> map_of data' k = Some x \<longrightarrow> from_clean f data k x) \<and>
     (\<forall>k. map_of flds k = None \<longrightarrow> map_of data' k = map_of data k) \<and>
     (\<not> upd \<longrightarrow> (\<forall>k f. map_of flds k = Some f \<longrightarrow> fl_fill f \<longrightarrow> map_of data' k \<noteq> None))"

lemma cleaned_dict_value:
  "cleaned_dict additional upd flds data data' \<Longrightarrow> map_of flds k = Some f \<Longrightarrow> map_of data' k = Some x \<Longrightarrow>
     from_clean f data k x"
  by (simp add: cleaned_dict_def)

lemma cleaned_dict_fill:
  "cleaned_dict additional upd flds data data' \<Longrightarrow> map_of flds k = Some f \<Longrightarrow> fl_fill f \<Longrightarrow>
     upd \<or> map_of data' k \<noteq> None"
  unfolding cleaned_dict_def by blast

lemma cleaned_dict_keys:
  assumes c: "cleaned_dict additional upd flds data data'"
  shows "additional \<or> set (dict_keys data') \<subseteq> fst ` set flds"
proof -
  have "k \<in> fst ` set flds" if "\<not> additional" and k: "k \<in> set (dict_keys data')" for k
  proof (cases "map_of flds k")
    case None
    with c k have "k \<in> set (dict_keys data)" by (simp add: cleaned_dict_def dict_keys_map_of)
    with c that(1) show ?thesis by (auto simp: cleaned_dict_def)
  next
    case (Some f)
    then show ?thesis by (metis fst_conv image_eqI map_of_SomeD)
  qed
  then show ?thesis by blast
qed

lemma dict_keys_fst: "set (dict_keys d) = fst ` set d"
  by (simp add: dict_keys_def)

lemma fields_loop_cleaned:
  assumes "fields_loop additional flds data data = Inr data1"
  shows "cleaned_dict additional True flds data data1"
proof -
  have sub: "fst ` set data \<subseteq> set (dict_keys data)" by (simp add: dict_keys_fst)
  note fl = fields_loop_Inr [OF assms sub]
  have "from_clean f data k x" if "map_of flds k = Some f" and "map_of data1 k = Some x" for k f x
  proof -
    have "k \<in> fst ` set data"
      using that(2) fl(1) dict_keys_map_of [of k data1] by (simp add: dict_keys_fst)
    with fl(4) [OF that(1)] that(2) show ?thesis by (auto simp: from_clean_def)
  qed
  then show ?thesis
    using fl(1,2,3) by (simp add: cleaned_dict_def dict_keys_fst)
qed

lemma defaults_loop_cleaned:
  assumes c: "cleaned_dict additional True flds data data1" and d: "defaults_loop flds data1 = Inr data'"
    and nm: "list_all (\<lambda>(key, f). fl_name f = key) flds" and dist: "distinct (map fst flds)"
  shows "cleaned_dict additional False flds data data'"
proof -
  note dl = defaults_loop_Inr [OF d nm]
  have "from_clean f data k x" if "map_of flds k = Some f" and x: "map_of data' k = Some x" for k f x
  proof (cases "map_of data1 k")
    case None
    then obtain g where "(k, g) \<in> set flds" and "fl_clean g None = Inr x" using dl(2) [OF _ x] by blast
    with dist that show ?thesis by (simp add: from_clean_def)
  next
    case (Some y)
    with dl(1) [OF Some] x c that show ?thesis by (auto simp: cleaned_dict_def)
  qed
  moreover have "map_of data' k = map_of data k" if "map_of flds k = None" for k
  proof (cases "map_of data1 k")
    case None
    have "map_of data' k = None"
    proof (rule ccontr)
      assume "map_of data' k \<noteq> None"
      then obtain x where "map_of data' k = Some x" by blast
      from dl(2) [OF None this] that show False by (metis map_of_eq_None_iff fst_conv image_eqI)
    qed
    with None c that show ?thesis by (simp add: cleaned_dict_def)
  next
    case (Some y)
    with dl(1) [OF Some] c that show ?thesis by (simp add: cleaned_dict_def)
  qed
  moreover have "map_of data' k \<noteq> None" if "map_of flds k = Some f" and "fl_fill f" for k f
    using dl(3) [OF map_of_SomeD [OF that(1)] that(2)] .
  ultimately show ?thesis
    using c dl(4) by (auto simp: cleaned_dict_def)
qed

lemma Dict_clean_Inr:
  assumes "Dict_clean i additional upd flds v = Inr w"
    and nm: "list_all (\<lambda>(key, f). fl_name f = key) flds" and dist: "distinct (map fst flds)"
  obtains (none) "w = PNone" "at_null i \<or> (at_has_default i \<and> at_default i = PNone)"
        "v = Some PNone \<or> (v = None \<and> at_has_default i \<and> at_default i = PNone)"
  | (dict) data data' where "v = Some (PDict data) \<or> (v = None \<and> at_has_default i \<and> at_default i = PDict data)"
        "w = PDict data'" "cleaned_dict additional upd flds data data'"
proof -
  obtain x where x: "Attribute_clean i v = Inr x"
    using assms(1) by (auto simp: Dict_clean_def split: sum.splits)
  note src = Attribute_clean_Inr [OF x]
  show ?thesis
  proof (cases x)
    case PNone
    then show ?thesis
      using none src assms(1) x by (auto simp: Dict_clean_def split: if_splits)
  next
    case (PDict data)
    then obtain data1 data' where f: "fields_loop additional flds data data = Inr data1"
      and r: "(if upd then Inr data1 else defaults_loop flds data1) = Inr data'" and w: "w = PDict data'"
      using assms(1) x by (auto simp: Dict_clean_def split: sum.splits if_splits prod.splits)
    note c = fields_loop_cleaned [OF f]
    have "cleaned_dict additional upd flds data data'"
      using r c defaults_loop_cleaned [OF c _ nm dist] by (cases upd) auto
    with w src PDict show ?thesis using dict by blast
  qed (use assms(1) x in \<open>auto simp: Dict_clean_def\<close>)
qed

section \<open>The shape of a cleaned value\<close>

text \<open>
  What a schema promises to the method that gets the value. \<open>None\<close> appears only where the attribute
  is nullable or defaults to it; a list or a number may be the default as it was written.
\<close>

definition none_ok :: "attr_info \<Rightarrow> bool" where
  "none_ok i \<longleftrightarrow> at_null i \<or> (at_has_default i \<and> at_default i = PNone)"

definition chosen :: "pyval list option \<Rightarrow> (pyval \<Rightarrow> bool) \<Rightarrow> bool" where
  "chosen enum p \<longleftrightarrow> (case enum of None \<Rightarrow> True | Some es \<Rightarrow> \<exists>x. list_ex (py_eq x) es \<and> p x)"

definition str_conforms :: "str_kind \<Rightarrow> attr_info \<Rightarrow> pyval list option \<Rightarrow> pyval \<Rightarrow> bool" where
  "str_conforms kind i enum v \<longleftrightarrow>
     (case kind of
        KTime \<Rightarrow> \<exists>h m. v = PTime h m \<and> 0 \<le> h \<and> h \<le> 23 \<and> 0 \<le> m \<and> m \<le> 59
      | KPath \<Rightarrow> \<exists>s. v = PStr s \<and> s \<noteq> []
      | KIPAddr opts \<Rightarrow> \<exists>s. v = PStr s
      | _ \<Rightarrow> \<exists>s. v = PStr s \<and> (at_empty i \<or> s \<noteq> []) \<and>
               chosen enum (\<lambda>x. x = PStr s \<or> (\<exists>n. x = PInt n \<and> s = str_of_int n)))"

fun conforms :: "attr \<Rightarrow> pyval \<Rightarrow> bool" where
  "conforms (AAny i) v = (v = PNone \<longrightarrow> none_ok i)"
| "conforms (AStr kind i enum n) v = (if v = PNone then none_ok i else str_conforms kind i enum v)"
| "conforms (ABool i) v = (if v = PNone then none_ok i else \<exists>b. v = PBool b)"
| "conforms (AInt i enum) v =
     (if v = PNone then none_ok i
      else \<exists>n. v = PInt n \<and> chosen enum (\<lambda>x. x = PInt n \<or> (\<exists>s. x = PStr s \<and> py_isdigit s \<and> py_int s = Inr n)))"
| "conforms (AFloat i enum) v = ((\<exists>q. v = PFloat q) \<or> (v = at_default i \<and> \<not> at_required i))"
| "conforms (AList i enum items u) v =
     ((v = at_default i \<and> none_ok i) \<or>
      (case v of
         PList xs \<Rightarrow> (at_empty i \<or> xs \<noteq> []) \<and>
                    (items = [] \<or> list_all (\<lambda>x. list_ex (\<lambda>a. conforms a x) items) xs)
       | _ \<Rightarrow> False))"
| "conforms (ADict k i additional upd attrs) v =
     ((v = PNone \<and> none_ok i) \<or>
      (case v of
         PDict d \<Rightarrow> (additional \<or> set (dict_keys d) \<subseteq> fst ` set attrs) \<and>
                   list_all (\<lambda>(key, a). case map_of d key of
                       None \<Rightarrow> upd \<or> \<not> filled_in a
                     | Some x \<Rightarrow> conforms a x) attrs
       | _ \<Rightarrow> False))"
| "conforms (ARef nm) v = False"
| "conforms (APatch nm newname patches reg) v = False"

lemma EnumMixin_clean_Inr:
  assumes "EnumMixin_clean i enum v = Inr x"
  shows "x = PNone \<Longrightarrow> none_ok i"
    and "case x of PList _ \<Rightarrow> False | PTuple _ \<Rightarrow> False | PNone \<Rightarrow> False | _ \<Rightarrow> True \<Longrightarrow>
           chosen enum (\<lambda>y. y = x)"
    and "Attribute_clean i v = Inr x"
proof -
  from assms show A: "Attribute_clean i v = Inr x"
    by (auto simp: EnumMixin_clean_def Let_def res_simps split: option.splits if_splits)
  from Attribute_clean_Inr [OF A] show "x = PNone \<Longrightarrow> none_ok i"
    by (auto simp: none_ok_def)
  show "case x of PList _ \<Rightarrow> False | PTuple _ \<Rightarrow> False | PNone \<Rightarrow> False | _ \<Rightarrow> True \<Longrightarrow>
           chosen enum (\<lambda>y. y = x)"
    using assms A by (auto simp: EnumMixin_clean_def chosen_def Let_def split: option.splits if_splits pyval.splits)
qed

lemma Str_clean_Inr:
  assumes "Str_clean i enum v = Inr x"
  shows "(x = PNone \<and> none_ok i) \<or>
         (\<exists>s. x = PStr s \<and> (at_empty i \<or> s \<noteq> []) \<and>
            chosen enum (\<lambda>y. y = PStr s \<or> (\<exists>n. y = PInt n \<and> s = str_of_int n)))"
proof -
  obtain y where y: "EnumMixin_clean i enum v = Inr y"
    using assms by (auto simp: Str_clean_def res_simps)
  note en = EnumMixin_clean_Inr [OF y]
  from assms y en(1,2) show ?thesis
    by (cases y) (auto simp: Str_clean_def chosen_def split: if_splits option.splits)
qed

lemma normpath_nonempty [simp]: "normpath s \<noteq> []"
  by (simp add: normpath_def Let_def)

lemma parse_time_Inr:
  "parse_time v = Inr w \<Longrightarrow> \<exists>h m. w = PTime h m \<and> 0 \<le> h \<and> h \<le> 23 \<and> 0 \<le> m \<and> m \<le> 59"
  by (auto simp: parse_time_def make_time_def res_simps split: pyval.splits list.splits if_splits)

lemma IPAddr_finish_Inr: "IPAddr_finish L i opts s = Inr w \<Longrightarrow> \<exists>t. w = PStr t"
  unfolding IPAddr_finish_def
  by (cases "ip_factory opts") (auto split: if_split_asm sum.split_asm)

lemma AStr_clean_conforms:
  assumes "AStr_clean L kind i enum v = Inr w"
  shows "conforms (AStr kind i enum n) w"
proof -
  obtain x where x: "Str_clean i enum v = Inr x"
    using assms by (auto simp: AStr_clean_def res_simps)
  from Str_clean_Inr [OF x] consider (none) "x = PNone" "none_ok i"
    | (str) s where "x = PStr s" "at_empty i \<or> s \<noteq> []"
        "chosen enum (\<lambda>y. y = PStr s \<or> (\<exists>n. y = PInt n \<and> s = str_of_int n))"
    by blast
  then show ?thesis
  proof cases
    case none
    with assms x show ?thesis by (simp add: AStr_clean_def)
  next
    case (str s)
    have w: "(case kind of KPath \<Rightarrow> Inr (PStr (Path_normalise s)) | KIPAddr opts \<Rightarrow> IPAddr_finish L i opts s
              | KTime \<Rightarrow> parse_time (PStr s) | _ \<Rightarrow> Inr (PStr s)) = Inr w"
      using assms x str(1) by (simp add: AStr_clean_def)
    show ?thesis
    proof (cases kind)
      case KPath
      with w show ?thesis by (auto simp: str_conforms_def Path_normalise_def)
    next
      case (KIPAddr opts)
      with w IPAddr_finish_Inr [of L i opts s w] show ?thesis by (auto simp: str_conforms_def)
    next
      case KTime
      with w parse_time_Inr [of "PStr s" w] show ?thesis by (auto simp: str_conforms_def)
    qed (use w str in \<open>auto simp: str_conforms_def\<close>)
  qed
qed

lemma Int_clean_conforms:
  assumes "Int_clean i enum v = Inr w"
  shows "conforms (AInt i enum) w"
proof -
  obtain x where x: "EnumMixin_clean i enum v = Inr x"
    using assms by (auto simp: Int_clean_def res_simps)
  note en = EnumMixin_clean_Inr [OF x]
  from assms x en(1,2) show ?thesis
    by (cases x) (auto simp: Int_clean_def chosen_def res_simps split: if_splits option.splits)
qed

lemma Float_clean_conforms:
  assumes "Float_clean L i enum v = Inr w"
  shows "conforms (AFloat i enum) w"
proof -
  obtain x where "EnumMixin_clean i enum v = Inr x"
    using assms by (auto simp: Float_clean_def res_simps)
  with assms show ?thesis
    by (cases x; cases "lib_float L x") (auto simp: Float_clean_def Let_def split: if_split_asm)
qed

lemma Bool_clean_conforms:
  assumes "Bool_clean i v = Inr w"
  shows "conforms (ABool i) w"
proof -
  obtain x where x: "Attribute_clean i v = Inr x"
    using assms by (auto simp: Bool_clean_def res_simps)
  with assms show ?thesis
    by (cases x) (auto simp: Bool_clean_def none_ok_def dest: Attribute_clean_Inr)
qed

lemma List_clean_Inr:
  assumes "List_clean i enum cs v = Inr w"
  obtains (default) "w = at_default i" "none_ok i" "v = Some PNone \<or> (v = None \<and> at_default i = PNone)"
  | (list) xs ys where "EnumMixin_clean i enum v = Inr (PList xs)" "w = PList ys"
      "at_empty i \<or> xs \<noteq> []" "cs = [] \<longrightarrow> ys = xs" "cs \<noteq> [] \<longrightarrow> list_loop (at_name i) cs 0 xs = Inr ys"
proof -
  obtain x where x: "EnumMixin_clean i enum v = Inr x"
    using assms by (auto simp: List_clean_def split: sum.splits)
  note en = EnumMixin_clean_Inr [OF x]
  show ?thesis
  proof (cases x)
    case PNone
    then show ?thesis
      using assms x en default by (auto simp: List_clean_def dest: Attribute_clean_Inr)
  next
    case (PList xs)
    with assms x list [of xs] show ?thesis
      by (auto simp: List_clean_def split: if_splits sum.splits prod.splits)
  qed (use assms x in \<open>auto simp: List_clean_def\<close>)
qed

lemma clean_keeps_promise:
  assumes "wf_attr a" and "clean L a v = Inr w"
  shows "conforms a w"
  using assms
proof (induction L a arbitrary: v w rule: clean.induct)
  case (1 L i)
  then show ?case by (auto simp: none_ok_def dest: Attribute_clean_Inr)
next
  case (6 L i enum items u)
  from "6.prems"(2) have "List_clean i enum (map (clean L) items) v = Inr w" by simp
  then show ?case
  proof (cases rule: List_clean_Inr)
    case (list xs ys)
    have "list_all (\<lambda>y. list_ex (\<lambda>a. conforms a y) items) ys" if "items \<noteq> []"
      using list_loop_Inr [of "at_name i" "map (clean L) items" 0 xs ys] list that "6.IH" "6.prems"(1)
      by (fastforce simp: list_all_iff list_ex_iff)
    moreover have "at_empty i \<or> ys \<noteq> []"
      using list list_loop_Inr [of "at_name i" "map (clean L) items" 0 xs ys] by (cases "items = []") auto
    ultimately show ?thesis using list by auto
  qed auto
next
  case (7 L k i additional upd attrs)
  let ?flds = "map (\<lambda>(key, a). (key, as_field L a)) attrs"
  have nm: "list_all (\<lambda>(key, f). fl_name f = key) ?flds" and dist: "distinct (map fst ?flds)"
    using "7.prems"(1) fields_of_attrs [of attrs L] by simp_all
  from "7.prems"(2) have "Dict_clean i additional upd ?flds v = Inr w" by (simp only: clean_ADict)
  then show ?case
  proof (cases rule: Dict_clean_Inr [OF _ nm dist, consumes 1, case_names none dict])
    case none
    then show ?thesis by (auto simp: none_ok_def)
  next
    case (dict data data')
    have keys: "additional \<or> set (dict_keys data') \<subseteq> fst ` set attrs"
      using cleaned_dict_keys [OF dict(3)] by (simp add: image_image case_prod_unfold)
    have "case map_of data' key of None \<Rightarrow> upd \<or> \<not> filled_in a | Some x \<Rightarrow> conforms a x"
      if mem: "(key, a) \<in> set attrs" for key a
    proof -
      have "map_of attrs key = Some a" using mem "7.prems"(1) by simp
      then have f: "map_of ?flds key = Some (as_field L a)" by simp
      have wf: "wf_attr a" using mem "7.prems"(1) by (auto simp: list_all_iff)
      have "conforms a x" if x: "map_of data' key = Some x" for x
      proof -
        obtain u where "clean L a u = Inr x"
          using cleaned_dict_value [OF dict(3) f x] by (auto simp: from_clean_def)
        then show ?thesis using "7.IH" [OF mem refl wf] by blast
      qed
      moreover have "upd \<or> \<not> filled_in a" if "map_of data' key = None"
        using cleaned_dict_fill [OF dict(3) f] that by auto
      ultimately show ?thesis by (auto split: option.splits)
    qed
    with keys dict(2) show ?thesis by (auto simp: list_all_iff)
  qed
next
  case (2 L kind i enum n)
  then show ?case using AStr_clean_conforms [of L kind i enum v w n] by (simp del: conforms.simps)
next
  case (3 L i)
  then show ?case using Bool_clean_conforms [of i v w] by (simp del: conforms.simps)
next
  case (4 L i enum)
  then show ?case using Int_clean_conforms [of i enum v w] by (simp del: conforms.simps)
next
  case (5 L i enum)
  then show ?case using Float_clean_conforms [of L i enum v w] by (simp del: conforms.simps)
qed simp_all

text \<open>
  (C6) A value that \<open>clean\<close> returns has the shape its schema promises: the right type at every
  level (texts, integers, times, lists whose items match one of the item types, dictionaries), no
  unexpected key unless additional ones are allowed, every required or defaulted attribute present
  unless the schema is for an update, \<open>None\<close> only where allowed, and choices among the enumerated.
\<close>

theorem clean_conforms:
  assumes "wf_attr a" and "clean L a v = Inr w"
  shows "conforms a w"
  using assms by (rule clean_keeps_promise)

theorem clean_conforms_witness:
  "conforms (ADict KDict (Attribute_defaults ''x'') False False
       [(''name'', AStr KStr (Attribute_defaults ''name''\<lparr>at_required := True\<rparr>) None 1024),
        (''n'', AInt (Attribute_defaults ''n''\<lparr>at_has_default := True, at_default := PInt 5\<rparr>) None)])
     (PDict [(''name'', PStr ''a''), (''n'', PInt 5)])"
  by (rule clean_conforms [where L = sample_lib and v = "Some (PDict [(''name'', PStr ''a'')])"])
     (simp_all add: eval_clean)

section \<open>Cleaning twice\<close>





















text \<open>
  (C22) A schema for updates adds nothing: whatever keys the caller gave come back, in the same order,
  and no default is filled in for the others.
\<close>

theorem clean_update_keys:
  assumes "clean L (ADict k i additional True attrs) (Some (PDict data)) = Inr w"
  shows "\<exists>data'. w = PDict data' \<and> dict_keys data' = dict_keys data"
proof -
  let ?flds = "map (\<lambda>(key, a). (key, as_field L a)) attrs"
  from assms have "Dict_clean i additional True ?flds (Some (PDict data)) = Inr w"
    by (simp only: clean_ADict)
  then obtain data' where "w = PDict data'" and "fields_loop additional ?flds data data = Inr data'"
    by (auto simp: Dict_clean_def Attribute_clean_def split: sum.split_asm)
  with fields_loop_Inr(1) [of additional ?flds data data data'] show ?thesis
    by (simp add: dict_keys_fst)
qed

theorem clean_update_keys_witness:
  "\<exists>data'. PDict [(''n'', PInt 7)] = PDict data' \<and> dict_keys data' = dict_keys [(''n'', PStr ''7'')]"
  by (rule clean_update_keys [where L = sample_lib and k = KDict and i = "Attribute_defaults ''x''"
        and additional = False
        and attrs = "[(''n'', AInt (Attribute_defaults ''n'') None),
                      (''m'', AInt (Attribute_defaults ''m''\<lparr>at_has_default := True, at_default := PInt 5\<rparr>) None)]"])
     (simp add: eval_clean)

section \<open>What a dump reveals\<close>


lemma map_of_dumps [simp]:
  "map_of (map (\<lambda>(key, a). (key, f a)) attrs) k = map_option f (map_of attrs k)"
  by (induction attrs) auto




section \<open>Lists of dictionaries without duplicates\<close>







end
