(* ===== verification/Resolve.thy ===== *)
theory Resolve
  imports Schema_Laws
begin

text \<open>
  How schemas are built and connected in \<open>schema.py\<close>: the constructors with their keyword arguments,
  \<open>copy\<close>, the registry \<open>Schemas\<close>, the placeholders \<open>Ref\<close> and \<open>Patch\<close>, \<open>resolve_methods\<close> that replaces
  them once all plugins are loaded, the decorator \<open>accepts\<close> that cleans and validates the arguments of
  a method, the conversions of \<open>Cron\<close> schedules, and \<open>validate_attributes\<close> of \<open>validators.py\<close>.

  \<^item> The registry maps names to attributes. An attribute is registered when everything inside it is
    resolved and nothing changes it later, so the registry holds values, not references.
  \<^item> \<open>resolve\<close> works in place: an exception leaves what was resolved so far. It returns the registry,
    the attribute as it is then, and the exception if one was raised.
  \<^item> The methods a \<open>Patch\<close> with \<open>edit\<close> calls on an attribute are named; \<open>edits\<close> gives their effect.
    Editing resolves the edited attribute, which may again be a placeholder; \<open>depth\<close> bounds this
    recursion as the interpreter's recursion limit does.
\<close>

section \<open>Constructors\<close>

definition kw_flag :: "pydict \<Rightarrow> string \<Rightarrow> bool \<Rightarrow> bool" where
  "kw_flag kw k dflt = (case map_of kw k of None \<Rightarrow> dflt | Some v \<Rightarrow> truthy v)"

definition kw_text :: "pydict \<Rightarrow> string \<Rightarrow> string option" where
  "kw_text kw k = (case map_of kw k of Some (PStr (c # cs)) \<Rightarrow> Some (c # cs) | _ \<Rightarrow> None)"

definition init_keys :: "string list" where
  "init_keys = [''title'', ''description'', ''required'', ''null'', ''empty'', ''private'', ''validators'',
     ''register'', ''hidden'', ''default'']"

text \<open>\<open>Attribute.__init__\<close> with keyword arguments; validator objects are no values of the model.\<close>

definition Attribute_init :: "string \<Rightarrow> pydict \<Rightarrow> attr_info res" where
  "Attribute_init nm kw =
     (if \<not> list_all (\<lambda>k. k \<in> set init_keys) (dict_keys kw) then Inl TypeError
      else Inr \<lparr>at_name = nm, at_has_default = map_of kw ''default'' \<noteq> None,
                at_default = dict_get kw ''default'', at_required = kw_flag kw ''required'' False,
                at_null = kw_flag kw ''null'' False, at_empty = kw_flag kw ''empty'' True,
                at_private = kw_flag kw ''private'' False,
                at_title = (case kw_text kw ''title'' of Some t \<Rightarrow> t | None \<Rightarrow> nm),
                at_description = kw_text kw ''description'', at_validators = [],
                at_register = kw_flag kw ''register'' False, at_hidden = kw_flag kw ''hidden'' False\<rparr>)"








text \<open>The checks \<open>Dict.__init__\<close> makes in strict mode.\<close>

fun strict_check :: "(string \<times> attr) list \<Rightarrow> unit res" where
  "strict_check [] = Inr ()"
| "strict_check ((k, a) # attrs) =
     (case info a of
        None \<Rightarrow> Inl AttributeError
      | Some i \<Rightarrow>
          if at_required i then
            if at_has_default i
            then Inl (ValueError [Txt ''Attribute '', Txt (at_name i),
                   Txt '' is required and has default value at the same time, this is forbidden in strict mode''])
            else strict_check attrs
          else if \<not> at_has_default i
          then Inl (ValueError [Txt ''Attribute '', Txt (at_name i),
                 Txt '' is not required and does not have default value, this is forbidden in strict mode''])
          else strict_check attrs)"

definition store_attrs :: "attr list \<Rightarrow> (string \<times> attr) list" where
  "store_attrs attrs = fold (\<lambda>a d. AList.update (attr_name a) a d) attrs []"

definition mk_Dict :: "string \<Rightarrow> attr list \<Rightarrow> pydict \<Rightarrow> attr res" where
  "mk_Dict nm attrs kw =
     (let kw1 = AList.delete ''additional_attrs'' (AList.delete ''strict'' (AList.delete ''update'' kw));
          kw2 = (if map_of kw1 ''default'' = None then AList.update ''default'' (PDict []) kw1 else kw1)
      in rbind (Attribute_init nm kw2) (\<lambda>i.
           rbind (if kw_flag kw ''strict'' False then strict_check (store_attrs attrs) else Inr ()) (\<lambda>_.
             Inr (ADict KDict i (kw_flag kw ''additional_attrs'' False) (kw_flag kw ''update'' False)
                    (store_attrs attrs)))))"

text \<open>
  \<open>Cron.__init__\<close> pops \<open>additional_attrs\<close> and \<open>update\<close>, and \<open>Dict.__init__\<close>, called without them,
  assigns both attributes again.
\<close>

definition mk_Cron :: "string \<Rightarrow> pydict \<Rightarrow> string list \<Rightarrow> pydict \<Rightarrow> bool \<Rightarrow> attr res" where
  "mk_Cron nm kw exclude defaults begin_end =
     rbind (mk_Dict nm [] (AList.delete ''additional_attrs'' (AList.delete ''update'' kw))) (\<lambda>d.
       let field = (\<lambda>kind k dflt. (k, AStr kind ((Attribute_defaults k)\<lparr>at_has_default := True,
                       at_default := (case map_of defaults k of Some v \<Rightarrow> v | None \<Rightarrow> PStr dflt)\<rparr>) None 1024));
           attrs = map (\<lambda>f. field KStr f ''*'') (filter (\<lambda>f. f \<notin> set exclude) Cron_FIELDS) @
                   (if begin_end then [field KTime ''begin'' ''00:00'', field KTime ''end'' ''23:59''] else [])
       in case d of
            ADict k i additional upd _ \<Rightarrow> Inr (ADict (KCron begin_end) i additional upd attrs)
          | _ \<Rightarrow> Inl TypeError)"

section \<open>Copies and the registry\<close>

fun set_register :: "bool \<Rightarrow> attr \<Rightarrow> attr" where
  "set_register b (AAny i) = AAny (i\<lparr>at_register := b\<rparr>)"
| "set_register b (AStr k i enum n) = AStr k (i\<lparr>at_register := b\<rparr>) enum n"
| "set_register b (ABool i) = ABool (i\<lparr>at_register := b\<rparr>)"
| "set_register b (AInt i enum) = AInt (i\<lparr>at_register := b\<rparr>) enum"
| "set_register b (AFloat i enum) = AFloat (i\<lparr>at_register := b\<rparr>) enum"
| "set_register b (AList i enum items u) = AList (i\<lparr>at_register := b\<rparr>) enum items u"
| "set_register b (ADict k i additional upd attrs) = ADict k (i\<lparr>at_register := b\<rparr>) additional upd attrs"
| "set_register b a = a"




section \<open>Resolving\<close>


text \<open>\<open>setattr(schema, key, val)\<close>; other keys add attributes nothing reads.\<close>

definition set_attribute :: "string \<times> pyval \<Rightarrow> attr \<Rightarrow> attr" where
  "set_attribute kv a =
     (case (a, kv) of
        (ADict k i additional upd attrs, key, v) \<Rightarrow>
          if key = ''update'' then ADict k i additional (truthy v) attrs
          else if key = ''additional_attrs'' then ADict k i (truthy v) upd attrs
          else if key = ''required'' then ADict k (i\<lparr>at_required := truthy v\<rparr>) additional upd attrs
          else if key = ''null'' then ADict k (i\<lparr>at_null := truthy v\<rparr>) additional upd attrs
          else if key = ''private'' then ADict k (i\<lparr>at_private := truthy v\<rparr>) additional upd attrs
          else if key = ''hidden'' then ADict k (i\<lparr>at_hidden := truthy v\<rparr>) additional upd attrs
          else if key = ''register'' then ADict k (i\<lparr>at_register := truthy v\<rparr>) additional upd attrs
          else if key = ''default'' then ADict k (i\<lparr>at_default := v\<rparr>) additional upd attrs
          else if key = ''has_default'' then ADict k (i\<lparr>at_has_default := truthy v\<rparr>) additional upd attrs
          else a
      | _ \<Rightarrow> a)"




section \<open>Methods\<close>











section \<open>Everything is resolved in the end\<close>

fun resolved_attr :: "attr \<Rightarrow> bool" where
  "resolved_attr (AList i enum items u) = list_all resolved_attr items"
| "resolved_attr (ADict k i additional upd attrs) = list_all (\<lambda>(key, a). resolved_attr a) attrs"
| "resolved_attr (ARef nm) = False"
| "resolved_attr (APatch nm newname patches reg) = False"
| "resolved_attr a = True"








lemma resolved_set_register [simp]: "resolved_attr (set_register b a) = resolved_attr a"
  by (cases a) auto





lemma set_attribute_dict:
  "\<exists>k' i' additional' upd'. set_attribute kv (ADict k i additional upd attrs) = ADict k' i' additional' upd' attrs"
  by (cases kv) (auto simp: set_attribute_def)

lemma set_attribute_resolved [simp]: "resolved_attr (set_attribute kv a) = resolved_attr a"
proof (cases a)
  case (ADict k i additional upd attrs)
  with set_attribute_dict [of kv k i additional upd attrs] show ?thesis by auto
qed (auto simp: set_attribute_def)

lemma fold_set_attribute_resolved [simp]: "resolved_attr (fold set_attribute kvs a) = resolved_attr a"
  by (induction kvs arbitrary: a) auto




















section \<open>Passwords\<close>





end
