(* ===== verification/Accepts.thy ===== *)
theory Accepts
  imports Resolve
begin

text \<open>
  The decorator \<open>accepts\<close> of \<open>schema.py\<close> (the wrapper that cleans and validates the arguments of every
  public method), the conversions between \<open>Cron\<close> schedules and database columns, and
  \<open>validate_attributes\<close> of \<open>validators.py\<close>.
\<close>

section \<open>Arguments of a method\<close>

text \<open>The check of \<open>accepts\<close> itself: no visible parameter after a hidden one.\<close>

fun hidden_check :: "bool \<Rightarrow> attr list \<Rightarrow> unit res" where
  "hidden_check further_only_hidden [] = Inr ()"
| "hidden_check further_only_hidden (a # as) =
     (if (case info a of Some i \<Rightarrow> at_hidden i | None \<Rightarrow> False) then hidden_check True as
      else if further_only_hidden
      then Inl (ValueError [Txt (''You can'' @ [CHR 0x27] @ ''t have non-hidden arguments after hidden'')])
      else hidden_check further_only_hidden as)"

text \<open>
  Cleaning and validating one value. Errors of \<open>validate\<close> are collected, every other exception
  escapes.
\<close>

definition check_value :: "'z slib_scheme \<Rightarrow> attr \<Rightarrow> pyval option \<Rightarrow> verrors \<Rightarrow> (pyval \<times> verrors) res" where
  "check_value L a v verrors =
     (case clean L a v of
        Inl (e, _) \<Rightarrow> Inl e
      | Inr w \<Rightarrow>
          (case validate L a w of
             Inr _ \<Rightarrow> Inr (w, verrors)
           | Inl (Validations es) \<Rightarrow> Inr (w, ve_extend verrors es)
           | Inl e \<Rightarrow> Inl e))"

text \<open>
  The loop over the positional arguments; more arguments than parameters raise \<open>IndexError\<close>. It
  also returns the parameters that are left.
\<close>

fun positional ::
    "'z slib_scheme \<Rightarrow> attr list \<Rightarrow> pyval list \<Rightarrow> verrors \<Rightarrow> (pyval list \<times> attr list \<times> verrors) res" where
  "positional L attrs [] verrors = Inr ([], attrs, verrors)"
| "positional L [] (x # xs) verrors = Inl IndexError"
| "positional L (a # attrs) (x # xs) verrors =
     rbind (check_value L a (Some x) verrors) (\<lambda>(w, verrors1).
       rbind (positional L attrs xs verrors1) (\<lambda>(ws, rest, verrors2). Inr (w # ws, rest, verrors2)))"

text \<open>
  The loop over the names of the parameters that are left. A keyword argument that has no
  parameter raises \<open>IndexError\<close>; a name without parameter and argument is skipped.
\<close>

fun keywords_loop ::
    "'z slib_scheme \<Rightarrow> attr list \<Rightarrow> string list \<Rightarrow> pydict \<Rightarrow> verrors \<Rightarrow> (pydict \<times> verrors) res" where
  "keywords_loop L attrs [] kwargs verrors = Inr (kwargs, verrors)"
| "keywords_loop L [] (nm # nms) kwargs verrors =
     (if map_of kwargs nm \<noteq> None then Inl IndexError else keywords_loop L [] nms kwargs verrors)"
| "keywords_loop L (a # attrs) (nm # nms) kwargs verrors =
     rbind (check_value L a (map_of kwargs nm) verrors) (\<lambda>(w, verrors1).
       keywords_loop L attrs nms (AList.update nm w kwargs) verrors1)"

text \<open>
  \<open>clean_and_validate_args\<close> for a method with the parameter names \<open>names\<close> (those after \<open>self\<close>, the
  application and the job); the arguments are deep copies, so the caller's values stay.
\<close>

definition clean_and_validate_args ::
    "'z slib_scheme \<Rightarrow> attr list \<Rightarrow> string list \<Rightarrow> pyval list \<Rightarrow> pydict \<Rightarrow> (pyval list \<times> pydict) res" where
  "clean_and_validate_args L accepts names args kwargs =
     rbind (positional L accepts args []) (\<lambda>(args1, rest, verrors1).
       rbind (keywords_loop L rest (drop (length args) names) kwargs verrors1) (\<lambda>(kwargs1, verrors2).
         if verrors2 \<noteq> [] then Inl (Validations verrors2) else Inr (args1, kwargs1)))"

lemma check_value_Inr:
  assumes "check_value L a v verrors = Inr (w, verrors')"
  shows "clean L a v = Inr w" and "\<exists>es. verrors' = verrors @ es \<and> (es = [] \<longrightarrow> validate L a w \<in> {Inr (), Inl (Validations [])})"
  using assms by (auto simp: check_value_def split: sum.split_asm prod.split_asm exn.split_asm)

lemma check_value_prefix:
  "check_value L a v verrors = Inr (w, verrors') \<Longrightarrow> \<exists>es. verrors' = verrors @ es"
  using check_value_Inr(2) by blast

lemma positional_Inr:
  "positional L attrs xs verrors = Inr (ws, rest, verrors') \<Longrightarrow>
     length ws = length xs \<and> length xs \<le> length attrs \<and> rest = drop (length xs) attrs \<and>
     (\<exists>es. verrors' = verrors @ es) \<and>
     (\<forall>n < length xs. clean L (attrs ! n) (Some (xs ! n)) = Inr (ws ! n))"
proof (induction L attrs xs verrors arbitrary: ws rest verrors' rule: positional.induct)
  case (3 L a attrs x xs verrors)
  then obtain w verrors1 ws1 where c: "check_value L a (Some x) verrors = Inr (w, verrors1)"
    and p: "positional L attrs xs verrors1 = Inr (ws1, rest, verrors')" and ws: "ws = w # ws1"
    by (auto simp: res_simps)
  from "3.IH" [OF c refl p] check_value_prefix [OF c] check_value_Inr(1) [OF c] ws show ?case
    by (auto simp: nth_Cons split: nat.splits)
qed auto

lemma keywords_loop_Inr:
  "keywords_loop L attrs nms kwargs verrors = Inr (kwargs', verrors') \<Longrightarrow>
     length attrs = length nms \<Longrightarrow> distinct nms \<Longrightarrow>
     (\<exists>es. verrors' = verrors @ es) \<and>
     (\<forall>k. k \<notin> set nms \<longrightarrow> map_of kwargs' k = map_of kwargs k) \<and>
     (\<forall>n < length nms. \<exists>w. clean L (attrs ! n) (map_of kwargs (nms ! n)) = Inr w \<and>
        map_of kwargs' (nms ! n) = Some w)"
proof (induction L attrs nms kwargs verrors arbitrary: kwargs' verrors' rule: keywords_loop.induct)
  case (3 L a attrs nm nms kwargs verrors)
  then obtain w verrors1 where c: "check_value L a (map_of kwargs nm) verrors = Inr (w, verrors1)"
    and k: "keywords_loop L attrs nms (AList.update nm w kwargs) verrors1 = Inr (kwargs', verrors')"
    by (auto simp: res_simps)
  have len: "length attrs = length nms" and dist: "distinct nms" and nm: "nm \<notin> set nms"
    using "3.prems"(2,3) by auto
  note IH = "3.IH" [OF c refl k len dist]
  have "map_of (AList.update nm w kwargs) (nms ! n) = map_of kwargs (nms ! n)" if "n < length nms" for n
    using that nm nth_mem [OF that] by (metis map_of_update)
  with IH check_value_prefix [OF c] check_value_Inr(1) [OF c] nm show ?case
    by (auto simp: nth_Cons split: nat.splits)
qed auto

text \<open>
  (C7) A method body sees only cleaned arguments: when the wrapper lets a call through, every
  parameter has a value (positional, keyword or default), that value has the shape its schema
  promises, and the positional arguments are neither more nor fewer than those given.
\<close>

theorem accepted_arguments_conform:
  assumes "clean_and_validate_args L accepts names args kwargs = Inr (args', kwargs')"
    and "length accepts = length names" and "distinct names" and "list_all wf_attr accepts"
  shows "length args' = length args \<and> length args \<le> length names \<and>
         (\<forall>n < length names.
            \<exists>w. (if n < length args then args' ! n = w else map_of kwargs' (names ! n) = Some w) \<and>
                conforms (accepts ! n) w)"
proof -
  obtain rest verrors1 verrors2 where p: "positional L accepts args [] = Inr (args', rest, verrors1)"
    and k: "keywords_loop L rest (drop (length args) names) kwargs verrors1 = Inr (kwargs', verrors2)"
    using assms(1) unfolding clean_and_validate_args_def rbind_Inr
    by (clarsimp simp: rbind_Inr split: if_split_asm)
  note pos = positional_Inr [OF p]
  have rest: "rest = drop (length args) accepts" using pos by blast
  then have "length rest = length (drop (length args) names)" using assms(2) by simp
  note kw = keywords_loop_Inr [OF k this distinct_drop [OF assms(3)]]
  have wf: "wf_attr (accepts ! n)" if "n < length names" for n
    using that assms(2,4) by (simp add: list_all_length)
  have "\<exists>w. (if n < length args then args' ! n = w else map_of kwargs' (names ! n) = Some w) \<and>
            conforms (accepts ! n) w" if n: "n < length names" for n
  proof (cases "n < length args")
    case True
    with pos have "clean L (accepts ! n) (Some (args ! n)) = Inr (args' ! n)" by blast
    then have "conforms (accepts ! n) (args' ! n)"
      using clean_keeps_promise [OF wf [OF n]] by blast
    with True show ?thesis by simp
  next
    case False
    then have m: "n - length args < length (drop (length args) names)" using n by simp
    have nm: "drop (length args) names ! (n - length args) = names ! n" using False n by simp
    obtain w where "clean L (rest ! (n - length args)) (map_of kwargs (names ! n)) = Inr w"
      and "map_of kwargs' (names ! n) = Some w"
      using conjunct2 [OF conjunct2 [OF kw], rule_format, OF m] unfolding nm by blast
    moreover have "rest ! (n - length args) = accepts ! n"
      using rest False n assms(2) by simp
    ultimately show ?thesis
      using False clean_keeps_promise [OF wf [OF n]] by auto
  qed
  with pos assms(2) show ?thesis by auto
qed

theorem accepted_arguments_conform_witness:
  "conforms (AInt (Attribute_defaults ''m''\<lparr>at_has_default := True, at_default := PInt 5\<rparr>) None) (PInt 5)"
proof -
  have "clean_and_validate_args sample_lib [AInt (Attribute_defaults ''n'') None,
      AInt (Attribute_defaults ''m''\<lparr>at_has_default := True, at_default := PInt 5\<rparr>) None]
      [''n'', ''m''] [PStr ''7''] [] = Inr ([PInt 7], [(''m'', PInt 5)])"
    by (simp add: clean_and_validate_args_def check_value_def eval_clean Attribute_validate_def ve_check_def)
  from accepted_arguments_conform [OF this] show ?thesis
    by (auto dest!: spec [of _ "Suc 0"] simp del: conforms.simps)
qed

section \<open>Schedules and database columns\<close>












section \<open>Attributes of a polymorphic object\<close>

text \<open>
  \<open>validate_attributes\<close>: the collected errors and the data afterwards. A failing \<open>clean\<close> leaves the
  attributes as they are at that moment, and they are validated all the same.
\<close>

definition validate_attributes ::
    "'z slib_scheme \<Rightarrow> attr list \<Rightarrow> pydict \<Rightarrow> bool \<Rightarrow> string \<Rightarrow> (verrors \<times> pydict) res" where
  "validate_attributes L schema data additional_attrs attr_key =
     rbind (dict_item data attr_key) (\<lambda>v.
       let d = ADict KDict ((Attribute_defaults ''attributes'')\<lparr>at_has_default := True, at_default := PDict []\<rparr>)
                 additional_attrs False (store_attrs schema)
       in rbind (case clean L d (Some v) of
                   Inr w \<Rightarrow> Inr ([], w)
                 | Inl (SchemaError a m n, v') \<Rightarrow> Inr (ve_add [] a m n, after v v')
                 | Inl (e, v') \<Rightarrow> Inl e) (\<lambda>(verrors, w).
            case validate L d w of
              Inr _ \<Rightarrow> Inr (verrors, AList.update attr_key w data)
            | Inl (Validations es) \<Rightarrow> Inr (ve_extend verrors es, AList.update attr_key w data)
            | Inl e \<Rightarrow> Inl e))"

end
