(* ===== verification/Jobs.thy ===== *)
theory Jobs
  imports Schema
begin

text \<open>
  Long running calls, \<open>job.py\<close>: the \<open>Job\<close> object, the shared locks, the deque of known jobs and the
  queue with its scheduler, and the methods of \<open>CoreService\<close> on jobs. (\<open>JobProgressBuffer\<close> is in the theory \<open>Progress\<close>.)

  \<^item> Jobs and locks are objects with identity: they live in two stores, and a reference is the number
    of the object. A \<open>JobsQueue\<close> is the record of its fields together with the stores, the events sent,
    the log files that exist, and for every job where its \<open>run\<close> coroutine stands.
  \<^item> One definition is what the event loop runs without interruption, from one \<open>await\<close> to the next: a
    pass of \<open>JobsQueue.next\<close>, the beginning of \<open>Job.run\<close>, the end of the body, the \<open>finally\<close> clause.
  \<^item> What a method of a service does is its outcome: a value, an exception, or a cancellation. The text
    and the traceback of an exception, the clock and the contents of a log file are parameters.
\<close>

section \<open>Objects\<close>

datatype job_state = WAITING | RUNNING | SUCCESS | FAILED | ABORTED

fun state_name :: "job_state \<Rightarrow> string" where
  "state_name WAITING = ''WAITING''"
| "state_name RUNNING = ''RUNNING''"
| "state_name SUCCESS = ''SUCCESS''"
| "state_name FAILED = ''FAILED''"
| "state_name ABORTED = ''ABORTED''"

definition terminal :: "job_state \<Rightarrow> bool" where
  "terminal st \<longleftrightarrow> st \<in> {SUCCESS, FAILED, ABORTED}"

lemma terminal_simps [simp]:
  "\<not> terminal WAITING" "\<not> terminal RUNNING" "terminal SUCCESS" "terminal FAILED" "terminal ABORTED"
  by (simp_all add: terminal_def)

text \<open>The lock of a job method: none, a name, or a function of the arguments.\<close>

datatype lock_option = NoLock | LockName string | LockOf "pyval list \<Rightarrow> string option"

text \<open>What the decorator \<open>job\<close> of \<open>service.py\<close> stores on a method.\<close>

record job_options =
  opt_lock :: lock_option
  opt_lock_queue_size :: "int option"
  opt_logs :: bool
  opt_process :: bool
  opt_pipes :: "string list"
  opt_check_pipes :: bool
  opt_transient :: bool
  opt_abortable :: bool

definition job_decorator :: job_options where
  "job_decorator = \<lparr>opt_lock = NoLock, opt_lock_queue_size = None, opt_logs = False, opt_process = False,
     opt_pipes = [], opt_check_pipes = True, opt_transient = False, opt_abortable = False\<rparr>"

text \<open>A pipe with its two ends, open or closed; the pipes of a job.\<close>

record pipe =
  pipe_r :: bool
  pipe_w :: bool

record pipes =
  pipe_input :: "pipe option"
  pipe_output :: "pipe option"

text \<open>
  What \<open>dump_args\<close> reads of a method: its name, its schemas when it has any, and the schemas of the
  method \<open>do_<name>\<close> of the same object when there is one.
\<close>

record pymethod =
  meth_name :: string
  meth_accepts :: "attr list option"
  meth_child :: "attr list option option"

record progress =
  p_percent :: pyval
  p_description :: pyval
  p_extra :: pyval

record job =
  j_method_name :: string
  j_method :: pymethod
  j_args :: "pyval list"
  j_options :: job_options
  j_pipes :: pipes
  j_on_progress_cb :: bool
  j_id :: "int option"
  j_lock :: "nat option"
  j_result :: pyval
  j_error :: "string option"
  j_exception :: "string option"
  j_exc_info :: "exn option"
  j_aborted :: bool
  j_state :: job_state
  j_progress :: progress
  j_time_started :: int
  j_time_finished :: "int option"
  j_future :: bool
  j_cancel_requested :: bool
  j_logs_path :: "string option"
  j_logs_fd :: "bool option"
  j_logs_excerpt :: "string option"
  j_finished :: bool

record shared_lock =
  lk_name :: string
  lk_jobs :: "nat set"
  lk_locked :: bool

record jobs_deque =
  dq_maxlen :: int
  dq_count :: int
  dq_dict :: "(int \<times> nat) list"

text \<open>
  Where the coroutine \<open>run\<close> of a job stands: not created (\<open>Rejected\<close> when the queue did not take the job),
  in the queue, its task created, awaiting the body, in the \<open>finally\<close> clause, returned. \<open>Lost\<close>: the task
  ended with an exception before the job was marked as finished.
\<close>

datatype phase = Absent | Rejected | Queued | Taken | Body | Closing | Finished | Lost

datatype jevent = Sent string string pyval pydict | ProgressCallback nat pydict

record jobs_queue =
  q_jobs :: "nat \<Rightarrow> job"
  q_next_job :: nat
  q_locks :: "nat \<Rightarrow> shared_lock"
  q_next_lock :: nat
  q_deque :: jobs_deque
  q_queue :: "nat list"
  q_event :: bool
  q_job_locks :: "(string \<times> nat) list"
  q_sent :: "jevent list"
  q_log_files :: "string list"
  q_phase :: "nat \<Rightarrow> phase"
  q_task_errors :: "(nat \<times> exn) list"

text \<open>What the job code takes from the interpreter and from the environment.\<close>

record jlib =
  exn_text :: "exn \<Rightarrow> string"
  format_exception :: "exn \<Rightarrow> string"
  type_name :: "exn \<Rightarrow> string"
  msg_text :: "msg \<Rightarrow> string"
  errno_number :: "errno \<Rightarrow> int"
  decode_ignore :: "string \<Rightarrow> string"
  shell_quote :: "string \<Rightarrow> string"

section \<open>The job object\<close>

definition check_pipe :: "pipes \<Rightarrow> string \<Rightarrow> unit res" where
  "check_pipe p nm =
     (let open_pipe = (\<lambda>x. if x = None then Inl (ValueError [Txt ''Pipe '', Rep (PStr nm), Txt '' is not open'']) else Inr ())
      in if nm = ''input'' then open_pipe (pipe_input p)
         else if nm = ''output'' then open_pipe (pipe_output p)
         else Inl AttributeError)"

definition Job_init ::
    "int \<Rightarrow> string \<Rightarrow> pymethod \<Rightarrow> pyval list \<Rightarrow> job_options \<Rightarrow> pipes option \<Rightarrow> bool \<Rightarrow> job res" where
  "Job_init now nm m args opts ps cb =
     (let p = (case ps of None \<Rightarrow> \<lparr>pipe_input = None, pipe_output = None\<rparr> | Some p \<Rightarrow> p);
          j = \<lparr>j_method_name = nm, j_method = m, j_args = args, j_options = opts, j_pipes = p,
               j_on_progress_cb = cb, j_id = None, j_lock = None, j_result = PNone, j_error = None,
               j_exception = None, j_exc_info = None, j_aborted = False, j_state = WAITING,
               j_progress = \<lparr>p_percent = PNone, p_description = PNone, p_extra = PNone\<rparr>,
               j_time_started = now, j_time_finished = None, j_future = False,
               j_cancel_requested = False, j_logs_path = None, j_logs_fd = None,
               j_logs_excerpt = None, j_finished = False\<rparr>
      in if opt_check_pipes opts then rbind (mapM (check_pipe p) (opt_pipes opts)) (\<lambda>_. Inr j)
         else Inr j)"

definition get_lock_name :: "job \<Rightarrow> string option" where
  "get_lock_name j =
     (case opt_lock (j_options j) of
        NoLock \<Rightarrow> None | LockName nm \<Rightarrow> Some nm | LockOf f \<Rightarrow> f (j_args j))"

definition set_id :: "int \<Rightarrow> job \<Rightarrow> job" where
  "set_id i j = j\<lparr>j_id := Some i\<rparr>"

definition set_result :: "pyval \<Rightarrow> job \<Rightarrow> job" where
  "set_result v j = j\<lparr>j_result := v\<rparr>"

definition set_exception :: "jlib \<Rightarrow> exn \<Rightarrow> job \<Rightarrow> job" where
  "set_exception L e j =
     j\<lparr>j_error := Some (exn_text L e), j_exception := Some (format_exception L e), j_exc_info := Some e\<rparr>"

definition set_state :: "int \<Rightarrow> job_state \<Rightarrow> job \<Rightarrow> job res" where
  "set_state now st j =
     (if j_state j = WAITING \<and> st \<in> {WAITING, SUCCESS} then Inl AssertionError
      else if j_state j = RUNNING \<and> st \<in> {WAITING, RUNNING} then Inl AssertionError
      else if terminal (j_state j) then Inl AssertionError
      else Inr (j\<lparr>j_state := st, j_time_finished := if terminal st then Some now else j_time_finished j\<rparr>))"

text \<open>\<open>Middleware.dump_args\<close> of \<open>main.py\<close> for a given method: private parameters are masked.\<close>

definition dump_args :: "pymethod \<Rightarrow> pyval list \<Rightarrow> pyval list" where
  "dump_args m args =
     (let acc = (case meth_accepts m of
                   Some a \<Rightarrow> Some a
                 | None \<Rightarrow> if meth_name m \<in> {''create'', ''update'', ''delete''}
                            then (case meth_child m of None \<Rightarrow> None | Some c \<Rightarrow> c) else None)
      in case acc of
           None \<Rightarrow> args
         | Some a \<Rightarrow> map (\<lambda>(i, v). if i < length a then dump (a ! i) v else v) (enumerate 0 args))"

definition opt_text :: "string option \<Rightarrow> pyval" where
  "opt_text x = (case x of None \<Rightarrow> PNone | Some s \<Rightarrow> PStr s)"

definition opt_int :: "int option \<Rightarrow> pyval" where
  "opt_int x = (case x of None \<Rightarrow> PNone | Some i \<Rightarrow> PInt i)"

definition verror_tuple :: "jlib \<Rightarrow> string option \<Rightarrow> msg \<Rightarrow> errno \<Rightarrow> pyval" where
  "verror_tuple L a m e = PTuple [opt_text a, PStr (msg_text L m), PInt (errno_number L e)]"

definition encode_exc_info :: "jlib \<Rightarrow> exn option \<Rightarrow> pyval" where
  "encode_exc_info L x =
     (case x of
        None \<Rightarrow> PNone
      | Some e \<Rightarrow>
          (let (etype, extra) = (case e of
              ValidationErr a m n \<Rightarrow> (''VALIDATION'', PList [verror_tuple L a m n])
            | Validations ve \<Rightarrow>
                (''VALIDATION'', PList (map (\<lambda>v. verror_tuple L (Some (attribute v)) (errmsg v) (verrno v)) ve))
            | CallError m n extra \<Rightarrow> (type_name L e, extra)
            | _ \<Rightarrow> (type_name L e, PNone))
           in PDict [(''type'', PStr etype), (''extra'', extra)]))"

definition encode_progress :: "progress \<Rightarrow> pyval" where
  "encode_progress p =
     PDict [(''percent'', p_percent p), (''description'', p_description p), (''extra'', p_extra p)]"

definition Job_encode :: "jlib \<Rightarrow> job \<Rightarrow> pydict" where
  "Job_encode L j =
     [(''id'', opt_int (j_id j)),
      (''method'', PStr (j_method_name j)),
      (''arguments'', PList (dump_args (j_method j) (j_args j))),
      (''logs_path'', opt_text (j_logs_path j)),
      (''logs_excerpt'', opt_text (j_logs_excerpt j)),
      (''progress'', encode_progress (j_progress j)),
      (''result'', j_result j),
      (''error'', opt_text (j_error j)),
      (''exception'', opt_text (j_exception j)),
      (''exc_info'', encode_exc_info L (j_exc_info j)),
      (''state'', PStr (state_name (j_state j))),
      (''time_started'', PInt (j_time_started j)),
      (''time_finished'', opt_int (j_time_finished j))]"

text \<open>
  What \<open>wait\<close> and \<open>wait_sync\<close> give once the job has finished; \<open>wait\<close> itself, where \<open>None\<close> stands for a
  caller that still waits and \<open>timed_out\<close> says whether the time limit, if there is one, has passed.
\<close>

definition raise_job_error :: "jlib \<Rightarrow> job \<Rightarrow> exn option" where
  "raise_job_error L j =
     (case j_error j of
        None \<Rightarrow> None
      | Some err \<Rightarrow>
          if err = [] then None
          else case j_exc_info j of
                 Some (CallError m n x) \<Rightarrow> Some (CallError m n x)
               | _ \<Rightarrow> Some (CallError [Txt err] EFAULT PNone))"

definition wait_sync :: "jlib \<Rightarrow> bool \<Rightarrow> job \<Rightarrow> pyval res" where
  "wait_sync L raise_error j =
     (case (if raise_error then raise_job_error L j else None) of
        Some e \<Rightarrow> Inl e
      | None \<Rightarrow> Inr (j_result j))"

definition wait :: "jlib \<Rightarrow> bool \<Rightarrow> bool \<Rightarrow> job \<Rightarrow> pyval res option" where
  "wait L timed_out raise_error j =
     (if j_finished j then Some (wait_sync L raise_error j)
      else if timed_out then Some (Inl TimeoutError)
      else None)"

definition abort :: "job \<Rightarrow> job" where
  "abort j =
     (if terminal (j_state j) then j
      else let j' = j\<lparr>j_aborted := True\<rparr>
           in if j_state j = WAITING \<or> opt_abortable (j_options j) then j'
              else if j_future j then j'\<lparr>j_cancel_requested := True\<rparr> else j')"

text \<open>
  The excerpt of a log file: the first ten lines and the last ten. The file is given as its lines,
  or \<open>None\<close> when it has been removed.
\<close>

fun excerpt_loop :: "string list \<Rightarrow> string list \<times> string list \<times> nat \<Rightarrow> string list \<times> string list \<times> nat" where
  "excerpt_loop [] acc = acc"
| "excerpt_loop (l # ls) (head, tail, n) =
     (if length head < 10 then excerpt_loop ls (head @ [l], tail, n + 1)
      else excerpt_loop ls (head, slice_from (tail @ [l]) (- 10), n + 1))"

definition get_logs_excerpt :: "string list option \<Rightarrow> string" where
  "get_logs_excerpt content =
     (case content of
        None \<Rightarrow> ''Log file was removed''
      | Some ls \<Rightarrow>
          (let (head, tail, n) = excerpt_loop ls ([], [], 0)
           in if n > 20
              then concat head @ ''... '' @ str_of_nat (n - 20) @ '' more lines ...'' @ [CHR 0x0A] @ concat tail
              else concat (head @ tail)))"

definition close_logs :: "string list option \<Rightarrow> job \<Rightarrow> job" where
  "close_logs content j =
     (if j_logs_fd j = None then j
      else j\<lparr>j_logs_fd := Some False, j_logs_excerpt := Some (get_logs_excerpt content)\<rparr>)"

definition close_pipes :: "job \<Rightarrow> job" where
  "close_pipes j =
     j\<lparr>j_pipes := (j_pipes j)\<lparr>pipe_input := map_option (\<lambda>p. p\<lparr>pipe_r := False\<rparr>) (pipe_input (j_pipes j)),
                            pipe_output := map_option (\<lambda>p. p\<lparr>pipe_w := False\<rparr>) (pipe_output (j_pipes j))\<rparr>\<rparr>"

section \<open>Locks, the deque and the queue\<close>

definition upd_job :: "nat \<Rightarrow> (job \<Rightarrow> job) \<Rightarrow> jobs_queue \<Rightarrow> jobs_queue" where
  "upd_job j f s = s\<lparr>q_jobs := (q_jobs s)(j := f (q_jobs s j))\<rparr>"

definition upd_lock :: "nat \<Rightarrow> (shared_lock \<Rightarrow> shared_lock) \<Rightarrow> jobs_queue \<Rightarrow> jobs_queue" where
  "upd_lock l f s = s\<lparr>q_locks := (q_locks s)(l := f (q_locks s l))\<rparr>"

definition set_phase :: "nat \<Rightarrow> phase \<Rightarrow> jobs_queue \<Rightarrow> jobs_queue" where
  "set_phase j ph s = s\<lparr>q_phase := (q_phase s)(j := ph)\<rparr>"

definition JobSharedLock :: "string \<Rightarrow> shared_lock" where
  "JobSharedLock nm = \<lparr>lk_name = nm, lk_jobs = {}, lk_locked = False\<rparr>"

definition lock_add_job :: "nat \<Rightarrow> shared_lock \<Rightarrow> shared_lock" where
  "lock_add_job j l = l\<lparr>lk_jobs := insert j (lk_jobs l)\<rparr>"

definition lock_remove_job :: "nat \<Rightarrow> shared_lock \<Rightarrow> shared_lock" where
  "lock_remove_job j l = l\<lparr>lk_jobs := lk_jobs l - {j}\<rparr>"

definition lock_acquire :: "shared_lock \<Rightarrow> shared_lock" where
  "lock_acquire l = l\<lparr>lk_locked := True\<rparr>"

definition lock_release :: "shared_lock \<Rightarrow> shared_lock" where
  "lock_release l = l\<lparr>lk_locked := False\<rparr>"

definition JobsQueue_init :: "int \<Rightarrow> job \<Rightarrow> jobs_queue" where
  "JobsQueue_init maxlen blank =
     \<lparr>q_jobs = (\<lambda>_. blank), q_next_job = 0, q_locks = (\<lambda>_. JobSharedLock []), q_next_lock = 0,
      q_deque = \<lparr>dq_maxlen = maxlen, dq_count = 0, dq_dict = []\<rparr>, q_queue = [], q_event = False,
      q_job_locks = [], q_sent = [], q_log_files = [], q_phase = (\<lambda>_. Absent), q_task_errors = []\<rparr>"

text \<open>\<open>Job.cleanup\<close>, \<open>JobsDeque.remove\<close> and \<open>JobsDeque.add\<close>.\<close>

definition cleanup :: "nat \<Rightarrow> jobs_queue \<Rightarrow> jobs_queue" where
  "cleanup j s =
     (case j_logs_path (q_jobs s j) of None \<Rightarrow> s | Some p \<Rightarrow> s\<lparr>q_log_files := removeAll p (q_log_files s)\<rparr>)"

definition deque_remove :: "int \<Rightarrow> jobs_queue \<Rightarrow> jobs_queue" where
  "deque_remove i s =
     (case map_of (dq_dict (q_deque s)) i of
        None \<Rightarrow> s
      | Some j \<Rightarrow> (cleanup j s)\<lparr>q_deque := (q_deque s)\<lparr>dq_dict := AList.delete i (dq_dict (q_deque s))\<rparr>\<rparr>)"

definition oldest_finished :: "jobs_queue \<Rightarrow> int option" where
  "oldest_finished s =
     map_option fst (find (\<lambda>(i, j). terminal (j_state (q_jobs s j))) (dq_dict (q_deque s)))"

definition deque_add :: "nat \<Rightarrow> jobs_queue \<Rightarrow> jobs_queue" where
  "deque_add j s =
     (let n = dq_count (q_deque s) + 1;
          s1 = upd_job j (set_id n) (s\<lparr>q_deque := (q_deque s)\<lparr>dq_count := n\<rparr>\<rparr>);
          s2 = (if int (length (dq_dict (q_deque s1))) > dq_maxlen (q_deque s1)
                then (case oldest_finished s1 of None \<Rightarrow> s1 | Some old \<Rightarrow> deque_remove old s1)
                else s1)
      in s2\<lparr>q_deque := (q_deque s2)\<lparr>dq_dict := AList.update n j (dq_dict (q_deque s2))\<rparr>\<rparr>)"

definition send_job_event :: "jlib \<Rightarrow> string \<Rightarrow> nat \<Rightarrow> jobs_queue \<Rightarrow> jobs_queue" where
  "send_job_event L etype j s =
     s\<lparr>q_sent := q_sent s @ [Sent ''core.get_jobs'' etype (opt_int (j_id (q_jobs s j))) (Job_encode L (q_jobs s j))]\<rparr>"

definition handle_lock :: "nat \<Rightarrow> jobs_queue \<Rightarrow> jobs_queue" where
  "handle_lock j s =
     (case get_lock_name (q_jobs s j) of
        None \<Rightarrow> s
      | Some nm \<Rightarrow>
          (let (l, s1) = (case map_of (q_job_locks s) nm of
                 Some l \<Rightarrow> (l, s)
               | None \<Rightarrow> (q_next_lock s,
                   s\<lparr>q_locks := (q_locks s)(q_next_lock s := JobSharedLock nm), q_next_lock := q_next_lock s + 1,
                     q_job_locks := AList.update nm (q_next_lock s) (q_job_locks s)\<rparr>))
           in upd_job j (\<lambda>x. x\<lparr>j_lock := Some l\<rparr>) (upd_lock l (lock_add_job j) s1)))"

definition queued_like :: "nat \<Rightarrow> jobs_queue \<Rightarrow> nat list" where
  "queued_like j s = filter (\<lambda>k. j_lock (q_jobs s k) = j_lock (q_jobs s j)) (q_queue s)"

text \<open>
  \<open>JobsQueue.add\<close> of the job with reference \<open>j\<close>: the reference it returns, or the \<open>IndexError\<close> of
  \<open>queued_jobs[-1]\<close>, with the queue afterwards.
\<close>

definition enqueue :: "jlib \<Rightarrow> nat \<Rightarrow> jobs_queue \<Rightarrow> jobs_queue" where
  "enqueue L j s =
     (let s1 = deque_add j s;
          s2 = set_phase j Queued (s1\<lparr>q_queue := q_queue s1 @ [j]\<rparr>);
          s3 = (if opt_transient (j_options (q_jobs s2 j)) then s2 else send_job_event L ''ADDED'' j s2)
      in s3\<lparr>q_event := True\<rparr>)"

definition queue_add :: "jlib \<Rightarrow> nat \<Rightarrow> jobs_queue \<Rightarrow> jobs_queue \<times> nat res" where
  "queue_add L j s =
     (let s1 = handle_lock j s
      in case opt_lock_queue_size (j_options (q_jobs s1 j)) of
           Some limit \<Rightarrow>
             if int (length (queued_like j s1)) \<ge> limit
             then (set_phase j Rejected s1, list_item (queued_like j s1) (- 1))
             else (enqueue L j s1, Inr j)
         | None \<Rightarrow> (enqueue L j s1, Inr j))"

text \<open>
  \<open>release_lock\<close>: \<open>asyncio.Lock.release\<close> raises \<open>RuntimeError\<close> on a lock that is not held, and \<open>dict.pop\<close>
  raises \<open>KeyError\<close> for a missing name.
\<close>

definition release_lock :: "nat \<Rightarrow> jobs_queue \<Rightarrow> jobs_queue \<times> exn option" where
  "release_lock j s =
     (case j_lock (q_jobs s j) of
        None \<Rightarrow> (s, None)
      | Some l \<Rightarrow>
          (let s1 = upd_lock l (lock_remove_job j) s
           in if \<not> lk_locked (q_locks s1 l) then (s1, Some (RuntimeError [Txt ''Lock is not acquired.'']))
              else let s2 = upd_lock l lock_release s1
                   in if lk_jobs (q_locks s2 l) = {}
                      then (case map_of (q_job_locks s2) (lk_name (q_locks s2 l)) of
                              None \<Rightarrow> (s2, Some (KeyError [Rep (PStr (lk_name (q_locks s2 l)))]))
                            | Some _ \<Rightarrow>
                                (s2\<lparr>q_job_locks := AList.delete (lk_name (q_locks s2 l)) (q_job_locks s2),
                                    q_event := True\<rparr>, None))
                      else (s2\<lparr>q_event := True\<rparr>, None)))"

text \<open>
  A pass of the loop of \<open>next\<close> once the event is set. \<open>acquire\<close> on a lock nobody holds returns at once;
  nothing else acquires these locks, so no other coroutine runs in between.
\<close>

definition runnable :: "jobs_queue \<Rightarrow> nat \<Rightarrow> bool" where
  "runnable s j = (case j_lock (q_jobs s j) of None \<Rightarrow> True | Some l \<Rightarrow> \<not> lk_locked (q_locks s l))"

definition next_pass :: "jobs_queue \<Rightarrow> jobs_queue \<times> nat option" where
  "next_pass s =
     (case find (runnable s) (q_queue s) of
        Some j \<Rightarrow>
          (let s1 = (case j_lock (q_jobs s j) of None \<Rightarrow> s | Some l \<Rightarrow> upd_lock l lock_acquire s);
               s2 = s1\<lparr>q_queue := remove1 j (q_queue s1)\<rparr>;
               s3 = (if q_queue s2 = [] then s2\<lparr>q_event := False\<rparr> else s2)
           in (s3, Some j))
      | None \<Rightarrow> (s\<lparr>q_event := False\<rparr>, None))"

text \<open>An iteration of \<open>JobsQueue.run\<close>: the job found gets its task.\<close>

definition schedule :: "jobs_queue \<Rightarrow> jobs_queue" where
  "schedule s = (case next_pass s of (s1, Some j) \<Rightarrow> set_phase j Taken s1 | (s1, None) \<Rightarrow> s1)"

section \<open>Running a job\<close>

text \<open>\<open>set_progress\<close>: \<open>percent\<close> has to be a number; false descriptions and extras change nothing.\<close>

definition new_progress :: "pyval \<Rightarrow> pyval \<Rightarrow> pyval \<Rightarrow> progress \<Rightarrow> progress" where
  "new_progress percent descr extra p =
     \<lparr>p_percent = (if percent = PNone then p_percent p else percent),
      p_description = (if truthy descr then descr else p_description p),
      p_extra = (if truthy extra then extra else p_extra p)\<rparr>"

definition set_progress ::
    "jlib \<Rightarrow> pyval \<Rightarrow> pyval \<Rightarrow> pyval \<Rightarrow> nat \<Rightarrow> jobs_queue \<Rightarrow> jobs_queue \<times> exn option" where
  "set_progress L percent descr extra j s =
     (if percent \<noteq> PNone \<and> num_of percent = None then (s, Some AssertionError)
      else let s1 = upd_job j (\<lambda>x. x\<lparr>j_progress := new_progress percent descr extra (j_progress x)\<rparr>) s;
               s2 = (if j_on_progress_cb (q_jobs s1 j)
                     then s1\<lparr>q_sent := q_sent s1 @ [ProgressCallback j (Job_encode L (q_jobs s1 j))]\<rparr> else s1)
           in (send_job_event L ''CHANGED'' j s2, None))"

text \<open>
  The two \<open>except\<close> clauses of \<open>run\<close>. An assertion of \<open>set_state\<close> that fails there leaves the job as it
  is and ends the task after the \<open>finally\<close> clause.
\<close>

definition change_state ::
    "(job \<Rightarrow> job) \<Rightarrow> int \<Rightarrow> job_state \<Rightarrow> nat \<Rightarrow> jobs_queue \<Rightarrow> jobs_queue" where
  "change_state f now st j s =
     (case set_state now st (q_jobs s j) of
        Inr x \<Rightarrow> upd_job j (\<lambda>_. f x) s
      | Inl e \<Rightarrow> s\<lparr>q_task_errors := q_task_errors s @ [(j, e)]\<rparr>)"

definition except_cancelled :: "int \<Rightarrow> nat \<Rightarrow> jobs_queue \<Rightarrow> jobs_queue" where
  "except_cancelled now j s = set_phase j Closing (change_state id now ABORTED j s)"

definition except_exception :: "jlib \<Rightarrow> int \<Rightarrow> exn \<Rightarrow> nat \<Rightarrow> jobs_queue \<Rightarrow> jobs_queue" where
  "except_exception L now e j s = set_phase j Closing (change_state (set_exception L e) now FAILED j s)"

definition logs_dir :: string where
  "logs_dir = ''/tmp/middlewared/jobs''"

definition open_logs :: "nat \<Rightarrow> jobs_queue \<Rightarrow> jobs_queue" where
  "open_logs j s =
     (let p = logs_dir @ ''/'' @ (case j_id (q_jobs s j) of None \<Rightarrow> ''None'' | Some i \<Rightarrow> str_of_int i) @ ''.log''
      in (upd_job j (\<lambda>x. x\<lparr>j_logs_path := Some p, j_logs_fd := Some True\<rparr>) s)
           \<lparr>q_log_files := List.insert p (q_log_files s)\<rparr>)"

text \<open>
  The beginning of \<open>run\<close>, up to the point where it awaits the body. The log file is opened outside the
  \<open>try\<close> statement: \<open>opened\<close> gives the exception when that fails.
\<close>

definition run_start :: "jlib \<Rightarrow> exn option \<Rightarrow> int \<Rightarrow> nat \<Rightarrow> jobs_queue \<Rightarrow> jobs_queue" where
  "run_start L opened now j s =
     (case (if opt_logs (j_options (q_jobs s j)) then opened else None) of
        Some e \<Rightarrow> set_phase j Lost (s\<lparr>q_task_errors := q_task_errors s @ [(j, e)]\<rparr>)
      | None \<Rightarrow>
          (let s1 = (if opt_logs (j_options (q_jobs s j)) then open_logs j s else s)
           in if j_aborted (q_jobs s1 j) then except_cancelled now j s1
              else case set_state now RUNNING (q_jobs s1 j) of
                     Inl e \<Rightarrow> except_exception L now e j s1
                   | Inr x \<Rightarrow> set_phase j Body (upd_job j (\<lambda>_. x\<lparr>j_future := True\<rparr>) s1)))"

text \<open>How the method of a job ends, and what \<open>__run_body\<close> and then \<open>run\<close> make of it.\<close>

datatype outcome = Returned pyval | Raised raised | Cancelled

definition adapted :: "jlib \<Rightarrow> raised \<Rightarrow> exn" where
  "adapted L r =
     (case adapt_exception (decode_ignore L) (shell_quote L) r of
        Some e \<Rightarrow> e
      | None \<Rightarrow> (case r of OtherError e \<Rightarrow> e | _ \<Rightarrow> OtherException []))"

definition body_returned :: "jlib \<Rightarrow> int \<Rightarrow> pyval \<Rightarrow> nat \<Rightarrow> jobs_queue \<Rightarrow> jobs_queue \<times> exn option" where
  "body_returned L now rv j s =
     (let s1 = upd_job j (set_result rv) s
      in case set_state now SUCCESS (q_jobs s1 j) of
           Inl e \<Rightarrow> (s1, Some e)
         | Inr x \<Rightarrow>
             (let s2 = upd_job j (\<lambda>_. x) s1
              in if \<not> py_eq (p_percent (j_progress (q_jobs s2 j))) (PInt 100)
                 then set_progress L (PInt 100) (PStr []) PNone j s2
                 else (s2, None)))"

definition run_body :: "jlib \<Rightarrow> int \<Rightarrow> outcome \<Rightarrow> nat \<Rightarrow> jobs_queue \<Rightarrow> jobs_queue" where
  "run_body L now out j s =
     (case out of
        Cancelled \<Rightarrow> except_cancelled now j s
      | Raised r \<Rightarrow> except_exception L now (adapted L r) j s
      | Returned rv \<Rightarrow>
          (case body_returned L now rv j s of
             (s1, None) \<Rightarrow> set_phase j Closing s1
           | (s1, Some e) \<Rightarrow> except_exception L now e j s1))"

definition run_finally :: "jlib \<Rightarrow> string list option \<Rightarrow> nat \<Rightarrow> jobs_queue \<Rightarrow> jobs_queue" where
  "run_finally L content j s =
     (case release_lock j (upd_job j (close_pipes \<circ> close_logs content) s) of
        (s1, Some e) \<Rightarrow> set_phase j Lost (s1\<lparr>q_task_errors := q_task_errors s1 @ [(j, e)]\<rparr>)
      | (s1, None) \<Rightarrow>
          (let s2 = set_phase j Finished (upd_job j (\<lambda>x. x\<lparr>j_finished := True\<rparr>) s1)
           in if opt_transient (j_options (q_jobs s2 j))
              then (case j_id (q_jobs s2 j) of None \<Rightarrow> s2 | Some i \<Rightarrow> deque_remove i s2)
              else send_job_event L ''CHANGED'' j s2))"

text \<open>
  \<open>wrap\<close>: the subjob is read again after every wait of at most a second; \<open>seen\<close> lists what is read.
  \<open>None\<close> when the list ends before the subjob does.
\<close>

fun wrap_loop :: "jlib \<Rightarrow> nat \<Rightarrow> job \<Rightarrow> job list \<Rightarrow> jobs_queue \<Rightarrow> (jobs_queue \<times> pyval res) option" where
  "wrap_loop L j sub seen s =
     (if j_time_finished sub \<noteq> None
      then Some (s, case j_exception sub of
                      Some (c # cs) \<Rightarrow> Inl (CallError [Txt (c # cs)] EFAULT PNone)
                    | _ \<Rightarrow> Inr (j_result sub))
      else case seen of
             [] \<Rightarrow> None
           | sub' # rest \<Rightarrow>
               (case set_progress L (p_percent (j_progress sub')) (p_description (j_progress sub'))
                       (p_extra (j_progress sub')) j s of
                  (s1, None) \<Rightarrow> wrap_loop L j sub' rest s1
                | (s1, Some e) \<Rightarrow> Some (s1, Inl e)))"

section \<open>The methods of CoreService\<close>

definition get_jobs :: "jlib \<Rightarrow> regex \<Rightarrow> pyval list option \<Rightarrow> pydict option \<Rightarrow> jobs_queue \<Rightarrow> pyval res" where
  "get_jobs L re_match filters options s =
     filter_list re_match (map (\<lambda>(i, j). PDict (Job_encode L (q_jobs s j))) (dq_dict (q_deque s))) filters options"

text \<open>\<open>job_wait\<close> once the job it waits for has finished.\<close>

definition job_wait :: "jlib \<Rightarrow> int \<Rightarrow> jobs_queue \<Rightarrow> pyval res" where
  "job_wait L i s =
     (case map_of (dq_dict (q_deque s)) i of
        None \<Rightarrow> Inl AttributeError
      | Some j \<Rightarrow>
          (case j_error (q_jobs s j) of
             Some (c # cs) \<Rightarrow> Inl (CallError [Txt (c # cs)] EFAULT PNone)
           | _ \<Rightarrow> Inr (j_result (q_jobs s j))))"

definition job_update :: "jlib \<Rightarrow> int \<Rightarrow> pydict \<Rightarrow> jobs_queue \<Rightarrow> jobs_queue \<times> exn option" where
  "job_update L i data s =
     (case map_of (dq_dict (q_deque s)) i of
        None \<Rightarrow> (s, Some (KeyError [Val (PInt i)]))
      | Some j \<Rightarrow>
          (case dict_get data ''progress'' of
             PDict (p # ps) \<Rightarrow>
               (case dict_item (p # ps) ''percent'' of
                  Inl e \<Rightarrow> (s, Some e)
                | Inr v \<Rightarrow> set_progress L v (dict_get (p # ps) ''description'') (dict_get (p # ps) ''extra'') j s)
           | _ \<Rightarrow> (s, None)))"

definition job_abort :: "int \<Rightarrow> jobs_queue \<Rightarrow> jobs_queue \<times> exn option" where
  "job_abort i s =
     (case map_of (dq_dict (q_deque s)) i of
        None \<Rightarrow> (s, Some (KeyError [Val (PInt i)]))
      | Some j \<Rightarrow> (upd_job j abort s, None))"

text \<open>
  \<open>bulk\<close> calls a method for every element of \<open>params\<close>. What a call does is given: the queue when it is
  over, with the value or the job it returned, the latter as it is once it has finished, or the exception
  it raised. \<open>describe\<close> stands for \<open>description.format(*p)\<close>, which may raise.
\<close>

datatype called = CallValue pyval | CallJob job | CallRaised exn

definition bulk_status :: "jlib \<Rightarrow> called \<Rightarrow> pydict" where
  "bulk_status L c =
     (case c of
        CallValue v \<Rightarrow> [(''result'', v), (''error'', PNone)]
      | CallJob b \<Rightarrow> [(''result'', j_result b),
                      (''error'', case j_error b of Some (x # xs) \<Rightarrow> PStr (x # xs) | _ \<Rightarrow> PNone)]
      | CallRaised e \<Rightarrow> [(''result'', PNone), (''error'', PStr (exn_text L e))])"

fun bulk_loop ::
    "jlib \<Rightarrow> (pyval \<Rightarrow> string res) option \<Rightarrow> (pyval \<Rightarrow> jobs_queue \<Rightarrow> jobs_queue \<times> called) \<Rightarrow> nat \<Rightarrow> nat \<Rightarrow> pyval list \<Rightarrow> nat \<Rightarrow> jobs_queue \<Rightarrow>
     jobs_queue \<times> pydict list res" where
  "bulk_loop L describe call n i [] j s = (s, Inr [])"
| "bulk_loop L describe call n i (p # ps) j s =
     (let base = str_of_nat i @ '' / '' @ str_of_nat n
      in case (case describe of None \<Rightarrow> Inr base | Some f \<Rightarrow> rbind (f p) (\<lambda>t. Inr (base @ '': '' @ t))) of
           Inl e \<Rightarrow> (s, Inl e)
         | Inr d \<Rightarrow>
             (case set_progress L (PFloat (100 * of_nat i / of_nat n)) (PStr d) PNone j s of
                (s1, Some e) \<Rightarrow> (s1, Inl e)
              | (s1, None) \<Rightarrow>
                  (case call p s1 of
                     (s2, c) \<Rightarrow>
                       (case bulk_loop L describe call n (i + 1) ps j s2 of
                          (s3, r) \<Rightarrow> (s3, rbind r (\<lambda>st. Inr (bulk_status L c # st)))))))"

definition bulk ::
    "jlib \<Rightarrow> (pyval \<Rightarrow> string res) option \<Rightarrow> (pyval \<Rightarrow> jobs_queue \<Rightarrow> jobs_queue \<times> called) \<Rightarrow> pyval list \<Rightarrow> nat \<Rightarrow> jobs_queue \<Rightarrow>
     jobs_queue \<times> pydict list res" where
  "bulk L describe call params j s = bulk_loop L describe call (length params) 0 params j s"

end
