(* ===== verification/Jobs_Sched.thy ===== *)
theory Jobs_Sched
  imports Jobs
begin

text \<open>
  The scheduler of \<open>job.py\<close> as a transition system, and what holds in every state it can reach: the
  lock objects of the queue exclude jobs with the same lock name, an event is never lost, releasing a
  lock never fails, states of jobs only go forward, and the queue with its lock objects implements a
  scheduler that only knows lock names.
\<close>

named_theorems jdefs \<open>state changes of the job queue\<close>

declare upd_job_def [jdefs] upd_lock_def [jdefs] set_phase_def [jdefs] send_job_event_def [jdefs]

section \<open>Steps\<close>

text \<open>
  A call of a job method in \<open>Middleware._call_prepare\<close>: the new job object goes to the queue.
\<close>

definition new_job :: "job \<Rightarrow> jobs_queue \<Rightarrow> jobs_queue" where
  "new_job x s = s\<lparr>q_jobs := (q_jobs s)(q_next_job s := x), q_next_job := q_next_job s + 1\<rparr>"

definition submit :: "jlib \<Rightarrow> job \<Rightarrow> jobs_queue \<Rightarrow> jobs_queue \<times> nat res" where
  "submit L x s = queue_add L (q_next_job s) (new_job x s)"

text \<open>
  The steps: a job is submitted, the scheduler makes a pass, a job task starts, its body ends, its
  \<open>finally\<close> clause runs, somebody reports progress for a job or aborts it.
\<close>

inductive jstep :: "jlib \<Rightarrow> jobs_queue \<Rightarrow> jobs_queue \<Rightarrow> bool" for L where
  step_submit: "Job_init now nm m args opts ps cb = Inr x \<Longrightarrow> jstep L s (fst (submit L x s))"
| step_schedule: "q_event s \<Longrightarrow> jstep L s (schedule s)"
| step_start: "q_phase s j = Taken \<Longrightarrow> jstep L s (run_start L opened now j s)"
| step_body: "q_phase s j = Body \<Longrightarrow> jstep L s (run_body L now out j s)"
| step_finally: "q_phase s j = Closing \<Longrightarrow> jstep L s (run_finally L content j s)"
| step_progress: "j < q_next_job s \<Longrightarrow> jstep L s (fst (set_progress L percent descr extra j s))"
| step_abort: "j < q_next_job s \<Longrightarrow> jstep L s (upd_job j abort s)"

inductive reachable :: "jlib \<Rightarrow> jobs_queue \<Rightarrow> bool" for L where
  reach_init: "reachable L (JobsQueue_init maxlen blank)"
| reach_step: "reachable L s \<Longrightarrow> jstep L s s' \<Longrightarrow> reachable L s'"

section \<open>The invariant of the locks\<close>

definition holding :: "phase \<Rightarrow> bool" where
  "holding ph \<longleftrightarrow> ph \<in> {Taken, Body, Closing, Lost}"

definition live :: "phase \<Rightarrow> bool" where
  "live ph \<longleftrightarrow> ph \<in> {Rejected, Queued, Taken, Body, Closing, Lost}"

lemma phase_simps [simp]:
  "holding Taken" "holding Body" "holding Closing" "holding Lost"
  "\<not> holding Absent" "\<not> holding Rejected" "\<not> holding Queued" "\<not> holding Finished"
  "live Rejected" "live Queued" "live Taken" "live Body" "live Closing" "live Lost"
  "\<not> live Absent" "\<not> live Finished"
  by (simp_all add: holding_def live_def)

lemma holding_live: "holding ph \<Longrightarrow> live ph"
  by (auto simp: holding_def live_def)

definition job_lock :: "jobs_queue \<Rightarrow> nat \<Rightarrow> nat option" where
  "job_lock s j = j_lock (q_jobs s j)"

definition lock_name :: "jobs_queue \<Rightarrow> nat \<Rightarrow> string option" where
  "lock_name s j = get_lock_name (q_jobs s j)"

text \<open>
  \<open>inv_refs\<close>: which references are in use and what the queue holds; \<open>inv_names\<close>: a job has the lock object of
  its lock name; \<open>inv_members\<close>: a lock lists the jobs that have it and are not over; \<open>inv_table\<close>: the table of
  names has exactly the locks that list a job; \<open>inv_held\<close>: a lock is held while exactly one job past the
  queue has it; \<open>inv_event\<close>: the event is clear only when no queued job can run.
\<close>

definition inv_refs :: "jobs_queue \<Rightarrow> bool" where
  "inv_refs s \<longleftrightarrow> (\<forall>j. (j < q_next_job s) = (q_phase s j \<noteq> Absent)) \<and>
     distinct (q_queue s) \<and> (\<forall>j. (j \<in> set (q_queue s)) = (q_phase s j = Queued))"

definition inv_names :: "jobs_queue \<Rightarrow> bool" where
  "inv_names s \<longleftrightarrow> (\<forall>j. q_phase s j \<noteq> Absent \<longrightarrow>
     (job_lock s j = None \<longrightarrow> lock_name s j = None) \<and>
     (\<forall>l. job_lock s j = Some l \<longrightarrow> l < q_next_lock s \<and> lock_name s j = Some (lk_name (q_locks s l))))"

definition inv_members :: "jobs_queue \<Rightarrow> bool" where
  "inv_members s \<longleftrightarrow> (\<forall>l < q_next_lock s. \<forall>j. (j \<in> lk_jobs (q_locks s l)) = (live (q_phase s j) \<and> job_lock s j = Some l))"

definition inv_table :: "jobs_queue \<Rightarrow> bool" where
  "inv_table s \<longleftrightarrow> (\<forall>nm l. (map_of (q_job_locks s) nm = Some l) =
     (l < q_next_lock s \<and> lk_name (q_locks s l) = nm \<and> lk_jobs (q_locks s l) \<noteq> {}))"

definition holds :: "jobs_queue \<Rightarrow> nat \<Rightarrow> nat \<Rightarrow> bool" where
  "holds s j l \<longleftrightarrow> holding (q_phase s j) \<and> job_lock s j = Some l"

definition inv_held :: "jobs_queue \<Rightarrow> bool" where
  "inv_held s \<longleftrightarrow>
     (\<forall>l < q_next_lock s. lk_locked (q_locks s l) = (\<exists>j. holds s j l)) \<and>
     (\<forall>i j l. holds s i l \<longrightarrow> holds s j l \<longrightarrow> i = j)"

definition inv_event :: "jobs_queue \<Rightarrow> bool" where
  "inv_event s \<longleftrightarrow> (q_event s \<or> (\<forall>j \<in> set (q_queue s). \<not> runnable s j))"

definition lock_inv :: "jobs_queue \<Rightarrow> bool" where
  "lock_inv s \<longleftrightarrow> inv_refs s \<and> inv_names s \<and> inv_members s \<and> inv_table s \<and> inv_held s \<and> inv_event s"

lemmas lock_inv_defs = lock_inv_def inv_refs_def inv_names_def inv_members_def inv_table_def inv_held_def
  inv_event_def

lemma lock_inv_init: "lock_inv (JobsQueue_init maxlen blank)"
  by (simp add: lock_inv_defs holds_def JobsQueue_init_def)

text \<open>The invariant reads only this part of a state; of a phase it reads its class.\<close>

definition phase_class :: "phase \<Rightarrow> phase" where
  "phase_class ph = (if holding ph then Taken else ph)"

lemma phase_class_eqD:
  "phase_class a = phase_class b \<Longrightarrow> holding a = holding b \<and> live a = live b \<and> (a = Queued) = (b = Queued) \<and>
     (a = Absent) = (b = Absent)"
  by (cases a; cases b) (simp_all add: phase_class_def)

definition same_locks :: "jobs_queue \<Rightarrow> jobs_queue \<Rightarrow> bool" where
  "same_locks s t \<longleftrightarrow> q_next_job t = q_next_job s \<and> q_queue t = q_queue s \<and>
     (\<forall>j. phase_class (q_phase t j) = phase_class (q_phase s j)) \<and>
     job_lock t = job_lock s \<and> lock_name t = lock_name s \<and> q_locks t = q_locks s \<and>
     q_next_lock t = q_next_lock s \<and> q_job_locks t = q_job_locks s \<and> q_event t = q_event s"

lemma runnable_job_lock:
  "runnable s j = (case job_lock s j of None \<Rightarrow> True | Some l \<Rightarrow> \<not> lk_locked (q_locks s l))"
  by (simp add: runnable_def job_lock_def)

lemma event_update_simps [simp]:
  "job_lock (s\<lparr>q_event := b\<rparr>) = job_lock s" "lock_name (s\<lparr>q_event := b\<rparr>) = lock_name s"
  "runnable (s\<lparr>q_event := b\<rparr>) = runnable s" "holds (s\<lparr>q_event := b\<rparr>) = holds s"
  by (simp_all add: fun_eq_iff job_lock_def lock_name_def runnable_def holds_def split: option.split)

lemma same_locks_runnable: "same_locks s t \<Longrightarrow> runnable t = runnable s"
  by (auto simp: same_locks_def runnable_job_lock fun_eq_iff split: option.splits)

lemma lock_inv_same: "same_locks s t \<Longrightarrow> lock_inv s \<Longrightarrow> lock_inv t"
proof -
  assume st: "same_locks s t" and inv: "lock_inv s"
  then have "holding (q_phase t j) = holding (q_phase s j)" "live (q_phase t j) = live (q_phase s j)"
    "(q_phase t j = Queued) = (q_phase s j = Queued)" "(q_phase t j = Absent) = (q_phase s j = Absent)" for j
    using phase_class_eqD unfolding same_locks_def by blast+
  with st inv same_locks_runnable [OF st] show ?thesis by (simp add: same_locks_def lock_inv_defs holds_def)
qed

lemma same_locks_refl [simp]: "same_locks s s"
  by (simp add: same_locks_def)

lemma same_locks_trans [trans]: "same_locks s t \<Longrightarrow> same_locks t u \<Longrightarrow> same_locks s u"
  by (simp add: same_locks_def)

text \<open>Updates of a job that leave its lock, its options and its arguments alone.\<close>

definition keeps_lock :: "(job \<Rightarrow> job) \<Rightarrow> bool" where
  "keeps_lock f \<longleftrightarrow> (\<forall>x. j_lock (f x) = j_lock x \<and> j_options (f x) = j_options x \<and> j_args (f x) = j_args x)"

lemma same_locks_upd_job: "keeps_lock f \<Longrightarrow> same_locks s (upd_job j f s)"
  by (auto simp: same_locks_def keeps_lock_def jdefs job_lock_def lock_name_def get_lock_name_def fun_eq_iff
      split: lock_option.splits)

lemma keeps_lockD:
  "keeps_lock f \<Longrightarrow> j_lock (f x) = j_lock x \<and> j_options (f x) = j_options x \<and> j_args (f x) = j_args x"
  by (simp add: keeps_lock_def)

lemma same_locks_send_event [simp]: "same_locks s (send_job_event L e j s)"
  by (simp add: same_locks_def jdefs job_lock_def lock_name_def fun_eq_iff)

lemma keeps_lock_simps [simp]:
  "keeps_lock abort" "keeps_lock (set_result v)" "keeps_lock (set_id i)" "keeps_lock (set_exception L e)"
  "keeps_lock (\<lambda>x. x\<lparr>j_progress := g x\<rparr>)" "keeps_lock (\<lambda>x. x\<lparr>j_logs_path := lp, j_logs_fd := fd\<rparr>)"
  "keeps_lock (close_pipes \<circ> close_logs content)" "keeps_lock (\<lambda>x. x\<lparr>j_finished := True\<rparr>)"
  by (simp_all add: keeps_lock_def abort_def Let_def set_result_def set_id_def set_exception_def
      close_pipes_def close_logs_def)

lemma same_locks_sent [simp]: "same_locks s (s\<lparr>q_sent := ev\<rparr>)" "same_locks s (s\<lparr>q_log_files := fs\<rparr>)"
  "same_locks s (s\<lparr>q_deque := dq\<rparr>)" "same_locks s (s\<lparr>q_task_errors := es\<rparr>)"
  by (simp_all add: same_locks_def job_lock_def lock_name_def fun_eq_iff)

lemma same_locks_set_progress: "same_locks s (fst (set_progress L p d e j s))"
proof (cases "p \<noteq> PNone \<and> num_of p = None")
  case False
  define t where "t = upd_job j (\<lambda>x. x\<lparr>j_progress := new_progress p d e (j_progress x)\<rparr>) s"
  define u where "u = (if j_on_progress_cb (q_jobs t j)
      then t\<lparr>q_sent := q_sent t @ [ProgressCallback j (Job_encode L (q_jobs t j))]\<rparr> else t)"
  have "fst (set_progress L p d e j s) = send_job_event L ''CHANGED'' j u"
    using False unfolding set_progress_def Let_def t_def u_def by (simp only: if_False fst_conv)
  moreover have "same_locks s t" unfolding t_def by (rule same_locks_upd_job) simp
  moreover have "same_locks t u" by (simp add: u_def)
  moreover have "same_locks u (send_job_event L ''CHANGED'' j u)" by simp
  ultimately show ?thesis using same_locks_trans by metis
qed (simp add: set_progress_def)

text \<open>A job past the queue changes its phase without giving its lock back.\<close>

lemma same_locks_set_phase:
  "holding (q_phase s j) \<Longrightarrow> holding ph \<Longrightarrow> same_locks s (set_phase j ph s)"
  by (simp add: same_locks_def phase_class_def jdefs job_lock_def lock_name_def fun_eq_iff)

lemma set_state_keeps:
  "set_state now st x = Inr y \<Longrightarrow> j_lock y = j_lock x \<and> j_options y = j_options x \<and> j_args y = j_args x"
  by (auto simp: set_state_def split: if_splits)

lemma same_locks_const:
  "j_lock y = j_lock (q_jobs s j) \<and> j_options y = j_options (q_jobs s j) \<and> j_args y = j_args (q_jobs s j) \<Longrightarrow>
     same_locks s (upd_job j (\<lambda>_. y) s)"
  by (auto simp: same_locks_def jdefs job_lock_def lock_name_def get_lock_name_def fun_eq_iff
      split: lock_option.splits)

lemma same_locks_change_state: "keeps_lock f \<Longrightarrow> same_locks s (change_state f now st j s)"
  by (auto simp: change_state_def keeps_lock_def dest!: set_state_keeps intro!: same_locks_const split: sum.split)

lemma same_locks_holding: "same_locks s t \<Longrightarrow> holding (q_phase t j) = holding (q_phase s j)"
  using phase_class_eqD unfolding same_locks_def by blast

lemma same_locks_hold:
  "same_locks s t \<Longrightarrow> holding (q_phase s j) \<Longrightarrow> holding ph \<Longrightarrow> same_locks s (set_phase j ph t)"
  using same_locks_set_phase [of t j ph] same_locks_holding [of s t j] same_locks_trans by blast

lemma same_locks_except:
  assumes "same_locks s t" "holding (q_phase s j)"
  shows "same_locks s (except_cancelled now j t)" "same_locks s (except_exception L now e j t)"
proof -
  have "keeps_lock id" by (simp add: keeps_lock_def)
  then have "same_locks t (change_state id now st j t)"
    and "same_locks t (change_state (set_exception L e) now st j t)" for st
    by (simp_all add: same_locks_change_state)
  then have "same_locks s (change_state id now st j t)"
    and "same_locks s (change_state (set_exception L e) now st j t)" for st
    using assms(1) same_locks_trans by blast+
  then show "same_locks s (except_cancelled now j t)" "same_locks s (except_exception L now e j t)"
    using assms(2) by (simp_all add: except_cancelled_def except_exception_def same_locks_hold)
qed

lemma same_locks_open_logs: "same_locks s (open_logs j s)"
proof -
  define f :: "job \<Rightarrow> job" where "f = (\<lambda>x. x\<lparr>j_logs_path := Some (logs_dir @ ''/'' @ (case j_id (q_jobs s j) of
    None \<Rightarrow> ''None'' | Some i \<Rightarrow> str_of_int i) @ ''.log''), j_logs_fd := Some True\<rparr>)"
  have "same_locks s (upd_job j f s)" by (rule same_locks_upd_job) (simp add: f_def)
  then have "same_locks s ((upd_job j f s)\<lparr>q_log_files := fs\<rparr>)" for fs
    by (rule same_locks_trans) simp
  then show ?thesis by (simp add: open_logs_def Let_def f_def)
qed

lemma same_locks_run_start:
  assumes "q_phase s j = Taken"
  shows "same_locks s (run_start L opened now j s)"
proof -
  have h: "holding (q_phase s j)" using assms by simp
  define t where "t = (if opt_logs (j_options (q_jobs s j)) then open_logs j s else s)"
  have t: "same_locks s t"
    by (simp add: t_def same_locks_open_logs)
  show ?thesis
  proof (cases "if opt_logs (j_options (q_jobs s j)) then opened else None")
    case None
    then have "run_start L opened now j s =
        (if j_aborted (q_jobs t j) then except_cancelled now j t
         else case set_state now RUNNING (q_jobs t j) of
                Inl e \<Rightarrow> except_exception L now e j t
              | Inr x \<Rightarrow> set_phase j Body (upd_job j (\<lambda>_. x\<lparr>j_future := True\<rparr>) t))"
      unfolding run_start_def Let_def t_def by (simp only: option.case)
    moreover have "same_locks s (set_phase j Body (upd_job j (\<lambda>_. x\<lparr>j_future := True\<rparr>) t))"
      if x: "set_state now RUNNING (q_jobs t j) = Inr x" for x
    proof -
      have "same_locks t (upd_job j (\<lambda>_. x\<lparr>j_future := True\<rparr>) t)"
        using set_state_keeps [OF x] by (intro same_locks_const) simp
      with t h show ?thesis by (intro same_locks_hold) (auto intro: same_locks_trans)
    qed
    ultimately show ?thesis
      using same_locks_except [OF t h] by (simp split: sum.split)
  next
    case (Some e)
    have "same_locks s (set_phase j Lost (s\<lparr>q_task_errors := q_task_errors s @ [(j, e)]\<rparr>))"
      using h by (simp add: same_locks_hold)
    with Some show ?thesis by (simp add: run_start_def)
  qed
qed

lemma same_locks_body_returned: "same_locks s (fst (body_returned L now rv j s))"
proof -
  let ?s = "upd_job j (set_result rv) s"
  have s: "same_locks s ?s" by (rule same_locks_upd_job) simp
  show ?thesis
  proof (cases "set_state now SUCCESS (q_jobs ?s j)")
    case (Inr x)
    then have t: "same_locks s (upd_job j (\<lambda>_. x) ?s)"
      by (intro same_locks_trans [OF s same_locks_const]) (use set_state_keeps in auto)
    with Inr show ?thesis
      by (auto simp: body_returned_def Let_def intro: same_locks_trans [OF t same_locks_set_progress])
  qed (use s in \<open>simp add: body_returned_def\<close>)
qed

lemma same_locks_run_body:
  assumes "q_phase s j = Body"
  shows "same_locks s (run_body L now out j s)"
proof -
  have h: "holding (q_phase s j)" using assms by simp
  show ?thesis
  proof (cases out)
    case (Returned rv)
    obtain t r where br: "body_returned L now rv j s = (t, r)" by (cases "body_returned L now rv j s")
    then have t: "same_locks s t" using same_locks_body_returned [of s L now rv j] by simp
    then have "same_locks s (set_phase j Closing t)"
      using h by (simp add: same_locks_hold)
    with same_locks_except(2) [OF t h] br Returned show ?thesis
      by (cases r) (simp_all add: run_body_def)
  qed (use same_locks_except [OF same_locks_refl h] in \<open>simp_all add: run_body_def\<close>)
qed


section \<open>The three steps that change locks\<close>

text \<open>
  A job gets the next reference: it has no lock name, or joins a lock of the table, or a new lock
  enters the table with it.
\<close>

definition joins :: "jobs_queue \<Rightarrow> nat \<Rightarrow> string option \<Rightarrow> nat option \<Rightarrow> jobs_queue \<Rightarrow> bool" where
  "joins s n nm lk t =
     (case nm of
        None \<Rightarrow> lk = None \<and> q_locks t = q_locks s \<and> q_next_lock t = q_next_lock s \<and> q_job_locks t = q_job_locks s
      | Some a \<Rightarrow>
          (case map_of (q_job_locks s) a of
             Some l \<Rightarrow> lk = Some l \<and> q_locks t = (q_locks s)(l := lock_add_job n (q_locks s l)) \<and>
               q_next_lock t = q_next_lock s \<and> q_job_locks t = q_job_locks s
           | None \<Rightarrow> lk = Some (q_next_lock s) \<and>
               q_locks t = (q_locks s)(q_next_lock s := lock_add_job n (JobSharedLock a)) \<and>
               q_next_lock t = q_next_lock s + 1 \<and>
               q_job_locks t = AList.update a (q_next_lock s) (q_job_locks s)))"

lemma lock_inv_extend:
  assumes inv: "lock_inv s" and n: "n = q_next_job s" and ph: "ph = Queued \<or> ph = Rejected"
    and t: "q_next_job t = Suc n" "q_phase t = (q_phase s)(n := ph)"
      "q_queue t = q_queue s @ (if ph = Queued then [n] else [])"
      "job_lock t = (job_lock s)(n := lk)" "lock_name t = (lock_name s)(n := nm)"
      "q_event t = (ph = Queued \<or> q_event s)"
    and lk: "joins s n nm lk t"
  shows "lock_inv t"
proof -
  have ab: "q_phase s n = Absent" and fresh: "\<not> live (q_phase s n)" "\<not> holding (q_phase s n)"
    using inv n by (auto simp: lock_inv_defs)
  have nq: "n \<notin> set (q_queue s)" using ab inv by (simp add: lock_inv_defs)
  note j = joins_def lock_add_job_def JobSharedLock_def less_Suc_eq
  have R: "inv_refs s" and N: "inv_names s" and M: "inv_members s" and T: "inv_table s" and H: "inv_held s"
    and E: "inv_event s" using inv by (simp_all add: lock_inv_def)
  have below: "live (q_phase s k) \<Longrightarrow> job_lock s k \<noteq> Some (q_next_lock s)"
    "holding (q_phase s k) \<Longrightarrow> job_lock s k \<noteq> Some (q_next_lock s)" for k
    using N unfolding inv_names_def by (metis less_irrefl phase_simps(5,15))+
  have "inv_refs t"
    using R n ph t(1,2,3) nq ab by (auto simp: inv_refs_def less_Suc_eq)
  moreover have "inv_names t"
    using N T t(2,4,5) lk ab unfolding inv_names_def inv_table_def
    by (auto simp: j split: option.splits)
  moreover have "inv_members t"
    using M T t(2,4) lk ab ph below(1) unfolding inv_members_def inv_table_def
    by (auto simp: j split: option.splits)
  moreover have "inv_table t"
    using T lk unfolding inv_table_def
    by (auto simp: j split: option.splits) (metis empty_iff option.distinct(1))
  moreover have "holds t k l = holds s k l" for k l
    using t(2,4) ph fresh by (auto simp: holds_def)
  then have "inv_held t"
    using H lk below(2) unfolding inv_held_def
    by (auto simp: j holds_def split: option.splits)
  moreover have "inv_event t"
    using E R t(3,4,6) lk ab ph nq below unfolding inv_event_def inv_refs_def
    by (auto simp: j runnable_job_lock split: option.splits)
  ultimately show ?thesis by (simp add: lock_inv_def)
qed


lemma deque_remove_frame [simp]:
  "q_jobs (deque_remove i s) = q_jobs s" "q_phase (deque_remove i s) = q_phase s"
  "q_queue (deque_remove i s) = q_queue s" "q_locks (deque_remove i s) = q_locks s"
  "q_next_lock (deque_remove i s) = q_next_lock s" "q_job_locks (deque_remove i s) = q_job_locks s"
  "q_event (deque_remove i s) = q_event s" "q_next_job (deque_remove i s) = q_next_job s"
  "q_task_errors (deque_remove i s) = q_task_errors s"
  by (simp_all add: deque_remove_def cleanup_def split: option.split)

lemma deque_add_frame [simp]:
  "q_jobs (deque_add j s) = (q_jobs s)(j := set_id (dq_count (q_deque s) + 1) (q_jobs s j))"
  "q_phase (deque_add j s) = q_phase s"
  "q_queue (deque_add j s) = q_queue s" "q_locks (deque_add j s) = q_locks s"
  "q_next_lock (deque_add j s) = q_next_lock s" "q_job_locks (deque_add j s) = q_job_locks s"
  "q_event (deque_add j s) = q_event s" "q_next_job (deque_add j s) = q_next_job s"
  "q_task_errors (deque_add j s) = q_task_errors s"
  by (simp_all add: deque_add_def Let_def jdefs split: option.split)

lemma enqueue_frame [simp]:
  "q_jobs (enqueue L j s) = (q_jobs s)(j := set_id (dq_count (q_deque s) + 1) (q_jobs s j))"
  "q_phase (enqueue L j s) = (q_phase s)(j := Queued)"
  "q_queue (enqueue L j s) = q_queue s @ [j]" "q_locks (enqueue L j s) = q_locks s"
  "q_next_lock (enqueue L j s) = q_next_lock s" "q_job_locks (enqueue L j s) = q_job_locks s"
  "q_event (enqueue L j s)" "q_next_job (enqueue L j s) = q_next_job s"
  "q_task_errors (enqueue L j s) = q_task_errors s"
  by (simp_all add: enqueue_def Let_def jdefs)

lemma handle_lock_frame:
  assumes "j_lock (q_jobs s j) = None"
  shows "q_phase (handle_lock j s) = q_phase s" "q_queue (handle_lock j s) = q_queue s"
    "q_event (handle_lock j s) = q_event s" "q_next_job (handle_lock j s) = q_next_job s"
    "q_deque (handle_lock j s) = q_deque s" "q_task_errors (handle_lock j s) = q_task_errors s"
    "\<exists>lk. q_jobs (handle_lock j s) = (q_jobs s)(j := (q_jobs s j)\<lparr>j_lock := lk\<rparr>) \<and>
       joins s j (get_lock_name (q_jobs s j)) lk (handle_lock j s)"
  using assms by (auto simp: handle_lock_def jdefs joins_def split: option.splits)

lemma queue_add_cases:
  obtains (rejected) "fst (queue_add L j s) = set_phase j Rejected (handle_lock j s)"
  | (queued) "queue_add L j s = (enqueue L j (handle_lock j s), Inr j)"
proof (cases "opt_lock_queue_size (j_options (q_jobs (handle_lock j s) j))")
  case None
  then show ?thesis by (intro queued) (simp add: queue_add_def)
next
  case (Some limit)
  show ?thesis
  proof (cases "limit \<le> int (length (queued_like j (handle_lock j s)))")
    case True
    with Some show ?thesis by (intro rejected) (simp add: queue_add_def Let_def)
  next
    case False
    with Some show ?thesis by (intro queued) (simp add: queue_add_def)
  qed
qed

lemma joins_frame [simp]:
  "joins (new_job x s) n nm lk t = joins s n nm lk t"
  "joins s n nm lk (set_phase k ph t) = joins s n nm lk t"
  "joins s n nm lk (enqueue L k t) = joins s n nm lk t"
  by (simp_all add: joins_def new_job_def jdefs split: option.split)

lemma get_lock_name_upd [simp]:
  "get_lock_name (x\<lparr>j_lock := lk\<rparr>) = get_lock_name x" "get_lock_name (set_id i x) = get_lock_name x"
  by (simp_all add: get_lock_name_def set_id_def split: lock_option.split)

lemma j_lock_set_id [simp]: "j_lock (set_id i x) = j_lock x"
  by (simp add: set_id_def)

lemma lock_inv_submit:
  assumes inv: "lock_inv s" and x: "j_lock x = None"
  shows "lock_inv (fst (submit L x s))"
proof -
  let ?n = "q_next_job s" and ?s = "new_job x s"
  have s: "q_phase ?s = q_phase s" "q_queue ?s = q_queue s" "q_event ?s = q_event s"
    "q_next_job ?s = Suc ?n" "q_jobs ?s = (q_jobs s)(?n := x)"
    by (simp_all add: new_job_def)
  have xn: "j_lock (q_jobs ?s ?n) = None" using x s by simp
  obtain lk where h: "q_jobs (handle_lock ?n ?s) = (q_jobs ?s)(?n := x\<lparr>j_lock := lk\<rparr>)"
      "joins s ?n (get_lock_name x) lk (handle_lock ?n ?s)"
    using handle_lock_frame(7) [OF xn] s by auto
  note f = handle_lock_frame(1-6) [OF xn]
  show ?thesis
  proof (cases rule: queue_add_cases [of L ?n ?s])
    case rejected
    have "lock_inv (set_phase ?n Rejected (handle_lock ?n ?s))"
      by (rule lock_inv_extend [OF inv refl, where lk = lk and nm = "get_lock_name x" and ph = Rejected])
        (use h f s in \<open>simp_all add: job_lock_def lock_name_def fun_eq_iff\<close>, simp_all add: jdefs)
    with rejected show ?thesis by (simp add: submit_def)
  next
    case queued
    have "lock_inv (enqueue L ?n (handle_lock ?n ?s))"
      by (rule lock_inv_extend [OF inv refl, where lk = lk and nm = "get_lock_name x" and ph = Queued])
        (use h f s in \<open>simp_all add: job_lock_def lock_name_def fun_eq_iff\<close>)
    with queued show ?thesis by (simp add: submit_def)
  qed
qed

lemma find_SomeD: "find P xs = Some x \<Longrightarrow> P x \<and> x \<in> set xs"
  by (induction xs) (auto split: if_splits)

lemma find_NoneD: "find P xs = None \<Longrightarrow> x \<in> set xs \<Longrightarrow> \<not> P x"
  by (induction xs) (auto split: if_splits)

text \<open>A scheduler pass, as a whole.\<close>

lemma schedule_cases:
  obtains (idle) "find (runnable s) (q_queue s) = None" "schedule s = s\<lparr>q_event := False\<rparr>"
  | (taken) j where "find (runnable s) (q_queue s) = Some j"
      "q_phase (schedule s) = (q_phase s)(j := Taken)" "q_queue (schedule s) = remove1 j (q_queue s)"
      "q_locks (schedule s) = (case job_lock s j of None \<Rightarrow> q_locks s
         | Some l \<Rightarrow> (q_locks s)(l := lock_acquire (q_locks s l)))"
      "q_event (schedule s) = (remove1 j (q_queue s) \<noteq> [] \<and> q_event s)"
      "q_jobs (schedule s) = q_jobs s" "q_next_job (schedule s) = q_next_job s"
      "q_next_lock (schedule s) = q_next_lock s" "q_job_locks (schedule s) = q_job_locks s"
      "q_deque (schedule s) = q_deque s" "q_task_errors (schedule s) = q_task_errors s"
proof (cases "find (runnable s) (q_queue s)")
  case None
  then show ?thesis by (intro idle) (simp_all add: schedule_def next_pass_def)
next
  case (Some j)
  then show ?thesis
    by (intro taken [of j])
      (simp_all add: schedule_def next_pass_def Let_def jdefs job_lock_def split: option.split)
qed

lemma lock_inv_schedule:
  assumes inv: "lock_inv s" and ev: "q_event s"
  shows "lock_inv (schedule s)"
proof (cases rule: schedule_cases [of s])
  case idle
  then have "\<forall>j \<in> set (q_queue s). \<not> runnable s j" using find_NoneD by fast
  with inv idle(2) show ?thesis
    by (simp add: lock_inv_defs)
next
  case (taken j)
  let ?t = "schedule s"
  have R: "inv_refs s" and N: "inv_names s" and M: "inv_members s" and T: "inv_table s" and H: "inv_held s"
    using inv by (simp_all add: lock_inv_def)
  have run: "runnable s j" and q: "j \<in> set (q_queue s)" using find_SomeD [OF taken(1)] by auto
  have ph: "q_phase s j = Queued" using q R by (simp add: inv_refs_def)
  have jl: "job_lock ?t = job_lock s" "lock_name ?t = lock_name s"
    using taken by (simp_all add: job_lock_def lock_name_def fun_eq_iff)
  have Nj: "job_lock s j = Some l \<Longrightarrow> l < q_next_lock s \<and> lock_name s j = Some (lk_name (q_locks s l))"
    "job_lock s j = None \<Longrightarrow> lock_name s j = None" for l
    using N ph phase.distinct(3) unfolding inv_names_def by metis+
  have free: "\<not> (holding (q_phase s k) \<and> job_lock s k = Some l)" if "job_lock s j = Some l" for k l
  proof -
    have "l < q_next_lock s" using Nj(1) that by simp
    moreover have "\<not> lk_locked (q_locks s l)" using run that by (simp add: runnable_job_lock)
    ultimately show ?thesis using H unfolding inv_held_def holds_def by blast
  qed
  have "inv_refs ?t" using R q taken(2,3,7) by (auto simp: inv_refs_def)
  moreover have "inv_names ?t"
    using N Nj taken(2,4,8) jl unfolding inv_names_def by (auto simp: lock_acquire_def split: option.splits)
  moreover have "inv_members ?t"
    using M ph taken(2,4,8) jl unfolding inv_members_def by (auto simp: lock_acquire_def split: option.splits)
  moreover have "inv_table ?t"
    using T taken(4,8,9) unfolding inv_table_def by (auto simp: lock_acquire_def split: option.splits)
  moreover have "holds ?t k l = (holds s k l \<or> k = j \<and> job_lock s j = Some l)" for k l
    using taken(2) jl ph by (auto simp: holds_def)
  then have "inv_held ?t"
    using H taken(4,8) free unfolding inv_held_def
    by (auto simp: lock_acquire_def holds_def split: option.splits)
  moreover have "inv_event ?t"
    using ev taken(3,5) by (auto simp: inv_event_def)
  ultimately show ?thesis by (simp add: lock_inv_def)
qed


text \<open>
  Releasing the lock of a job past the queue never raises: the lock is held and is in the table.
\<close>

lemma release_lock_ok:
  assumes inv: "lock_inv s" and h: "holding (q_phase s j)" and l: "job_lock s j = Some l"
  defines "lk \<equiv> q_locks s l"
  shows "release_lock j s =
    (s\<lparr>q_locks := (q_locks s)(l := lk\<lparr>lk_jobs := lk_jobs lk - {j}, lk_locked := False\<rparr>),
       q_job_locks := (if lk_jobs lk - {j} = {} then AList.delete (lk_name lk) (q_job_locks s) else q_job_locks s),
       q_event := True\<rparr>, None)"
proof -
  have "q_phase s j \<noteq> Absent" using h by auto
  then have b: "l < q_next_lock s" using inv l unfolding lock_inv_def inv_names_def by blast
  then have locked: "lk_locked (q_locks s l)"
    using inv h l unfolding lock_inv_def inv_held_def holds_def by blast
  have "j \<in> lk_jobs (q_locks s l)"
    using inv b l holding_live [OF h] unfolding lock_inv_def inv_members_def by blast
  then have "map_of (q_job_locks s) (lk_name (q_locks s l)) = Some l"
    using inv b unfolding lock_inv_def inv_table_def by blast
  with locked l show ?thesis
    by (auto simp: release_lock_def job_lock_def Let_def jdefs lock_remove_job_def lock_release_def lk_def)
qed

lemma lock_inv_leave:
  assumes inv: "lock_inv s" and h: "holding (q_phase s j)" and r: "release_lock j s = (s', None)"
    and t: "same_locks (set_phase j Finished s') t"
  shows "lock_inv t"
proof (rule lock_inv_same [OF t])
  let ?t = "set_phase j Finished s'"
  have R: "inv_refs s" and N: "inv_names s" and M: "inv_members s" and T: "inv_table s" and H: "inv_held s"
    and E: "inv_event s" using inv by (simp_all add: lock_inv_def)
  have nq: "q_phase s j \<noteq> Queued" "q_phase s j \<noteq> Absent" using h by auto
  show "lock_inv ?t"
  proof (cases "job_lock s j")
    case None
    then have s': "s' = s" using r by (simp add: release_lock_def job_lock_def)
    have "holds ?t = holds s"
      using None by (auto simp: fun_eq_iff holds_def s' jdefs job_lock_def)
    moreover have "runnable ?t = runnable s" "job_lock ?t = job_lock s" "lock_name ?t = lock_name s"
      by (auto simp: fun_eq_iff s' jdefs job_lock_def lock_name_def runnable_def split: option.split)
    ultimately show ?thesis
      using R N M T H E nq None unfolding lock_inv_defs by (auto simp: s' jdefs)
  next
    case (Some l)
    let ?lk = "q_locks s l"
    have s': "s' = s\<lparr>q_locks := (q_locks s)(l := ?lk\<lparr>lk_jobs := lk_jobs ?lk - {j}, lk_locked := False\<rparr>),
       q_job_locks := (if lk_jobs ?lk - {j} = {} then AList.delete (lk_name ?lk) (q_job_locks s) else q_job_locks s),
       q_event := True\<rparr>"
      using release_lock_ok [OF inv h Some] r by simp
    have jl: "job_lock ?t = job_lock s" "lock_name ?t = lock_name s"
      by (auto simp: fun_eq_iff s' jdefs job_lock_def lock_name_def)
    have b: "l < q_next_lock s" using N nq Some unfolding inv_names_def by blast
    have tab: "map_of (q_job_locks s) (lk_name ?lk) = Some l"
      using T b M Some holding_live [OF h] unfolding inv_table_def inv_members_def by blast
    have "inv_refs ?t" using R nq by (auto simp: inv_refs_def s' jdefs)
    moreover have "inv_names ?t" using N nq jl unfolding inv_names_def by (auto simp: s' jdefs)
    moreover have "inv_members ?t"
      using M nq jl Some unfolding inv_members_def by (auto simp: s' jdefs)
    moreover have "inv_table ?t"
    proof -
      have "m = l" if "m < q_next_lock s" "lk_name (q_locks s m) = lk_name ?lk" "lk_jobs (q_locks s m) \<noteq> {}" for m
        using T tab that unfolding inv_table_def by (metis option.inject)
      then show ?thesis using T tab b unfolding inv_table_def by (auto simp: s' jdefs)
    qed
    moreover have "holds ?t k m = (holds s k m \<and> k \<noteq> j)" for k m
      using jl by (auto simp: holds_def s' jdefs)
    then have "inv_held ?t"
      using H Some h b unfolding inv_held_def by (auto simp: s' jdefs holds_def)
    moreover have "inv_event ?t" by (simp add: inv_event_def s' jdefs)
    ultimately show ?thesis by (simp add: lock_inv_def)
  qed
qed


section \<open>The life of a job\<close>

text \<open>
  \<open>job_ok ph x\<close>: what the fields of a job say while its coroutine stands at \<open>ph\<close>. \<open>life_inv\<close> adds that a
  task that died with an exception belongs to a lost job that writes a log.
\<close>

definition phase_state :: "phase \<Rightarrow> job_state \<Rightarrow> bool" where
  "phase_state ph st =
     (case ph of Absent \<Rightarrow> True | Body \<Rightarrow> st = RUNNING | Closing \<Rightarrow> terminal st | Finished \<Rightarrow> terminal st
      | _ \<Rightarrow> st = WAITING)"

definition job_ok :: "phase \<Rightarrow> job \<Rightarrow> bool" where
  "job_ok ph x \<longleftrightarrow> phase_state ph (j_state x) \<and>
     (ph \<noteq> Absent \<longrightarrow>
        j_finished x = (ph = Finished) \<and>
        (j_time_finished x \<noteq> None) = terminal (j_state x) \<and>
        (j_error x \<noteq> None) = (j_state x = FAILED) \<and>
        (j_exception x \<noteq> None) = (j_state x = FAILED) \<and>
        (j_exc_info x \<noteq> None) = (j_state x = FAILED) \<and>
        (j_state x \<noteq> SUCCESS \<longrightarrow> j_result x = PNone))"

definition life_inv :: "jobs_queue \<Rightarrow> bool" where
  "life_inv s \<longleftrightarrow> (\<forall>j. job_ok (q_phase s j) (q_jobs s j)) \<and>
     (\<forall>(j, e) \<in> set (q_task_errors s). q_phase s j = Lost \<and> opt_logs (j_options (q_jobs s j)))"

lemmas job_ok_defs = job_ok_def phase_state_def

text \<open>A step that replaces one job and its phase.\<close>

definition moves :: "nat \<Rightarrow> jobs_queue \<Rightarrow> phase \<Rightarrow> job \<Rightarrow> jobs_queue \<Rightarrow> bool" where
  "moves j s ph x t \<longleftrightarrow> q_phase t = (q_phase s)(j := ph) \<and> q_jobs t = (q_jobs s)(j := x)"

text \<open>The call a job stands for: its number, its options and its arguments.\<close>

definition same_call :: "job \<Rightarrow> job \<Rightarrow> bool" where
  "same_call x y \<longleftrightarrow> j_id x = j_id y \<and> j_options x = j_options y \<and> j_args x = j_args y"

lemma life_inv_moves:
  assumes "life_inv s" "moves j s ph x t" "job_ok ph x" "q_phase s j \<noteq> Lost"
    and "q_task_errors t = q_task_errors s \<or>
      (\<exists>e. q_task_errors t = q_task_errors s @ [(j, e)] \<and> ph = Lost \<and> opt_logs (j_options x))"
  shows "life_inv t"
  using assms unfolding life_inv_def moves_def by fastforce

lemma Job_init_fresh:
  "Job_init now nm m args opts ps cb = Inr x \<Longrightarrow>
     j_lock x = None \<and> j_id x = None \<and> j_options x = opts \<and> j_args x = args \<and>
     job_ok Rejected x \<and> job_ok Queued x"
  by (auto simp: Job_init_def Let_def res_simps job_ok_defs split: if_splits)

lemma set_state_RUNNING:
  "set_state now RUNNING x = (if j_state x = WAITING then Inr (x\<lparr>j_state := RUNNING\<rparr>) else Inl AssertionError)"
  by (cases "j_state x") (simp_all add: set_state_def)

lemma set_state_SUCCESS:
  "set_state now SUCCESS x = (if j_state x = RUNNING
     then Inr (x\<lparr>j_state := SUCCESS, j_time_finished := Some now\<rparr>) else Inl AssertionError)"
  by (cases "j_state x") (simp_all add: set_state_def)

lemma set_state_over:
  "st = FAILED \<or> st = ABORTED \<Longrightarrow> set_state now st x = (if \<not> terminal (j_state x)
     then Inr (x\<lparr>j_state := st, j_time_finished := Some now\<rparr>) else Inl AssertionError)"
  by (cases "j_state x"; cases st) (simp_all add: set_state_def)

lemmas set_state_simps = set_state_RUNNING set_state_SUCCESS set_state_over

lemma except_moves:
  assumes "\<not> terminal (j_state (q_jobs s j))"
  shows "moves j s Closing ((q_jobs s j)\<lparr>j_state := ABORTED, j_time_finished := Some now\<rparr>) (except_cancelled now j s)"
    and "moves j s Closing (set_exception L e ((q_jobs s j)\<lparr>j_state := FAILED, j_time_finished := Some now\<rparr>))
           (except_exception L now e j s)"
    and "q_task_errors (except_cancelled now j s) = q_task_errors s"
    and "q_task_errors (except_exception L now e j s) = q_task_errors s"
    and "q_deque (except_cancelled now j s) = q_deque s" "q_deque (except_exception L now e j s) = q_deque s"
  using assms
  by (simp_all add: moves_def except_cancelled_def except_exception_def change_state_def set_state_simps jdefs)

lemma set_progress_moves:
  "moves j s (q_phase s j) (q_jobs (fst (set_progress L p d e j s)) j) (fst (set_progress L p d e j s))"
  "\<exists>g. q_jobs (fst (set_progress L p d e j s)) j = (q_jobs s j)\<lparr>j_progress := g\<rparr>"
  "q_task_errors (fst (set_progress L p d e j s)) = q_task_errors s"
  "q_deque (fst (set_progress L p d e j s)) = q_deque s"
  by (auto simp: moves_def set_progress_def Let_def jdefs intro: exI [of _ "j_progress (q_jobs s j)"])


lemma run_start_moves:
  assumes "q_phase s j = Taken" "job_ok Taken (q_jobs s j)"
  shows "\<exists>ph x. moves j s ph x (run_start L opened now j s) \<and> job_ok ph x \<and> ph \<in> {Body, Closing, Lost} \<and>
     same_call x (q_jobs s j) \<and>
     (if ph = Lost then opt_logs (j_options x) \<and> (\<exists>e. q_task_errors (run_start L opened now j s) = q_task_errors s @ [(j, e)])
      else q_task_errors (run_start L opened now j s) = q_task_errors s)"
proof -
  let ?x = "q_jobs s j"
  let ?logs = "opt_logs (j_options ?x)"
  have w: "j_state ?x = WAITING" using assms(2) by (simp add: job_ok_defs)
  show ?thesis
  proof (cases "if ?logs then opened else None")
    case None
    define t where "t = (if ?logs then open_logs j s else s)"
    have jt: "q_jobs t = (q_jobs s)(j := q_jobs t j)" "q_phase t = q_phase s" "q_task_errors t = q_task_errors s"
      by (auto simp: t_def open_logs_def Let_def jdefs)
    have xt: "job_ok Taken (q_jobs t j)" "j_state (q_jobs t j) = WAITING" "same_call (q_jobs t j) ?x"
      using assms(2) w by (auto simp: t_def open_logs_def Let_def jdefs job_ok_defs same_call_def)
    have eq: "run_start L opened now j s =
        (if j_aborted (q_jobs t j) then except_cancelled now j t
         else set_phase j Body (upd_job j (\<lambda>_. (q_jobs t j)\<lparr>j_state := RUNNING, j_future := True\<rparr>) t))"
      using None xt(2) unfolding run_start_def Let_def t_def [symmetric] by (simp add: set_state_simps)
    show ?thesis
    proof (cases "j_aborted (q_jobs t j)")
      case True
      then show ?thesis
        using eq except_moves(1,3) [of t j now] jt xt
        by (intro exI [of _ Closing] exI [of _ "(q_jobs t j)\<lparr>j_state := ABORTED, j_time_finished := Some now\<rparr>"])
          (simp add: moves_def job_ok_defs same_call_def, metis fun_upd_upd)
    next
      case False
      then show ?thesis
        using eq jt xt
        by (intro exI [of _ Body] exI [of _ "(q_jobs t j)\<lparr>j_state := RUNNING, j_future := True\<rparr>"])
          (simp add: moves_def job_ok_defs jdefs same_call_def, metis fun_upd_upd)
    qed
  next
    case (Some e)
    then have "?logs" by (auto split: if_splits)
    with Some assms show ?thesis
      by (intro exI [of _ Lost] exI [of _ ?x]) (auto simp: run_start_def moves_def jdefs job_ok_defs same_call_def)
  qed
qed

lemma set_phase_errors: "q_task_errors (set_phase j ph s) = q_task_errors s"
  by (simp add: jdefs)

lemma body_returned_ok:
  assumes "j_state (q_jobs s j) = RUNNING"
  obtains u g where "body_returned L now rv j s = (u, None)" "q_phase u = q_phase s"
    "q_jobs u = (q_jobs s)(j := (q_jobs s j)\<lparr>j_result := rv, j_state := SUCCESS, j_time_finished := Some now,
       j_progress := g\<rparr>)" "q_task_errors u = q_task_errors s"
proof -
  define x where "x = (q_jobs s j)\<lparr>j_result := rv, j_state := SUCCESS, j_time_finished := Some now\<rparr>"
  define t where "t = upd_job j (\<lambda>_. x) s"
  have t: "q_jobs t j = x" "q_phase t = q_phase s" "q_jobs t = (q_jobs s)(j := x)" "q_task_errors t = q_task_errors s"
    by (simp_all add: t_def jdefs)
  have "set_state now SUCCESS (set_result rv (q_jobs s j)) = Inr x"
    using assms by (simp add: set_state_simps set_result_def x_def)
  then have br: "body_returned L now rv j s =
      (if \<not> py_eq (p_percent (j_progress x)) (PInt 100) then set_progress L (PInt 100) (PStr []) PNone j t else (t, None))"
    by (simp add: body_returned_def Let_def jdefs t_def)
  note m = set_progress_moves [where L = L and s = t and j = j and p = "PInt 100" and d = "PStr []" and e = PNone]
  have pr: "set_progress L (PInt 100) (PStr []) PNone j t = (fst (set_progress L (PInt 100) (PStr []) PNone j t), None)"
    by (simp add: set_progress_def Let_def)
  obtain g where g: "q_jobs (fst (set_progress L (PInt 100) (PStr []) PNone j t)) j = x\<lparr>j_progress := g\<rparr>"
    using m(2) t(1) by auto
  show thesis
  proof (cases "py_eq (p_percent (j_progress x)) (PInt 100)")
    case True
    with br t show thesis by (intro that [of t "j_progress x"]) (simp_all add: x_def)
  next
    case False
    with br pr have "body_returned L now rv j s = (fst (set_progress L (PInt 100) (PStr []) PNone j t), None)" by simp
    moreover have "q_jobs (fst (set_progress L (PInt 100) (PStr []) PNone j t)) = (q_jobs t)(j := x\<lparr>j_progress := g\<rparr>)"
      using m(1) g unfolding moves_def by metis
    moreover have "q_phase (fst (set_progress L (PInt 100) (PStr []) PNone j t)) = q_phase t"
      using m(1) unfolding moves_def by (metis fun_upd_triv)
    ultimately show thesis
      using m(3) t by (intro that [of "fst (set_progress L (PInt 100) (PStr []) PNone j t)" g]) (simp_all add: x_def)
  qed
qed

lemma run_body_moves:
  assumes "q_phase s j = Body" "job_ok Body (q_jobs s j)"
  shows "\<exists>x. moves j s Closing x (run_body L now out j s) \<and> job_ok Closing x \<and> same_call x (q_jobs s j) \<and>
     q_task_errors (run_body L now out j s) = q_task_errors s"
proof -
  have r: "j_state (q_jobs s j) = RUNNING" using assms(2) by (simp add: job_ok_defs)
  show ?thesis
  proof (cases out)
    case (Returned rv)
    obtain u g where u: "body_returned L now rv j s = (u, None)" "q_phase u = q_phase s"
      "q_jobs u = (q_jobs s)(j := (q_jobs s j)\<lparr>j_result := rv, j_state := SUCCESS, j_time_finished := Some now,
         j_progress := g\<rparr>)" "q_task_errors u = q_task_errors s"
      by (rule body_returned_ok [OF r])
    have rb: "run_body L now out j s = set_phase j Closing u" using u(1) Returned by (simp add: run_body_def)
    have "moves j s Closing (q_jobs u j) (set_phase j Closing u)" using u by (simp add: moves_def jdefs)
    moreover have "job_ok Closing (q_jobs u j)" "same_call (q_jobs u j) (q_jobs s j)"
      using assms(2) u(3) by (auto simp: job_ok_defs same_call_def)
    ultimately show ?thesis using rb u(4) by (metis set_phase_errors)
  next
    case (Raised e)
    with except_moves(2,4) [where s = s and j = j and L = L and now = now and e = "adapted L e"] r assms(2)
    show ?thesis by (auto simp: run_body_def job_ok_defs set_exception_def same_call_def)
  next
    case Cancelled
    with except_moves(1,3) [where s = s and j = j and now = now] r assms(2) show ?thesis
      by (auto simp: run_body_def job_ok_defs same_call_def)
  qed
qed

lemma run_finally_moves:
  assumes inv: "lock_inv s" and ph: "q_phase s j = Closing" and ok: "job_ok Closing (q_jobs s j)"
  shows "\<exists>x. moves j s Finished x (run_finally L content j s) \<and> job_ok Finished x \<and> same_call x (q_jobs s j) \<and>
     q_task_errors (run_finally L content j s) = q_task_errors s \<and> lock_inv (run_finally L content j s)"
proof -
  define t where "t = upd_job j (close_pipes \<circ> close_logs content) s"
  have st: "same_locks s t" unfolding t_def by (rule same_locks_upd_job) simp
  have it: "lock_inv t" by (rule lock_inv_same [OF st inv])
  have ht: "holding (q_phase t j)" using ph by (simp add: t_def jdefs)
  obtain u where u: "release_lock j t = (u, None)" "q_jobs u = q_jobs t" "q_phase u = q_phase t"
      "q_task_errors u = q_task_errors t"
    using release_lock_ok [OF it ht] by (cases "job_lock t j") (auto simp: release_lock_def job_lock_def)
  define v where "v = set_phase j Finished (upd_job j (\<lambda>x. x\<lparr>j_finished := True\<rparr>) u)"
  define w where "w = run_finally L content j s"
  have eq: "w = (if opt_transient (j_options (q_jobs v j))
      then (case j_id (q_jobs v j) of None \<Rightarrow> v | Some i \<Rightarrow> deque_remove i v) else send_job_event L ''CHANGED'' j v)"
    using u(1) unfolding w_def run_finally_def Let_def t_def [symmetric] v_def
    by (simp only: prod.case option.case)
  have f: "q_jobs w = q_jobs v" "q_phase w = q_phase v" "q_task_errors w = q_task_errors v"
    using eq by (auto simp: jdefs split: option.splits)
  have "same_locks v w"
    using eq by (auto simp: same_locks_def job_lock_def lock_name_def fun_eq_iff jdefs split: option.splits)
  moreover have "same_locks (set_phase j Finished u) v"
    unfolding v_def by (auto simp: same_locks_def job_lock_def lock_name_def get_lock_name_def fun_eq_iff jdefs
        split: lock_option.splits)
  ultimately have "lock_inv w"
    using lock_inv_leave [OF it ht u(1)] same_locks_trans by blast
  moreover have "moves j s Finished (q_jobs v j) w" "q_task_errors w = q_task_errors s"
    using f u by (auto simp: moves_def v_def t_def jdefs)
  moreover have "job_ok Finished (q_jobs v j)" "same_call (q_jobs v j) (q_jobs s j)"
    using ok u(2) by (auto simp: v_def t_def jdefs job_ok_defs close_pipes_def close_logs_def same_call_def)
  ultimately show ?thesis unfolding w_def by blast
qed


section \<open>Every reachable state satisfies the invariant\<close>

lemma submit_moves:
  assumes inv: "lock_inv s" and x: "j_lock x = None" "job_ok Rejected x" "job_ok Queued x" "j_id x = None"
  obtains (rejected) y where "moves (q_next_job s) s Rejected y (fst (submit L x s))" "job_ok Rejected y"
      "q_task_errors (fst (submit L x s)) = q_task_errors s" "q_deque (fst (submit L x s)) = q_deque s"
      "q_queue (fst (submit L x s)) = q_queue s"
  | (queued) y lk where "moves (q_next_job s) s Queued y (fst (submit L x s))" "job_ok Queued y"
      "q_task_errors (fst (submit L x s)) = q_task_errors s" "y = x\<lparr>j_lock := lk, j_id := Some (dq_count (q_deque s) + 1)\<rparr>"
      "fst (submit L x s) = enqueue L (q_next_job s) (handle_lock (q_next_job s) (new_job x s))"
proof -
  let ?n = "q_next_job s" and ?s = "new_job x s"
  have xn: "j_lock (q_jobs ?s ?n) = None" "q_jobs ?s ?n = x" using x(1) by (simp_all add: new_job_def)
  obtain lk where h: "q_jobs (handle_lock ?n ?s) = (q_jobs s)(?n := x\<lparr>j_lock := lk\<rparr>)"
    using handle_lock_frame(7) [OF xn(1)] xn(2) by (auto simp: new_job_def)
  note f = handle_lock_frame(1-6) [OF xn(1)]
  have s: "q_phase ?s = q_phase s" "q_task_errors ?s = q_task_errors s" "q_deque ?s = q_deque s" "q_queue ?s = q_queue s"
    by (simp_all add: new_job_def)
  show thesis
  proof (cases rule: queue_add_cases [of L ?n ?s])
    case r: rejected
    show thesis
      by (rule rejected [of "x\<lparr>j_lock := lk\<rparr>"])
        (use r h f s x in \<open>simp_all add: submit_def moves_def jdefs job_ok_defs\<close>)
  next
    case q: queued
    show thesis
      by (rule queued [of "x\<lparr>j_lock := lk, j_id := Some (dq_count (q_deque s) + 1)\<rparr>" lk])
        (use q h f s x in \<open>simp_all add: submit_def moves_def set_id_def job_ok_defs\<close>)
  qed
qed

lemma life_inv_init: "life_inv (JobsQueue_init maxlen blank)"
  by (simp add: life_inv_def JobsQueue_init_def job_ok_defs)

lemma life_inv_job: "life_inv s \<Longrightarrow> job_ok (q_phase s j) (q_jobs s j)"
  by (simp add: life_inv_def)

lemma life_inv_same_phase:
  assumes "life_inv s" "q_phase t = q_phase s" "q_task_errors t = q_task_errors s"
    and "\<And>j. job_ok (q_phase s j) (q_jobs t j)" "\<And>j. j_options (q_jobs t j) = j_options (q_jobs s j)"
  shows "life_inv t"
  using assms unfolding life_inv_def by auto

lemma life_inv_schedule: "lock_inv s \<Longrightarrow> life_inv s \<Longrightarrow> life_inv (schedule s)"
proof (cases rule: schedule_cases [of s])
  case idle
  assume "life_inv s"
  with idle(2) show ?thesis by (simp add: life_inv_def)
next
  case (taken j)
  assume inv: "lock_inv s" and life: "life_inv s"
  have "q_phase s j = Queued"
    using find_SomeD [OF taken(1)] inv by (simp add: lock_inv_def inv_refs_def)
  with life_inv_job [OF life, of j] have "job_ok Taken (q_jobs s j)" by (simp add: job_ok_defs)
  moreover have "moves j s Taken (q_jobs s j) (schedule s)" using taken(2,6) by (simp add: moves_def)
  ultimately show ?thesis
    using life_inv_moves [OF life] \<open>q_phase s j = Queued\<close> taken(11) by auto
qed

lemma inv_step:
  assumes inv: "lock_inv s" "life_inv s" and step: "jstep L s t"
  shows "lock_inv t \<and> life_inv t"
  using step
proof cases
  case (step_submit now nm m args opts ps cb x)
  note x = Job_init_fresh [OF step_submit(2)]
  have ab: "q_phase s (q_next_job s) \<noteq> Lost" using inv(1) by (auto simp: lock_inv_def inv_refs_def)
  have "life_inv (fst (submit L x s))"
    by (rule submit_moves [OF inv(1), of x L]) (use x life_inv_moves [OF inv(2) _ _ ab] in auto)
  with x lock_inv_submit [OF inv(1), of x L] step_submit show ?thesis by simp
next
  case step_schedule
  with inv lock_inv_schedule life_inv_schedule show ?thesis by simp
next
  case (step_start j opened now)
  note ok = life_inv_job [OF inv(2), of j, unfolded step_start(2)]
  obtain ph x where m: "moves j s ph x t" "job_ok ph x"
      "if ph = Lost then opt_logs (j_options x) \<and> (\<exists>e. q_task_errors t = q_task_errors s @ [(j, e)])
       else q_task_errors t = q_task_errors s"
    using run_start_moves [OF step_start(2) ok, of L opened now] step_start(1) by metis
  then have "life_inv t"
    using life_inv_moves [OF inv(2) m(1,2)] step_start(2) by (auto split: if_splits)
  with lock_inv_same [OF same_locks_run_start [OF step_start(2)] inv(1)] step_start(1) show ?thesis by simp
next
  case (step_body j now out)
  note ok = life_inv_job [OF inv(2), of j, unfolded step_body(2)]
  obtain x where m: "moves j s Closing x t" "job_ok Closing x" "q_task_errors t = q_task_errors s"
    using run_body_moves [OF step_body(2) ok, of L now out] step_body(1) by metis
  then have "life_inv t" using life_inv_moves [OF inv(2) m(1,2)] step_body(2) by auto
  with lock_inv_same [OF same_locks_run_body [OF step_body(2)] inv(1)] step_body(1) show ?thesis by simp
next
  case (step_finally j content)
  note ok = life_inv_job [OF inv(2), of j, unfolded step_finally(2)]
  obtain x where m: "moves j s Finished x t" "job_ok Finished x" "q_task_errors t = q_task_errors s" "lock_inv t"
    using run_finally_moves [OF inv(1) step_finally(2) ok, of L content] step_finally(1) by metis
  then show ?thesis using life_inv_moves [OF inv(2) m(1,2)] step_finally(2) by auto
next
  case (step_progress j p d e)
  note m = set_progress_moves [where L = L and s = s and j = j and p = p and d = d and e = e]
  obtain g where "q_jobs t j = (q_jobs s j)\<lparr>j_progress := g\<rparr>" using m(2) step_progress(1) by auto
  then have "job_ok (q_phase s j) (q_jobs t j)" "j_options (q_jobs t j) = j_options (q_jobs s j)"
    using life_inv_job [OF inv(2), of j] by (auto simp: job_ok_defs split: phase.splits)
  moreover have "q_phase t = q_phase s" "q_jobs t = (q_jobs s)(j := q_jobs t j)"
    using m(1) step_progress(1) unfolding moves_def by (metis fun_upd_triv)+
  then have "q_phase t = q_phase s" "k \<noteq> j \<Longrightarrow> q_jobs t k = q_jobs s k" for k by (metis fun_upd_other)+
  ultimately have "life_inv t"
    using life_inv_same_phase [OF inv(2), of t] life_inv_job [OF inv(2)] m(3) step_progress(1) by metis
  with lock_inv_same [OF same_locks_set_progress inv(1)] step_progress(1) show ?thesis by simp
next
  case (step_abort j)
  have "job_ok ph x \<Longrightarrow> job_ok ph (abort x)" "j_options (abort x) = j_options x" for ph x
    by (auto simp: job_ok_defs abort_def Let_def split: phase.splits)
  then have "life_inv t"
    using life_inv_same_phase [OF inv(2), of t] life_inv_job [OF inv(2)] step_abort(1) by (simp add: jdefs)
  moreover have "same_locks s t" using step_abort(1) by (simp add: same_locks_upd_job)
  ultimately show ?thesis using lock_inv_same inv(1) by blast
qed

lemma reachable_inv: "reachable L s \<Longrightarrow> lock_inv s \<and> life_inv s"
  by (induction rule: reachable.induct) (use lock_inv_init life_inv_init inv_step in blast)+

end
