(* ===== verification/Jobs_Sample.thy ===== *)
theory Jobs_Sample
  imports Jobs_Sched
begin

text \<open>
  Concrete states of the job queue at which the properties of the job theories are exercised.
  Two jobs with locks \<open>a\<close> and \<open>b\<close>, taken by the scheduler; a job that logs and cannot open its log file; a
  job with no lock that has run to its end.
\<close>

definition sample_jlib :: jlib where
  "sample_jlib = \<lparr>exn_text = (\<lambda>_. ''boom''), format_exception = (\<lambda>_. ''trace''), type_name = (\<lambda>_. ''Error''),
     msg_text = (\<lambda>_. []), errno_number = (\<lambda>_. 22), decode_ignore = (\<lambda>x. x), shell_quote = (\<lambda>x. x)\<rparr>"

definition sample_job :: "job_options \<Rightarrow> job" where
  "sample_job opts = projr (Job_init 0 ''pool.scrub'' \<lparr>meth_name = ''scrub'', meth_accepts = None, meth_child = None\<rparr> [] opts None False)"

abbreviation sample_lock :: "string \<Rightarrow> job_options" where
  "sample_lock nm \<equiv> job_decorator\<lparr>opt_lock := LockName nm\<rparr>"

definition sample_start :: jobs_queue where
  "sample_start = JobsQueue_init 1000 (sample_job job_decorator)"

definition sample_queued :: jobs_queue where
  "sample_queued = fst (submit sample_jlib (sample_job (sample_lock ''b''))
     (fst (submit sample_jlib (sample_job (sample_lock ''a'')) sample_start)))"

definition sample_two :: jobs_queue where
  "sample_two = schedule (schedule sample_queued)"

definition sample_lost :: jobs_queue where
  "sample_lost = run_start sample_jlib (Some (OtherException [])) 1 0
     (schedule (fst (submit sample_jlib (sample_job (sample_lock ''a''\<lparr>opt_logs := True\<rparr>)) sample_start)))"

definition sample_done :: jobs_queue where
  "sample_done = run_finally sample_jlib None 0 (run_body sample_jlib 5 (Returned (PInt 3)) 0
     (run_start sample_jlib None 1 0 (schedule (fst (submit sample_jlib (sample_job job_decorator) sample_start)))))"

lemma sample_job_init:
  "opt_pipes opts = [] \<Longrightarrow>
   Job_init 0 ''pool.scrub'' \<lparr>meth_name = ''scrub'', meth_accepts = None, meth_child = None\<rparr> [] opts None False =
     Inr (sample_job opts)"
  by (simp add: sample_job_def Job_init_def Let_def)

lemma reachable_submit:
  "reachable sample_jlib s \<Longrightarrow> opt_pipes opts = [] \<Longrightarrow> reachable sample_jlib (fst (submit sample_jlib (sample_job opts) s))"
  by (rule reach_step [OF _ step_submit [OF sample_job_init]])

lemmas sample_eval = sample_start_def sample_job_def job_decorator_def Job_init_def JobsQueue_init_def submit_def new_job_def
  queue_add_def handle_lock_def enqueue_def deque_add_def oldest_finished_def deque_remove_def queued_like_def
  get_lock_name_def schedule_def next_pass_def runnable_def lock_add_job_def JobSharedLock_def lock_acquire_def set_id_def
  jdefs

lemma sample_two_facts:
  "q_phase sample_two 0 = Taken" "q_phase sample_two 1 = Taken" "q_next_job sample_two = 2"
  "get_lock_name (q_jobs sample_two 0) = Some ''a''"
  by (simp_all add: sample_two_def sample_queued_def sample_eval Let_def)

lemma sample_queued_event: "q_event sample_queued" "q_event (schedule sample_queued)"
  by (simp_all add: sample_queued_def sample_eval Let_def)

lemma reachable_sample:
  "reachable sample_jlib sample_start" "reachable sample_jlib sample_queued" "reachable sample_jlib sample_two"
proof -
  show s: "reachable sample_jlib sample_start" unfolding sample_start_def by (rule reach_init)
  show q: "reachable sample_jlib sample_queued"
    unfolding sample_queued_def by (intro reachable_submit s) (simp_all add: job_decorator_def)
  show "reachable sample_jlib sample_two"
    unfolding sample_two_def by (intro reach_step [OF reach_step [OF q step_schedule] step_schedule] sample_queued_event)
qed

lemma reachable_sample_lost: "reachable sample_jlib sample_lost"
proof -
  let ?q = "fst (submit sample_jlib (sample_job (sample_lock ''a''\<lparr>opt_logs := True\<rparr>)) sample_start)"
  have "reachable sample_jlib ?q"
    by (intro reachable_submit reachable_sample(1)) (simp add: job_decorator_def)
  moreover have "q_event ?q" "q_phase (schedule ?q) 0 = Taken" by (simp_all add: sample_eval Let_def)
  ultimately show ?thesis
    unfolding sample_lost_def by (metis reach_step step_schedule step_start)
qed

lemma sample_lost_facts:
  "q_phase sample_lost 0 = Lost" "q_task_errors sample_lost = [(0, OtherException [])]"
  "get_lock_name (q_jobs sample_lost 0) = Some ''a''"
  by (simp_all add: sample_lost_def run_start_def sample_eval Let_def)

lemma sample_done_steps:
  fixes q
  defines "q \<equiv> fst (submit sample_jlib (sample_job job_decorator) sample_start)"
  shows "q_event q" "q_phase (schedule q) 0 = Taken" "q_phase (run_start sample_jlib None 1 0 (schedule q)) 0 = Body"
    "q_phase (run_body sample_jlib 5 (Returned (PInt 3)) 0 (run_start sample_jlib None 1 0 (schedule q))) 0 = Closing"
  by (simp_all add: q_def sample_eval run_start_def run_body_def body_returned_def set_state_def set_progress_def
      set_result_def Let_def)

lemma reachable_sample_done: "reachable sample_jlib sample_done"
proof -
  let ?q = "fst (submit sample_jlib (sample_job job_decorator) sample_start)"
  have "reachable sample_jlib ?q"
    by (intro reachable_submit reachable_sample(1)) (simp add: job_decorator_def)
  then show ?thesis
    unfolding sample_done_def using sample_done_steps by (metis reach_step step_schedule step_start step_body step_finally)
qed

lemma sample_done_facts:
  "q_phase sample_done 0 = Finished" "j_state (q_jobs sample_done 0) = SUCCESS" "j_result (q_jobs sample_done 0) = PInt 3"
  by (simp_all add: sample_done_def sample_eval run_start_def run_body_def body_returned_def set_state_def set_progress_def
      set_result_def run_finally_def release_lock_def close_pipes_def close_logs_def Let_def)

end
