(* ===== verification/Steps.thy ===== *)
theory Steps
  imports Prelude
begin

text \<open>
  Transition systems with an invariant: what the component theories share when they prove that
  something holds after any sequence of operations.
\<close>

text \<open>
  The contract: the invariant holds at the start and every step keeps it. The client's lemmas: it holds
  in every state that can be reached; a property that single steps keep under the invariant stays; a
  measure that every step lowers bounds the number of steps.
\<close>

locale step_system =
  fixes start :: "'s \<Rightarrow> bool"
    and step :: "'s \<Rightarrow> 's \<Rightarrow> bool"
    and good :: "'s \<Rightarrow> bool"
  assumes good_start: "start s \<Longrightarrow> good s"
    and good_step: "good s \<Longrightarrow> step s t \<Longrightarrow> good t"
begin

lemma good_steps: "rtranclp step s t \<Longrightarrow> good s \<Longrightarrow> good t"
  by (induction rule: rtranclp_induct) (auto intro: good_step)

lemma good_reach: "start s \<Longrightarrow> rtranclp step s t \<Longrightarrow> good t"
  using good_start good_steps by blast

lemma stays:
  assumes "rtranclp step s t" "good s" "P s"
    and keep: "\<And>u v. good u \<Longrightarrow> step u v \<Longrightarrow> P u \<Longrightarrow> P v"
  shows "P t"
proof -
  from assms(1) have "good t \<and> P t"
  proof (induction rule: rtranclp_induct)
    case base
    show ?case using assms by simp
  next
    case (step u v)
    then show ?case using good_step keep by blast
  qed
  then show ?thesis by simp
qed

lemma bounded:
  assumes "(step ^^ n) s t" "good s"
    and lower: "\<And>u v. good u \<Longrightarrow> step u v \<Longrightarrow> m v < (m u :: nat)"
  shows "n + m t \<le> m s \<and> good t"
  using assms(1)
proof (induction n arbitrary: t)
  case 0
  then show ?case using assms(2) by simp
next
  case (Suc n)
  then obtain u where u: "(step ^^ n) s u" "step u t" by auto
  with Suc.IH have "n + m u \<le> m s" "good u" by auto
  with u(2) lower [of u t] good_step [of u t] show ?case by simp
qed

end

end
