(* ===== verification/Jobs_Props.thy ===== *)
theory Jobs_Props
  imports Jobs_Sample Steps
begin

text \<open>
  What the job queue promises its clients, proved from the invariant of \<open>Jobs_Sched\<close>: exclusion by lock
  name, the scheduler over names it implements, and that the work drains.
\<close>

section \<open>Reachable states\<close>

interpretation jq: step_system "\<lambda>s. \<exists>maxlen blank. s = JobsQueue_init maxlen blank" "jstep L"
  "\<lambda>s. lock_inv s \<and> life_inv s" for L
  using lock_inv_init life_inv_init inv_step by unfold_locales blast+

lemma reachable_steps: "reachable L s \<Longrightarrow> rtranclp (jstep L) s t \<Longrightarrow> reachable L t"
  by (rotate_tac, induction rule: rtranclp_induct) (auto intro: reachable.intros)

section \<open>Exclusion by name\<close>

lemma same_name_same_lock:
  assumes "lock_inv s" "live (q_phase s i)" "live (q_phase s j)" "lock_name s i = Some nm" "lock_name s j = Some nm"
  shows "\<exists>l. l < q_next_lock s \<and> job_lock s i = Some l \<and> job_lock s j = Some l"
proof -
  have lk: "\<exists>l. map_of (q_job_locks s) nm = Some l \<and> l < q_next_lock s \<and> job_lock s k = Some l"
    if k: "live (q_phase s k)" "lock_name s k = Some nm" for k
  proof -
    have "q_phase s k \<noteq> Absent" using k(1) by auto
    then obtain l where l: "job_lock s k = Some l" "l < q_next_lock s" "lk_name (q_locks s l) = nm"
      using assms(1) k(2) unfolding lock_inv_def inv_names_def
      by (metis option.distinct(1) option.exhaust option.inject)
    moreover have "k \<in> lk_jobs (q_locks s l)"
      using assms(1) l k(1) unfolding lock_inv_def inv_members_def by blast
    ultimately have "map_of (q_job_locks s) nm = Some l"
      using assms(1) unfolding lock_inv_def inv_table_def by blast
    with l show ?thesis by blast
  qed
  from lk [OF assms(2,4)] lk [OF assms(3,5)] show ?thesis by auto
qed

lemma exclusion:
  assumes "lock_inv s" "holding (q_phase s i)" "holding (q_phase s j)" "lock_name s i = Some nm" "lock_name s j = Some nm"
  shows "i = j"
proof -
  obtain l where "job_lock s i = Some l" "job_lock s j = Some l"
    using same_name_same_lock [OF assms(1) holding_live holding_live] assms(2-5) by blast
  then show ?thesis using assms(1-3) unfolding lock_inv_def inv_held_def holds_def by blast
qed

text \<open>
  (C1) Only one job runs at a time for a lock name: in every state the queue can reach, two jobs whose
  tasks have been created and have not given the lock back (from the moment the scheduler takes them
  until their \<open>finally\<close> clause is over) have different lock names, even though lock objects are thrown
  away and created anew as jobs come and go.
\<close>

theorem jobs_mutual_exclusion:
  assumes "reachable L s" "i \<noteq> j" "holding (q_phase s i)" "holding (q_phase s j)"
  shows "get_lock_name (q_jobs s i) = None \<or> get_lock_name (q_jobs s i) \<noteq> get_lock_name (q_jobs s j)"
proof (cases "get_lock_name (q_jobs s i)")
  case (Some nm)
  then show ?thesis
    using reachable_inv [OF assms(1)] exclusion [of s i j nm] assms(2-4) unfolding lock_name_def by auto
qed simp

theorem jobs_mutual_exclusion_witness:
  "holding (q_phase sample_two 0) \<and> holding (q_phase sample_two 1) \<and>
   get_lock_name (q_jobs sample_two 0) \<noteq> get_lock_name (q_jobs sample_two 1)"
  using jobs_mutual_exclusion [OF reachable_sample(3), of 0 1] sample_two_facts by simp


section \<open>The scheduler over names\<close>

text \<open>
  The abstract scheduler has no lock objects and no event: jobs wait in order, each with its lock name,
  and the first one whose name no active job has is taken.
\<close>

type_synonym name_sched = "(nat \<times> string option) list \<times> (nat \<times> string option) set"

definition can_take :: "(nat \<times> string option) set \<Rightarrow> nat \<times> string option \<Rightarrow> bool" where
  "can_take active p \<longleftrightarrow> snd p = None \<or> snd p \<notin> snd ` active"

definition spec_take :: "name_sched \<Rightarrow> name_sched" where
  "spec_take a =
     (case a of (waiting, active) \<Rightarrow>
        (case find (can_take active) waiting of
           None \<Rightarrow> (waiting, active)
         | Some p \<Rightarrow> (remove1 p waiting, insert p active)))"

inductive spec_step :: "name_sched \<Rightarrow> name_sched \<Rightarrow> bool" where
  spec_arrive: "spec_step (w, a) (w @ [p], a)"
| spec_schedule: "spec_step a (spec_take a)"
| spec_leave: "p \<in> a \<Longrightarrow> spec_step (w, a) (w, a - {p})"
| spec_stutter: "spec_step a a"

definition abs_sched :: "jobs_queue \<Rightarrow> name_sched" where
  "abs_sched s = (map (\<lambda>j. (j, lock_name s j)) (q_queue s), {(j, lock_name s j) | j. holding (q_phase s j)})"

lemma can_take_runnable:
  assumes inv: "lock_inv s" and j: "j \<in> set (q_queue s)"
  shows "can_take (snd (abs_sched s)) (j, lock_name s j) = runnable s j"
proof -
  have ph: "q_phase s j = Queued" using inv j by (simp add: lock_inv_def inv_refs_def)
  then have nm: "job_lock s j = None \<Longrightarrow> lock_name s j = None"
    "job_lock s j = Some l \<Longrightarrow> l < q_next_lock s \<and> lock_name s j = Some (lk_name (q_locks s l))" for l
    using inv phase.distinct(3) unfolding lock_inv_def inv_names_def by metis+
  show ?thesis
  proof (cases "job_lock s j")
    case None
    then show ?thesis using nm(1) by (simp add: can_take_def runnable_job_lock)
  next
    case (Some l)
    have "lock_name s j \<in> snd ` snd (abs_sched s) \<longleftrightarrow> (\<exists>k. holding (q_phase s k) \<and> lock_name s k = lock_name s j)"
      by (auto simp: abs_sched_def image_iff)
    also have "\<dots> \<longleftrightarrow> (\<exists>k. holds s k l)"
    proof
      assume "\<exists>k. holding (q_phase s k) \<and> lock_name s k = lock_name s j"
      then obtain k where k: "holding (q_phase s k)" "lock_name s k = lock_name s j" by blast
      obtain m where "job_lock s k = Some m" "job_lock s j = Some m"
        using same_name_same_lock [OF inv holding_live [OF k(1)], of j] k(2) nm(2) [OF Some] ph by auto
      with Some k(1) show "\<exists>k. holds s k l" by (auto simp: holds_def)
    next
      assume "\<exists>k. holds s k l"
      then obtain k where "holding (q_phase s k)" "job_lock s k = Some l" by (auto simp: holds_def)
      moreover from this have "lock_name s k = Some (lk_name (q_locks s l))"
        using inv phase_simps(5) unfolding lock_inv_def inv_names_def by metis
      ultimately show "\<exists>k. holding (q_phase s k) \<and> lock_name s k = lock_name s j"
        using nm(2) [OF Some] by auto
    qed
    also have "\<dots> \<longleftrightarrow> lk_locked (q_locks s l)"
      using inv nm(2) [OF Some] unfolding lock_inv_def inv_held_def by blast
    finally show ?thesis
      using Some nm(2) [OF Some] by (simp add: can_take_def runnable_job_lock)
  qed
qed

lemma find_map_cong:
  "(\<And>x. x \<in> set xs \<Longrightarrow> P (f x) = Q x) \<Longrightarrow> find P (map f xs) = map_option f (find Q xs)"
  by (induction xs) auto

lemma remove1_map_inj: "inj f \<Longrightarrow> remove1 (f x) (map f xs) = map f (remove1 x xs)"
  by (induction xs) (auto simp: inj_eq)

lemma abs_sched_schedule:
  assumes inv: "lock_inv s"
  shows "abs_sched (schedule s) = spec_take (abs_sched s)"
proof -
  let ?f = "\<lambda>j. (j, lock_name s j)"
  have "find (can_take (snd (abs_sched s))) (map ?f (q_queue s)) = map_option ?f (find (runnable s) (q_queue s))"
    by (rule find_map_cong) (rule can_take_runnable [OF inv])
  then have fd: "find (can_take (snd (abs_sched s))) (fst (abs_sched s)) = map_option ?f (find (runnable s) (q_queue s))"
    by (simp add: abs_sched_def)
  show ?thesis
  proof (cases rule: schedule_cases [of s])
    case idle
    then show ?thesis using fd by (simp add: spec_take_def abs_sched_def)
  next
    case (taken j)
    have "lock_name (schedule s) = lock_name s" using taken(6) by (simp add: lock_name_def fun_eq_iff)
    moreover have "remove1 (j, lock_name s j) (map ?f (q_queue s)) = map ?f (remove1 j (q_queue s))"
      by (rule remove1_map_inj [of ?f]) (auto intro: injI)
    moreover have "q_phase s j = Queued"
      using find_SomeD [OF taken(1)] inv by (simp add: lock_inv_def inv_refs_def)
    ultimately show ?thesis
      using fd taken(1-3) by (auto simp: spec_take_def abs_sched_def)
  qed
qed

lemma abs_sched_same: "same_locks s t \<Longrightarrow> abs_sched t = abs_sched s"
  using same_locks_holding [of s t] by (auto simp: abs_sched_def same_locks_def)


lemma abs_sched_moves:
  assumes "moves j s ph x t" "j \<notin> set (q_queue s)" "\<not> holding ph"
  shows "q_queue t = q_queue s \<Longrightarrow> abs_sched t = (fst (abs_sched s), snd (abs_sched s) - {(j, lock_name s j)})"
    and "q_queue t = q_queue s @ [j] \<Longrightarrow> \<not> holding (q_phase s j) \<Longrightarrow>
      abs_sched t = (fst (abs_sched s) @ [(j, lock_name t j)], snd (abs_sched s))"
proof -
  have nm: "k \<noteq> j \<Longrightarrow> lock_name t k = lock_name s k" for k
    using assms(1) by (simp add: moves_def lock_name_def)
  have ph: "q_phase t = (q_phase s)(j := ph)" using assms(1) by (simp add: moves_def)
  have mp: "map (\<lambda>k. (k, lock_name t k)) (q_queue s) = map (\<lambda>k. (k, lock_name s k)) (q_queue s)"
  proof (rule map_cong [OF refl])
    fix k
    assume "k \<in> set (q_queue s)"
    with assms(2) have "k \<noteq> j" by blast
    then show "(k, lock_name t k) = (k, lock_name s k)" by (simp add: nm)
  qed
  have ac: "{(k, lock_name t k) | k. holding (q_phase t k)} =
      {(k, lock_name s k) | k. holding (q_phase s k)} - {(j, lock_name s j)}"
  proof -
    have "holding (q_phase t k) = (k \<noteq> j \<and> holding (q_phase s k))" for k using ph assms(3) by simp
    then have "{(k, lock_name t k) | k. holding (q_phase t k)} = {(k, lock_name s k) | k. k \<noteq> j \<and> holding (q_phase s k)}"
      by (intro Collect_cong) (metis nm)
    then show ?thesis by auto
  qed
  show "q_queue t = q_queue s \<Longrightarrow> abs_sched t = (fst (abs_sched s), snd (abs_sched s) - {(j, lock_name s j)})"
    using mp ac by (simp add: abs_sched_def)
  show "q_queue t = q_queue s @ [j] \<Longrightarrow> \<not> holding (q_phase s j) \<Longrightarrow>
      abs_sched t = (fst (abs_sched s) @ [(j, lock_name t j)], snd (abs_sched s))"
    using mp ac by (auto simp: abs_sched_def)
qed

lemma release_lock_frame:
  "release_lock j s = (u, r) \<Longrightarrow> q_queue u = q_queue s \<and> q_next_job u = q_next_job s \<and> q_deque u = q_deque s \<and>
     q_jobs u = q_jobs s \<and> q_phase u = q_phase s \<and> (q_event s \<longrightarrow> q_event u)"
  by (auto simp: release_lock_def Let_def jdefs split: option.splits if_splits)

lemma run_finally_frame:
  "q_queue (run_finally L content j s) = q_queue s" "q_next_job (run_finally L content j s) = q_next_job s"
proof -
  obtain u r where ur: "release_lock j (upd_job j (close_pipes \<circ> close_logs content) s) = (u, r)"
    by fastforce
  then have "q_queue u = q_queue s" "q_next_job u = q_next_job s"
    using release_lock_frame by (fastforce simp: jdefs)+
  with ur show "q_queue (run_finally L content j s) = q_queue s"
    "q_next_job (run_finally L content j s) = q_next_job s"
    by (auto simp: run_finally_def Let_def jdefs split: option.splits)
qed

lemma submit_queue:
  assumes "lock_inv s" "j_lock x = None" "job_ok Rejected x" "job_ok Queued x" "j_id x = None"
  shows "spec_step (abs_sched s) (abs_sched (fst (submit L x s)))"
proof -
  let ?n = "q_next_job s"
  have n: "?n \<notin> set (q_queue s)" "\<not> holding (q_phase s ?n)"
    using assms(1) by (auto simp: lock_inv_def inv_refs_def)
  show ?thesis
  proof (rule submit_moves [OF assms, of L])
    fix y
    assume "moves ?n s Rejected y (fst (submit L x s))" "q_queue (fst (submit L x s)) = q_queue s"
    then have "abs_sched (fst (submit L x s)) = (fst (abs_sched s), snd (abs_sched s) - {(?n, lock_name s ?n)})"
      using abs_sched_moves(1) [of ?n s Rejected y] n by simp
    also have "\<dots> = abs_sched s" using n(2) by (auto simp: abs_sched_def)
    finally show ?thesis by (simp add: spec_stutter)
  next
    fix y lk
    assume m: "moves ?n s Queued y (fst (submit L x s))"
      and eq: "fst (submit L x s) = enqueue L ?n (handle_lock ?n (new_job x s))"
    have "j_lock (q_jobs (new_job x s) ?n) = None" using assms(2) by (simp add: new_job_def)
    then have "q_queue (fst (submit L x s)) = q_queue s @ [?n]"
      using eq handle_lock_frame(2) by (simp add: new_job_def)
    then have "abs_sched (fst (submit L x s)) =
        (fst (abs_sched s) @ [(?n, lock_name (fst (submit L x s)) ?n)], snd (abs_sched s))"
      using abs_sched_moves(2) [OF m n(1)] n(2) by simp
    then show ?thesis by (metis prod.collapse spec_arrive)
  qed
qed

text \<open>
  (C2) The queue with its lock objects, its table of names and its wake-up event implements the
  scheduler over lock names: every step from a reachable state is a step of the abstract scheduler
  (a job arrives, the first waiting job whose name is free is taken, an active job leaves) or
  changes nothing it can see.
\<close>

theorem jobs_refine_names:
  assumes "reachable L s" "jstep L s t"
  shows "spec_step (abs_sched s) (abs_sched t)"
proof -
  have inv: "lock_inv s" "life_inv s" using reachable_inv [OF assms(1)] by auto
  show ?thesis
    using assms(2)
  proof cases
    case (step_submit now nm m args opts ps cb x)
    then show ?thesis using submit_queue [OF inv(1)] Job_init_fresh by blast
  next
    case step_schedule
    then show ?thesis using abs_sched_schedule [OF inv(1)] by (simp add: spec_schedule)
  next
    case (step_start j opened now)
    then show ?thesis using abs_sched_same [OF same_locks_run_start] by (simp add: spec_stutter)
  next
    case (step_body j now out)
    then show ?thesis using abs_sched_same [OF same_locks_run_body] by (simp add: spec_stutter)
  next
    case (step_finally j content)
    obtain x where "moves j s Finished x t"
      using run_finally_moves [OF inv(1) step_finally(2), of L content]
        life_inv_job [OF inv(2), of j, unfolded step_finally(2)] step_finally(1) by blast
    moreover have "j \<notin> set (q_queue s)" using inv(1) step_finally(2) by (simp add: lock_inv_def inv_refs_def)
    ultimately have "abs_sched t = (fst (abs_sched s), snd (abs_sched s) - {(j, lock_name s j)})"
      using abs_sched_moves(1) step_finally(1) run_finally_frame(1) by simp
    moreover have "(j, lock_name s j) \<in> snd (abs_sched s)" using step_finally(2) by (auto simp: abs_sched_def)
    ultimately show ?thesis by (metis prod.collapse spec_leave)
  next
    case (step_progress j p d e)
    then show ?thesis using abs_sched_same [OF same_locks_set_progress] by (simp add: spec_stutter)
  next
    case (step_abort j)
    then have "same_locks s t" by (simp add: same_locks_upd_job)
    then show ?thesis by (simp add: abs_sched_same spec_stutter)
  qed
qed

theorem jobs_refine_names_witness:
  "spec_step (abs_sched sample_queued) (abs_sched (schedule sample_queued))"
  by (rule jobs_refine_names [OF reachable_sample(2) step_schedule [OF sample_queued_event(1)]])


section \<open>The work drains\<close>

text \<open>The steps the event loop takes by itself: no submission, no progress report, no abort.\<close>

inductive jwork :: "jlib \<Rightarrow> jobs_queue \<Rightarrow> jobs_queue \<Rightarrow> bool" for L where
  work_schedule: "q_event s \<Longrightarrow> jwork L s (schedule s)"
| work_start: "q_phase s j = Taken \<Longrightarrow> jwork L s (run_start L opened now j s)"
| work_body: "q_phase s j = Body \<Longrightarrow> jwork L s (run_body L now out j s)"
| work_finally: "q_phase s j = Closing \<Longrightarrow> jwork L s (run_finally L content j s)"

lemma jwork_jstep: "jwork L s t \<Longrightarrow> jstep L s t"
  by (induction rule: jwork.induct) (auto intro: jstep.intros)

fun phase_work :: "phase \<Rightarrow> nat" where
  "phase_work Queued = 8"
| "phase_work Taken = 6"
| "phase_work Body = 4"
| "phase_work Closing = 2"
| "phase_work _ = 0"

definition job_work :: "jobs_queue \<Rightarrow> nat" where
  "job_work s = (\<Sum>j < q_next_job s. phase_work (q_phase s j)) + (if q_event s then 1 else 0)"

lemma work_moves:
  assumes "q_phase t = (q_phase s)(j := ph)" "q_next_job t = q_next_job s" "j < q_next_job s"
    and "phase_work ph + (if q_event t then 1 else 0) < phase_work (q_phase s j) + (if q_event s then 1 else 0)"
  shows "job_work t < job_work s"
proof -
  have "(\<Sum>k < q_next_job s. phase_work (q_phase t k)) + phase_work (q_phase s j) =
      (\<Sum>k < q_next_job s. phase_work (q_phase s k)) + phase_work ph"
    using assms(1,3) by (simp add: sum.remove [of "{..<q_next_job s}" j] if_distrib)
  with assms(2,4) show ?thesis by (simp add: job_work_def)
qed


lemma jwork_lowers:
  assumes inv: "lock_inv s" "life_inv s" and step: "jwork L s t"
  shows "job_work t < job_work s"
  using step
proof cases
  case work_schedule
  show ?thesis
  proof (cases rule: schedule_cases [of s])
    case idle
    with work_schedule show ?thesis by (simp add: job_work_def)
  next
    case (taken j)
    have ph: "q_phase s j = Queued"
      using find_SomeD [OF taken(1)] inv(1) by (simp add: lock_inv_def inv_refs_def)
    then have "j < q_next_job s" using inv(1) by (simp add: lock_inv_def inv_refs_def)
    with taken(2,7) ph work_schedule show ?thesis by (intro work_moves [of t s j Taken]) auto
  qed
next
  case (work_start j opened now)
  have b: "j < q_next_job s" using inv(1) work_start(2) by (simp add: lock_inv_def inv_refs_def)
  note ok = life_inv_job [OF inv(2), of j, unfolded work_start(2)]
  obtain ph x where m: "moves j s ph x t" "ph \<in> {Body, Closing, Lost}"
    using run_start_moves [OF work_start(2) ok, of L opened now] work_start(1) by metis
  moreover have "same_locks s t" using same_locks_run_start work_start by simp
  ultimately show ?thesis
    using work_start(2) b by (intro work_moves [of t s j ph]) (auto simp: moves_def same_locks_def)
next
  case (work_body j now out)
  have b: "j < q_next_job s" using inv(1) work_body(2) by (simp add: lock_inv_def inv_refs_def)
  note ok = life_inv_job [OF inv(2), of j, unfolded work_body(2)]
  obtain x where m: "moves j s Closing x t"
    using run_body_moves [OF work_body(2) ok, of L now out] work_body(1) by metis
  moreover have "same_locks s t" using same_locks_run_body work_body by simp
  ultimately show ?thesis
    using work_body(2) b by (intro work_moves [of t s j Closing]) (auto simp: moves_def same_locks_def)
next
  case (work_finally j content)
  have b: "j < q_next_job s" using inv(1) work_finally(2) by (simp add: lock_inv_def inv_refs_def)
  note ok = life_inv_job [OF inv(2), of j, unfolded work_finally(2)]
  obtain x where "moves j s Finished x t"
    using run_finally_moves [OF inv(1) work_finally(2) ok, of L content] work_finally(1) by metis
  with work_finally b run_finally_frame(2) show ?thesis
    by (intro work_moves [of t s j Finished]) (auto simp: moves_def)
qed

lemma stuck_finished:
  assumes inv: "lock_inv s" and stuck: "\<And>u. \<not> jwork L s u" and lost: "\<And>j. q_phase s j \<noteq> Lost"
    and j: "j < q_next_job s"
  shows "q_phase s j \<in> {Rejected, Finished}"
proof -
  have ev: "\<not> q_event s" using stuck work_schedule by blast
  have ph: "q_phase s k \<notin> {Taken, Body, Closing}" for k
    using stuck work_start work_body work_finally by blast
  then have nh: "\<not> holding (q_phase s k)" for k using lost [of k] by (auto simp: holding_def)
  have "q_phase s j \<noteq> Queued"
  proof
    assume q: "q_phase s j = Queued"
    then have "\<not> runnable s j" using inv ev by (simp add: lock_inv_def inv_refs_def inv_event_def)
    then obtain l where l: "job_lock s j = Some l" "lk_locked (q_locks s l)"
      by (auto simp: runnable_job_lock split: option.splits)
    moreover have "l < q_next_lock s"
      using inv l(1) q phase.distinct(3) unfolding lock_inv_def inv_names_def by metis
    ultimately show False using inv nh unfolding lock_inv_def inv_held_def holds_def by blast
  qed
  moreover have "q_phase s j \<noteq> Absent" using inv j by (simp add: lock_inv_def inv_refs_def)
  ultimately show ?thesis using ph [of j] lost [of j] by (cases "q_phase s j") auto
qed

interpretation jw: step_system "\<lambda>s. \<exists>maxlen blank. s = JobsQueue_init maxlen blank" "jwork L"
  "\<lambda>s. lock_inv s \<and> life_inv s" for L
  using lock_inv_init life_inv_init inv_step jwork_jstep by unfold_locales blast+

text \<open>
  (C3) The queue never stalls: left alone, a reachable queue takes at most \<open>job_work\<close> steps, and when no
  further step is possible every job that was accepted has run and finished, provided no job failed to
  open its log file. No wake-up of the scheduler is lost and no job waits for a lock that nobody holds.
\<close>

theorem jobs_all_finish:
  assumes "reachable L s" "(jwork L ^^ n) s t"
  shows "n \<le> job_work s \<and>
    ((\<nexists>u. jwork L t u) \<longrightarrow> (\<forall>j. q_phase t j \<noteq> Lost) \<longrightarrow> (\<forall>j < q_next_job t. q_phase t j \<in> {Rejected, Finished}))"
proof -
  have "n + job_work t \<le> job_work s \<and> lock_inv t \<and> life_inv t"
    using jw.bounded [OF assms(2) reachable_inv [OF assms(1)], of job_work] jwork_lowers by blast
  then show ?thesis using stuck_finished [of t L] by auto
qed

theorem jobs_all_finish_witness: "2 \<le> job_work sample_queued"
proof -
  have "(jwork sample_jlib ^^ 2) sample_queued sample_two"
    using sample_queued_event by (auto simp: sample_two_def numeral_2_eq_2 intro: jwork.intros)
  then show ?thesis using jobs_all_finish [OF reachable_sample(2), of 2 sample_two] by simp
qed


end
