(* ===== verification/Jobs_Ids.thy ===== *)
theory Jobs_Ids
  imports Jobs_Props
begin

text \<open>
  The numbers of jobs and the deque that lists them: numbers are never given twice, and a job that is
  not over stays listed.
\<close>

section \<open>Numbers and the deque\<close>

definition numbered :: "phase \<Rightarrow> bool" where
  "numbered ph \<longleftrightarrow> ph \<noteq> Absent \<and> ph \<noteq> Rejected"

definition unfinished :: "phase \<Rightarrow> bool" where
  "unfinished ph \<longleftrightarrow> ph \<in> {Queued, Taken, Body}"

text \<open>
  \<open>id_inv\<close>: numbers are positive, at most the counter, and never given twice; the deque lists jobs under
  their own numbers in increasing order; a job that is not over is in the deque; the queue is in the
  order of the numbers.
\<close>

definition id_inv :: "jobs_queue \<Rightarrow> bool" where
  "id_inv s \<longleftrightarrow> 0 \<le> dq_count (q_deque s) \<and>
     (\<forall>j. numbered (q_phase s j) \<longrightarrow> (\<exists>i. j_id (q_jobs s j) = Some i \<and> 1 \<le> i \<and> i \<le> dq_count (q_deque s))) \<and>
     (\<forall>j k. numbered (q_phase s j) \<longrightarrow> numbered (q_phase s k) \<longrightarrow> j_id (q_jobs s j) = j_id (q_jobs s k) \<longrightarrow> j = k) \<and>
     sorted_wrt (<) (map fst (dq_dict (q_deque s))) \<and>
     (\<forall>(i, j) \<in> set (dq_dict (q_deque s)). numbered (q_phase s j) \<and> j_id (q_jobs s j) = Some i) \<and>
     (\<forall>j. unfinished (q_phase s j) \<longrightarrow> (\<exists>i. (i, j) \<in> set (dq_dict (q_deque s)))) \<and>
     sorted_wrt (\<lambda>a b. the (j_id (q_jobs s a)) < the (j_id (q_jobs s b))) (q_queue s)"

lemma id_inv_init: "id_inv (JobsQueue_init maxlen blank)"
  by (simp add: id_inv_def JobsQueue_init_def numbered_def unfinished_def)

lemma delete_filter: "AList.delete i d = filter (\<lambda>p. fst p \<noteq> i) d"
  by (induction d) auto

lemma sorted_wrt_remove1: "sorted_wrt P xs \<Longrightarrow> sorted_wrt P (remove1 x xs)"
  by (induction xs) (auto dest: set_remove1_subset [THEN subsetD])

lemma sorted_wrt_map_filter: "sorted_wrt (<) (map f xs) \<Longrightarrow> sorted_wrt (<) (map f (filter P xs))"
  by (induction xs) auto

text \<open>A step that gives no number: entries of finished jobs may leave the deque.\<close>

lemma id_inv_keep:
  assumes inv: "id_inv s"
    and dq: "dq_count (q_deque t) = dq_count (q_deque s)"
      "dq_dict (q_deque t) = filter P (dq_dict (q_deque s))"
      "\<And>i j. (i, j) \<in> set (dq_dict (q_deque s)) \<Longrightarrow> unfinished (q_phase t j) \<Longrightarrow> P (i, j)"
    and q: "q_queue t = q_queue s \<or> (\<exists>j. q_queue t = remove1 j (q_queue s))"
    and n: "\<And>j. numbered (q_phase t j) = numbered (q_phase s j)"
      "\<And>j. numbered (q_phase s j) \<Longrightarrow> j_id (q_jobs t j) = j_id (q_jobs s j)"
      "\<And>j. unfinished (q_phase t j) \<Longrightarrow> unfinished (q_phase s j)"
      "\<And>j. j \<in> set (q_queue s) \<Longrightarrow> numbered (q_phase s j)"
  shows "id_inv t"
proof -
  have "sorted_wrt (\<lambda>a b. the (j_id (q_jobs s a)) < the (j_id (q_jobs s b))) (q_queue t)"
    using inv q sorted_wrt_remove1 unfolding id_inv_def by metis
  moreover have "set (q_queue t) \<subseteq> set (q_queue s)" using q by (auto dest: set_remove1_subset [THEN subsetD])
  ultimately have "sorted_wrt (\<lambda>a b. the (j_id (q_jobs t a)) < the (j_id (q_jobs t b))) (q_queue t)"
  proof (elim sorted_wrt_mono_rel [rotated])
    fix a b
    assume sub: "set (q_queue t) \<subseteq> set (q_queue s)" and ab: "a \<in> set (q_queue t)" "b \<in> set (q_queue t)"
      and lt: "the (j_id (q_jobs s a)) < the (j_id (q_jobs s b))"
    have "j_id (q_jobs t c) = j_id (q_jobs s c)" if "c \<in> set (q_queue t)" for c
      using n(2,4) sub that by blast
    with ab lt show "the (j_id (q_jobs t a)) < the (j_id (q_jobs t b))" by simp
  qed
  moreover have "sorted_wrt (<) (map fst (filter P (dq_dict (q_deque s))))"
    using inv by (simp add: id_inv_def sorted_wrt_map_filter)
  moreover have "0 \<le> dq_count (q_deque s)" using inv by (simp add: id_inv_def)
  moreover have "\<exists>i. j_id (q_jobs t j) = Some i \<and> 1 \<le> i \<and> i \<le> dq_count (q_deque s)" if "numbered (q_phase t j)" for j
    using inv n(1,2) that unfolding id_inv_def by metis
  moreover have "j = k" if "numbered (q_phase t j)" "numbered (q_phase t k)" "j_id (q_jobs t j) = j_id (q_jobs t k)" for j k
    using inv n(1,2) that unfolding id_inv_def by metis
  moreover have "numbered (q_phase t j) \<and> j_id (q_jobs t j) = Some i" if "(i, j) \<in> set (filter P (dq_dict (q_deque s)))" for i j
  proof -
    have "numbered (q_phase s j) \<and> j_id (q_jobs s j) = Some i" using inv that unfolding id_inv_def by fastforce
    then show ?thesis using n(1,2) by simp
  qed
  moreover have "\<exists>i. (i, j) \<in> set (filter P (dq_dict (q_deque s)))" if uf: "unfinished (q_phase t j)" for j
  proof -
    obtain i where "(i, j) \<in> set (dq_dict (q_deque s))" using inv n(3) [OF uf] unfolding id_inv_def by blast
    then show ?thesis using dq(3) uf by auto
  qed
  ultimately show ?thesis unfolding id_inv_def dq(1,2) by (intro conjI; blast)
qed

lemma update_fresh: "k \<notin> fst ` set d \<Longrightarrow> AList.update k v d = d @ [(k, v)]"
  by (induction d) auto

lemma deque_add_dict:
  assumes le: "\<And>i j. (i, j) \<in> set (dq_dict (q_deque s)) \<Longrightarrow> i \<le> dq_count (q_deque s)"
  obtains P where "dq_dict (q_deque (deque_add j s)) = filter P (dq_dict (q_deque s)) @ [(dq_count (q_deque s) + 1, j)]"
    "dq_count (q_deque (deque_add j s)) = dq_count (q_deque s) + 1"
    "\<And>i k. (i, k) \<in> set (dq_dict (q_deque s)) \<Longrightarrow> \<not> P (i, k) \<Longrightarrow>
       \<exists>k'. (i, k') \<in> set (dq_dict (q_deque s)) \<and> terminal (j_state (q_jobs s k'))"
proof -
  let ?d = "dq_dict (q_deque s)" and ?n = "dq_count (q_deque s) + 1"
  define s1 where "s1 = upd_job j (set_id ?n) (s\<lparr>q_deque := (q_deque s)\<lparr>dq_count := ?n\<rparr>\<rparr>)"
  have s1: "q_deque s1 = (q_deque s)\<lparr>dq_count := ?n\<rparr>" by (simp add: s1_def jdefs)
  have st: "j_state (q_jobs s1 k) = j_state (q_jobs s k)" for k by (simp add: s1_def jdefs set_id_def)
  have nk: "?n \<notin> fst ` set (filter P ?d)" for P using le by fastforce
  define ev where "ev = (int (length ?d) > dq_maxlen (q_deque s))"
  show thesis
  proof (cases "if ev then oldest_finished s1 else None")
    case None
    then have "deque_add j s = s1\<lparr>q_deque := (q_deque s1)\<lparr>dq_dict := AList.update ?n j ?d\<rparr>\<rparr>"
      by (auto simp: deque_add_def Let_def s1_def [symmetric] s1 ev_def split: if_splits)
    moreover have "AList.update ?n j ?d = ?d @ [(?n, j)]" using nk [of "\<lambda>_. True"] by (simp add: update_fresh)
    ultimately show thesis using s1 by (intro that [of "\<lambda>_. True"]) simp_all
  next
    case (Some old)
    then obtain k where k: "(old, k) \<in> set ?d" "terminal (j_state (q_jobs s k))"
      using s1 st by (auto simp: oldest_finished_def dest!: find_SomeD split: if_splits)
    obtain k' where m: "map_of ?d old = Some k'"
      using k(1) by (metis map_of_eq_None_iff fst_conv imageI not_None_eq)
    have "q_deque (deque_remove old s1) = (q_deque s1)\<lparr>dq_dict := filter (\<lambda>p. fst p \<noteq> old) ?d\<rparr>"
      using m s1 by (simp add: deque_remove_def delete_filter)
    with Some have "q_deque (deque_add j s) =
        (q_deque s1)\<lparr>dq_dict := AList.update ?n j (filter (\<lambda>p. fst p \<noteq> old) ?d)\<rparr>"
      by (auto simp: deque_add_def Let_def s1_def [symmetric] s1 ev_def split: if_splits)
    with k s1 nk [of "\<lambda>p. fst p \<noteq> old"] show thesis
      by (intro that [of "\<lambda>p. fst p \<noteq> old"]) (auto simp: update_fresh)
  qed
qed


lemma id_inv_enqueue:
  assumes inv: "id_inv s" "life_inv s" and n: "q_phase s n = Absent"
    and m: "moves n s Queued y t" "j_id y = Some (dq_count (q_deque s) + 1)"
    and q: "q_queue t = q_queue s @ [n]" "\<And>j. j \<in> set (q_queue s) \<Longrightarrow> numbered (q_phase s j)"
    and u: "q_deque t = q_deque (deque_add n u)" "q_deque u = q_deque s"
      "\<And>k. k \<noteq> n \<Longrightarrow> j_state (q_jobs u k) = j_state (q_jobs s k)"
  shows "id_inv t"
proof -
  let ?d = "dq_dict (q_deque s)" and ?c = "dq_count (q_deque s)"
  have ph: "q_phase t = (q_phase s)(n := Queued)" "q_jobs t = (q_jobs s)(n := y)" using m by (simp_all add: moves_def)
  have nn: "\<not> numbered (q_phase s n)" using n by (simp add: numbered_def)
  have ids: "\<exists>i. j_id (q_jobs s j) = Some i \<and> 1 \<le> i \<and> i \<le> ?c" if "numbered (q_phase s j)" for j
    using inv(1) that unfolding id_inv_def by blast
  have dict: "numbered (q_phase s j) \<and> j_id (q_jobs s j) = Some i" if "(i, j) \<in> set ?d" for i j
    using inv(1) that unfolding id_inv_def by blast
  have le: "i \<le> ?c" if "(i, j) \<in> set ?d" for i j using dict [OF that] ids [of j] by auto
  obtain P where P: "dq_dict (q_deque t) = filter P ?d @ [(?c + 1, n)]" "dq_count (q_deque t) = ?c + 1"
      "\<And>i k. (i, k) \<in> set ?d \<Longrightarrow> \<not> P (i, k) \<Longrightarrow> \<exists>k'. (i, k') \<in> set ?d \<and> terminal (j_state (q_jobs u k'))"
    using deque_add_dict [of u n] le u by auto
  have keep: "P (i, j)" if e: "(i, j) \<in> set ?d" "unfinished (q_phase s j)" for i j
  proof (rule ccontr)
    assume "\<not> P (i, j)"
    then obtain k where k: "(i, k) \<in> set ?d" "terminal (j_state (q_jobs u k))" using P(3) e(1) by blast
    then have "k = j" using dict e(1) inv(1) unfolding id_inv_def by metis
    moreover have "\<not> terminal (j_state (q_jobs s j))"
      using life_inv_job [OF inv(2), of j] e(2) by (auto simp: unfinished_def job_ok_defs)
    moreover have "j \<noteq> n" using dict [OF e(1)] nn by auto
    ultimately show False using k(2) u(3) by simp
  qed
  have sd: "sorted_wrt (<) (map fst (filter P ?d))" using inv(1) by (simp add: id_inv_def sorted_wrt_map_filter)
  have nq: "n \<notin> set (q_queue s)" using q(2) nn by blast
  have sq: "sorted_wrt (\<lambda>a b. the (j_id (q_jobs t a)) < the (j_id (q_jobs t b))) (q_queue s)"
  proof (rule sorted_wrt_mono_rel)
    show "sorted_wrt (\<lambda>a b. the (j_id (q_jobs s a)) < the (j_id (q_jobs s b))) (q_queue s)"
      using inv(1) by (simp add: id_inv_def)
    fix a b
    assume "a \<in> set (q_queue s)" "b \<in> set (q_queue s)" "the (j_id (q_jobs s a)) < the (j_id (q_jobs s b))"
    with nq ph(2) show "the (j_id (q_jobs t a)) < the (j_id (q_jobs t b))" by auto
  qed
  have tj: "j \<noteq> n \<Longrightarrow> q_phase t j = q_phase s j \<and> q_jobs t j = q_jobs s j" for j using ph by simp
  have tn: "q_phase t n = Queued" "j_id (q_jobs t n) = Some (?c + 1)" using ph m(2) by simp_all
  have "\<exists>i. j_id (q_jobs t j) = Some i \<and> 1 \<le> i \<and> i \<le> ?c + 1" if "numbered (q_phase t j)" for j
  proof (cases "j = n")
    case True
    moreover have "0 \<le> ?c" using inv(1) by (simp add: id_inv_def)
    ultimately show ?thesis using tn by simp
  next
    case False
    with that tj [of j] ids [of j] show ?thesis by force
  qed
  moreover have "j = k" if "numbered (q_phase t j)" "numbered (q_phase t k)" "j_id (q_jobs t j) = j_id (q_jobs t k)" for j k
  proof (cases "j = n \<or> k = n")
    case True
    have "j_id (q_jobs s i) \<noteq> Some (?c + 1)" if "numbered (q_phase s i)" for i using ids [OF that] by auto
    with True that tj tn(2) show ?thesis by metis
  next
    case False
    with that tj inv(1) show ?thesis unfolding id_inv_def by metis
  qed
  moreover have "sorted_wrt (<) (map fst (filter P ?d @ [(?c + 1, n)]))"
    using sd le by (force simp: sorted_wrt_append)
  moreover have "numbered (q_phase t j) \<and> j_id (q_jobs t j) = Some i" if "(i, j) \<in> set (filter P ?d @ [(?c + 1, n)])" for i j
  proof (cases "j = n")
    case True
    with that dict nn tn show ?thesis by (auto simp: numbered_def)
  next
    case False
    with that dict tj show ?thesis by auto
  qed
  moreover have "\<exists>i. (i, j) \<in> set (filter P ?d @ [(?c + 1, n)])" if "unfinished (q_phase t j)" for j
  proof (cases "j = n")
    case False
    with that tj have uf: "unfinished (q_phase s j)" by simp
    then obtain i where "(i, j) \<in> set ?d" using inv(1) unfolding id_inv_def by blast
    with keep uf show ?thesis by auto
  qed auto
  moreover have "sorted_wrt (\<lambda>a b. the (j_id (q_jobs t a)) < the (j_id (q_jobs t b))) (q_queue t)"
  proof -
    have "the (j_id (q_jobs t a)) < ?c + 1" if "a \<in> set (q_queue s)" for a
      using ids [OF q(2) [OF that]] tj [of a] that nq by force
    with sq q(1) tn show ?thesis by (simp add: sorted_wrt_append)
  qed
  moreover have "0 \<le> ?c + 1" using inv(1) by (simp add: id_inv_def)
  ultimately show ?thesis unfolding id_inv_def P(1,2) by blast
qed


text \<open>The deque after the parts of a step that give no number.\<close>

lemma q_deque_open_logs [simp]: "q_deque (open_logs j s) = q_deque s" "q_queue (open_logs j s) = q_queue s"
  by (simp_all add: open_logs_def Let_def jdefs)

lemma except_frame:
  "q_deque (except_cancelled now j s) = q_deque s" "q_deque (except_exception L now e j s) = q_deque s"
  by (auto simp: except_cancelled_def except_exception_def change_state_def jdefs split: sum.split)

lemma run_start_deque [simp]: "q_deque (run_start L opened now j s) = q_deque s"
  by (auto simp: run_start_def Let_def except_frame jdefs split: option.split sum.split)

lemma body_returned_deque: "body_returned L now rv j s = (u, r) \<Longrightarrow> q_deque u = q_deque s"
proof -
  assume br: "body_returned L now rv j s = (u, r)"
  define t where "t = upd_job j (set_result rv) s"
  have "q_deque (upd_job j f t) = q_deque s" for f by (simp add: t_def jdefs)
  moreover have "u = t \<or> (\<exists>x. u = upd_job j (\<lambda>_. x) t \<or>
      u = fst (set_progress L (PInt 100) (PStr []) PNone j (upd_job j (\<lambda>_. x) t)))"
    using br unfolding body_returned_def Let_def t_def [symmetric] by (auto split: sum.splits if_splits) (metis fst_conv)+
  ultimately show ?thesis using set_progress_moves(4) by (auto simp: t_def jdefs)
qed

lemma run_body_deque [simp]: "q_deque (run_body L now out j s) = q_deque s"
  by (auto simp: run_body_def except_frame jdefs split: outcome.split option.split prod.split
      dest: body_returned_deque)

lemma run_finally_deque:
  assumes "j_id (q_jobs s j) = Some i"
  shows "dq_count (q_deque (run_finally L content j s)) = dq_count (q_deque s)"
    "\<exists>P. dq_dict (q_deque (run_finally L content j s)) = filter P (dq_dict (q_deque s)) \<and> (\<forall>p. fst p \<noteq> i \<longrightarrow> P p)"
proof -
  let ?s = "upd_job j (close_pipes \<circ> close_logs content) s"
  obtain u r where ur: "release_lock j ?s = (u, r)" by fastforce
  have f: "q_deque u = q_deque s" "j_id (q_jobs u j) = Some i"
    using release_lock_frame [OF ur] assms by (simp_all add: jdefs close_pipes_def close_logs_def)
  have dr: "dq_count (q_deque (deque_remove i v)) = dq_count (q_deque v) \<and>
      (\<exists>P. dq_dict (q_deque (deque_remove i v)) = filter P (dq_dict (q_deque v)) \<and> (\<forall>p. fst p \<noteq> i \<longrightarrow> P p))" for v
    by (auto simp: deque_remove_def delete_filter split: option.split intro: exI [of _ "\<lambda>p. True"])
  have keep: "\<exists>P. d = filter P d \<and> (\<forall>p. fst p \<noteq> i \<longrightarrow> P p)" for d :: "(int \<times> nat) list"
    by (rule exI [of _ "\<lambda>p. True"]) simp
  show "dq_count (q_deque (run_finally L content j s)) = dq_count (q_deque s)"
    "\<exists>P. dq_dict (q_deque (run_finally L content j s)) = filter P (dq_dict (q_deque s)) \<and> (\<forall>p. fst p \<noteq> i \<longrightarrow> P p)"
    using ur f dr [of "set_phase j Finished (upd_job j (\<lambda>x. x\<lparr>j_finished := True\<rparr>) u)"] keep [of "dq_dict (q_deque s)"]
    by (auto simp: run_finally_def Let_def jdefs split: option.split)
qed

lemma queue_numbered: "lock_inv s \<Longrightarrow> j \<in> set (q_queue s) \<Longrightarrow> numbered (q_phase s j)"
  by (simp add: lock_inv_def inv_refs_def numbered_def)


lemma id_inv_same:
  assumes "id_inv s" "lock_inv s" "same_locks s t" "q_deque t = q_deque s" "moves j s ph x t"
    "j_id x = j_id (q_jobs s j)" "unfinished ph \<Longrightarrow> unfinished (q_phase s j)"
  shows "id_inv t"
proof (rule id_inv_keep [OF assms(1), where P = "\<lambda>_. True"])
  have pc: "phase_class (q_phase t k) = phase_class (q_phase s k)" for k using assms(3) by (simp add: same_locks_def)
  show "numbered (q_phase t k) = numbered (q_phase s k)" for k
    using pc [of k] by (cases "q_phase t k"; cases "q_phase s k") (simp_all add: phase_class_def numbered_def)
  show "numbered (q_phase s k) \<Longrightarrow> j_id (q_jobs t k) = j_id (q_jobs s k)" for k
    using assms(5,6) by (simp add: moves_def)
  show "unfinished (q_phase t k) \<Longrightarrow> unfinished (q_phase s k)" for k
    using assms(5,7) by (auto simp: moves_def split: if_splits)
  show "q_queue t = q_queue s \<or> (\<exists>j. q_queue t = remove1 j (q_queue s))"
    using assms(3) by (simp add: same_locks_def)
qed (use assms queue_numbered in auto)

lemma id_inv_step:
  assumes inv: "id_inv s" "lock_inv s" "life_inv s" and step: "jstep L s t"
  shows "id_inv t"
  using step
proof cases
  case (step_submit now nm m args opts ps cb x)
  note x = Job_init_fresh [OF step_submit(2)]
  let ?n = "q_next_job s"
  have n: "q_phase s ?n = Absent" using inv(2) unfolding lock_inv_def inv_refs_def by blast
  show ?thesis
  proof (rule submit_moves [OF inv(2), of x L])
    fix y
    assume "moves ?n s Rejected y (fst (submit L x s))" "q_deque (fst (submit L x s)) = q_deque s"
      "q_queue (fst (submit L x s)) = q_queue s"
    with n step_submit(1) inv(1,2) queue_numbered show ?thesis
      by (intro id_inv_keep [OF inv(1), where P = "\<lambda>_. True"])
        (auto simp: moves_def numbered_def unfinished_def split: if_splits)
  next
    fix y lk
    assume m: "moves ?n s Queued y (fst (submit L x s))"
      and y: "y = x\<lparr>j_lock := lk, j_id := Some (dq_count (q_deque s) + 1)\<rparr>"
      and eq: "fst (submit L x s) = enqueue L ?n (handle_lock ?n (new_job x s))"
    have xn: "j_lock (q_jobs (new_job x s) ?n) = None" using x by (simp add: new_job_def)
    note f = handle_lock_frame [OF xn]
    show ?thesis
      unfolding step_submit(1)
    proof (rule id_inv_enqueue [OF inv(1,3) n m, where u = "handle_lock ?n (new_job x s)"])
      show "q_deque (fst (submit L x s)) = q_deque (deque_add ?n (handle_lock ?n (new_job x s)))"
        using eq by (simp add: enqueue_def Let_def jdefs)
      show "q_queue (fst (submit L x s)) = q_queue s @ [?n]" using eq f(2) by (simp add: new_job_def)
      show "k \<noteq> ?n \<Longrightarrow> j_state (q_jobs (handle_lock ?n (new_job x s)) k) = j_state (q_jobs s k)" for k
        using f(7) by (auto simp: new_job_def)
    qed (use y f(5) queue_numbered [OF inv(2)] in \<open>simp_all add: new_job_def\<close>)
  qed (use x in simp_all)
next
  case step_schedule
  show ?thesis
  proof (cases rule: schedule_cases [of s])
    case idle
    with step_schedule inv(1) show ?thesis by (simp add: id_inv_def)
  next
    case (taken j)
    have "q_phase s j = Queued" using find_SomeD [OF taken(1)] inv(2) by (simp add: lock_inv_def inv_refs_def)
    with taken(2,3,6,10) step_schedule(1) show ?thesis
      by (intro id_inv_keep [OF inv(1), where P = "\<lambda>_. True"])
        (auto simp: numbered_def unfinished_def queue_numbered [OF inv(2), unfolded numbered_def] split: if_splits)
  qed
next
  case (step_start j opened now)
  note ok = life_inv_job [OF inv(3), of j, unfolded step_start(2)]
  obtain ph x where "moves j s ph x t" "same_call x (q_jobs s j)"
    using run_start_moves [OF step_start(2) ok, of L opened now] step_start(1) by metis
  then show ?thesis
    using id_inv_same [OF inv(1,2) same_locks_run_start [OF step_start(2)]] step_start by (simp add: unfinished_def same_call_def)
next
  case (step_body j now out)
  note ok = life_inv_job [OF inv(3), of j, unfolded step_body(2)]
  obtain x where "moves j s Closing x t" "same_call x (q_jobs s j)"
    using run_body_moves [OF step_body(2) ok, of L now out] step_body(1) by metis
  then show ?thesis
    using id_inv_same [OF inv(1,2) same_locks_run_body [OF step_body(2)]] step_body by (simp add: unfinished_def same_call_def)
next
  case (step_finally j content)
  note ok = life_inv_job [OF inv(3), of j, unfolded step_finally(2)]
  obtain x where m: "moves j s Finished x t" "same_call x (q_jobs s j)"
    using run_finally_moves [OF inv(2) step_finally(2) ok, of L content] step_finally(1) by metis
  obtain i where i: "j_id (q_jobs s j) = Some i"
    using inv(1) step_finally(2) phase.distinct unfolding id_inv_def numbered_def by metis
  obtain P where P: "dq_dict (q_deque t) = filter P (dq_dict (q_deque s))" "\<forall>p. fst p \<noteq> i \<longrightarrow> P p"
    using run_finally_deque(2) [OF i] step_finally(1) by blast
  have own: "k = j" if "(i, k) \<in> set (dq_dict (q_deque s))" for k
    using inv(1) that i step_finally(2) unfolding id_inv_def numbered_def by fastforce
  show ?thesis
  proof (rule id_inv_keep [OF inv(1) _ P(1)])
    show "(i', k) \<in> set (dq_dict (q_deque s)) \<Longrightarrow> unfinished (q_phase t k) \<Longrightarrow> P (i', k)" for i' k
      using P(2) own m(1) by (cases "i' = i") (auto simp: moves_def unfinished_def)
  qed (use m step_finally run_finally_deque(1) [OF i] run_finally_frame(1) queue_numbered [OF inv(2)] in
      \<open>auto simp: moves_def numbered_def unfinished_def same_call_def split: if_splits\<close>)
next
  case (step_progress j p d e)
  note m = set_progress_moves [where L = L and s = s and j = j and p = p and d = d and e = e]
  have "j_id (q_jobs t j) = j_id (q_jobs s j)" using m(2) step_progress(1) by auto
  then show ?thesis
    using id_inv_same [OF inv(1,2) same_locks_set_progress m(4,1)] step_progress(1) by simp
next
  case (step_abort j)
  have "same_locks s t" using step_abort by (simp add: same_locks_upd_job)
  moreover have "moves j s (q_phase s j) (abort (q_jobs s j)) t" using step_abort by (simp add: moves_def jdefs)
  moreover have "j_id (abort y) = j_id y" for y by (simp add: abort_def Let_def)
  ultimately show ?thesis using id_inv_same [OF inv(1,2)] step_abort by (simp add: jdefs)
qed

lemma reachable_id_inv: "reachable L s \<Longrightarrow> id_inv s"
  by (induction rule: reachable.induct) (use id_inv_init id_inv_step reachable_inv in blast)+

text \<open>
  (C26) Numbers given to jobs are never given twice, and the deque of at most about \<open>maxlen\<close> jobs never
  drops a job that is still waiting or running: looking the number up returns that very job, so it can be
  listed, awaited and aborted until it is over.
\<close>

theorem unfinished_jobs_listed:
  assumes "reachable L s" "q_phase s j \<in> {Queued, Taken, Body}"
  shows "\<exists>i. j_id (q_jobs s j) = Some i \<and> map_of (dq_dict (q_deque s)) i = Some j \<and>
    (\<forall>k < q_next_job s. j_id (q_jobs s k) = Some i \<longrightarrow> q_phase s k \<noteq> Rejected \<longrightarrow> k = j)"
proof -
  have inv: "id_inv s" "lock_inv s" using reachable_id_inv reachable_inv assms(1) by blast+
  obtain i where i: "(i, j) \<in> set (dq_dict (q_deque s))"
    using inv(1) assms(2) unfolding id_inv_def unfinished_def by blast
  have "distinct (map fst (dq_dict (q_deque s)))"
    using inv(1) strict_sorted_iff unfolding id_inv_def by blast
  with i have "map_of (dq_dict (q_deque s)) i = Some j" by simp
  moreover have id: "numbered (q_phase s j)" "j_id (q_jobs s j) = Some i" using inv(1) i unfolding id_inv_def by blast+
  moreover have "k = j" if k: "k < q_next_job s" "j_id (q_jobs s k) = Some i" "q_phase s k \<noteq> Rejected" for k
  proof -
    have "numbered (q_phase s k)" using k inv(2) by (simp add: numbered_def lock_inv_def inv_refs_def)
    with id k(2) inv(1) show ?thesis unfolding id_inv_def by metis
  qed
  ultimately show ?thesis by blast
qed

theorem unfinished_jobs_listed_witness:
  "\<exists>i. j_id (q_jobs sample_two 0) = Some i \<and> map_of (dq_dict (q_deque sample_two)) i = Some 0"
  using unfinished_jobs_listed [OF reachable_sample(3), of 0] sample_two_facts by auto


end
