(* ===== verification/Jobs_Life.thy ===== *)
theory Jobs_Life
  imports Jobs_Ids
begin

text \<open>
  The life cycle of a job, and the laws of the bounded and fallible parts of \<open>job.py\<close>: what a job that
  cannot open its log leaves behind, lock queues, the size of the deque, log excerpts, waiting for a job,
  \<open>bulk\<close>.
\<close>

section \<open>The life cycle\<close>

text \<open>Where the coroutine of a job can go next.\<close>

fun next_phases :: "phase \<Rightarrow> phase list" where
  "next_phases Absent = [Rejected, Queued]"
| "next_phases Queued = [Taken]"
| "next_phases Taken = [Body, Closing, Lost]"
| "next_phases Body = [Closing]"
| "next_phases Closing = [Finished]"
| "next_phases _ = []"

definition goes :: "phase \<Rightarrow> job \<Rightarrow> phase \<Rightarrow> job \<Rightarrow> bool" where
  "goes p x p' x' \<longleftrightarrow>
     (p' = p \<and> (p \<noteq> Absent \<longrightarrow> same_call x' x \<and> j_state x' = j_state x \<and> j_result x' = j_result x \<and> j_error x' = j_error x)) \<or>
     (p' \<in> set (next_phases p) \<and> (p \<noteq> Absent \<longrightarrow> same_call x' x) \<and>
      (p = Closing \<longrightarrow> j_state x' = j_state x \<and> j_result x' = j_result x \<and> j_error x' = j_error x))"

lemma goes_refl [simp]: "goes p x p x"
  by (simp add: goes_def same_call_def)

lemma run_finally_result:
  assumes "lock_inv s" "q_phase s j = Closing"
  shows "j_state (q_jobs (run_finally L content j s) j) = j_state (q_jobs s j)"
    "j_result (q_jobs (run_finally L content j s) j) = j_result (q_jobs s j)"
    "j_error (q_jobs (run_finally L content j s) j) = j_error (q_jobs s j)"
proof -
  let ?s = "upd_job j (close_pipes \<circ> close_logs content) s"
  obtain u r where ur: "release_lock j ?s = (u, r)" by fastforce
  have "q_jobs u = q_jobs ?s" using release_lock_frame [OF ur] by simp
  with ur show "j_state (q_jobs (run_finally L content j s) j) = j_state (q_jobs s j)"
    "j_result (q_jobs (run_finally L content j s) j) = j_result (q_jobs s j)"
    "j_error (q_jobs (run_finally L content j s) j) = j_error (q_jobs s j)"
    by (auto simp: run_finally_def Let_def jdefs close_pipes_def close_logs_def split: option.split)
qed

lemma jstep_goes:
  assumes inv: "lock_inv s" "life_inv s" and step: "jstep L s t"
  shows "goes (q_phase s k) (q_jobs s k) (q_phase t k) (q_jobs t k)"
proof -
  have one: "goes (q_phase s k) (q_jobs s k) (q_phase t k) (q_jobs t k)"
    if "moves j s ph x t" "goes (q_phase s j) (q_jobs s j) ph x" for j ph x
    using that by (auto simp: moves_def)
  show ?thesis
    using step
  proof cases
    case (step_submit now nm m args opts ps cb x)
    note x = Job_init_fresh [OF step_submit(2)]
    have "q_phase s (q_next_job s) = Absent" using inv(1) unfolding lock_inv_def inv_refs_def by blast
    then have g: "goes (q_phase s (q_next_job s)) (q_jobs s (q_next_job s)) ph y" if "ph \<in> {Rejected, Queued}" for ph y
      using that by (auto simp: goes_def)
    show ?thesis
    proof (rule submit_moves [OF inv(1), of x L])
      fix y
      assume "moves (q_next_job s) s Rejected y (fst (submit L x s))"
      then show ?thesis using one g step_submit(1) by simp
    next
      fix y
      assume "moves (q_next_job s) s Queued y (fst (submit L x s))"
      then show ?thesis using one g step_submit(1) by simp
    qed (use x in simp_all)
  next
    case step_schedule
    show ?thesis
    proof (cases rule: schedule_cases [of s])
      case idle
      with step_schedule show ?thesis by simp
    next
      case (taken j)
      have "q_phase s j = Queued" using find_SomeD [OF taken(1)] inv(1) by (simp add: lock_inv_def inv_refs_def)
      then show ?thesis
        using step_schedule taken(2,6) one [of j Taken "q_jobs s j"] by (simp add: moves_def goes_def same_call_def)
    qed
  next
    case (step_start j opened now)
    note ok = life_inv_job [OF inv(2), of j, unfolded step_start(2)]
    obtain ph x where "moves j s ph x t" "ph \<in> {Body, Closing, Lost}" "same_call x (q_jobs s j)"
      using run_start_moves [OF step_start(2) ok, of L opened now] step_start(1) by metis
    then show ?thesis using one [of j ph x] step_start(2) by (auto simp: goes_def)
  next
    case (step_body j now out)
    note ok = life_inv_job [OF inv(2), of j, unfolded step_body(2)]
    obtain x where "moves j s Closing x t" "same_call x (q_jobs s j)"
      using run_body_moves [OF step_body(2) ok, of L now out] step_body(1) by metis
    then show ?thesis using one [of j Closing x] step_body(2) by (auto simp: goes_def)
  next
    case (step_finally j content)
    note ok = life_inv_job [OF inv(2), of j, unfolded step_finally(2)]
    obtain x where m: "moves j s Finished x t" "same_call x (q_jobs s j)"
      using run_finally_moves [OF inv(1) step_finally(2) ok, of L content] step_finally(1) by metis
    moreover have "q_jobs t j = x" using m(1) by (simp add: moves_def)
    ultimately show ?thesis
      using one [of j Finished x] run_finally_result [OF inv(1) step_finally(2), of L content] step_finally
      by (auto simp: goes_def)
  next
    case (step_progress j p d e)
    note m = set_progress_moves [where L = L and s = s and j = j and p = p and d = d and e = e]
    obtain g where "q_jobs t j = (q_jobs s j)\<lparr>j_progress := g\<rparr>" using m(2) step_progress(1) by auto
    then show ?thesis
      using one [of j "q_phase s j" "q_jobs t j"] m(1) step_progress(1) by (auto simp: goes_def same_call_def)
  next
    case (step_abort j)
    then show ?thesis by (auto simp: jdefs goes_def same_call_def abort_def Let_def)
  qed
qed

text \<open>
  (C27) A job goes through its life in one direction: a step takes it to one of the next phases or leaves
  it where it is, it never changes the job's number, options and arguments, and once the job is over
  (its state is \<open>SUCCESS\<close>, \<open>FAILED\<close> or \<open>ABORTED\<close>) no later step changes its state, its result or its error.
\<close>

theorem job_life_cycle:
  assumes "reachable L s" "jstep L s t" "j < q_next_job s"
  shows "(q_phase t j = q_phase s j \<or> q_phase t j \<in> set (next_phases (q_phase s j))) \<and>
    j_id (q_jobs t j) = j_id (q_jobs s j) \<and> j_options (q_jobs t j) = j_options (q_jobs s j) \<and>
    j_args (q_jobs t j) = j_args (q_jobs s j) \<and>
    (terminal (j_state (q_jobs s j)) \<longrightarrow>
       j_state (q_jobs t j) = j_state (q_jobs s j) \<and> j_result (q_jobs t j) = j_result (q_jobs s j) \<and>
       j_error (q_jobs t j) = j_error (q_jobs s j))"
proof -
  have inv: "lock_inv s" "life_inv s" using reachable_inv [OF assms(1)] by auto
  have ph: "q_phase s j \<noteq> Absent" using inv(1) assms(3) unfolding lock_inv_def inv_refs_def by blast
  have "terminal (j_state (q_jobs s j)) \<Longrightarrow> q_phase s j \<in> {Closing, Finished}"
    using life_inv_job [OF inv(2), of j] ph by (cases "q_phase s j") (auto simp: job_ok_defs)
  with jstep_goes [OF inv assms(2), of j] ph show ?thesis
    unfolding goes_def same_call_def by auto
qed

theorem job_life_cycle_witness:
  "q_phase sample_queued 0 = Queued \<and> q_phase (schedule sample_queued) 0 = Taken \<and>
   j_id (q_jobs (schedule sample_queued) 0) = j_id (q_jobs sample_queued 0)"
  using job_life_cycle [OF reachable_sample(2) step_schedule [OF sample_queued_event(1)], of 0]
  by (simp add: sample_queued_def sample_eval Let_def)


section \<open>Jobs that cannot open their log\<close>




lemma lost_stays:
  assumes "rtranclp (jstep L) s t" "lock_inv s \<and> life_inv s" "q_phase s j = Lost"
  shows "q_phase t j = Lost \<and> same_call (q_jobs t j) (q_jobs s j)"
proof (rule jq.stays [OF assms(1,2), where P = "\<lambda>u. q_phase u j = Lost \<and> same_call (q_jobs u j) (q_jobs s j)"])
  show "q_phase s j = Lost \<and> same_call (q_jobs s j) (q_jobs s j)" using assms(3) by (simp add: same_call_def)
  fix u v
  assume "lock_inv u \<and> life_inv u" "jstep L u v" "q_phase u j = Lost \<and> same_call (q_jobs u j) (q_jobs s j)"
  then show "q_phase v j = Lost \<and> same_call (q_jobs v j) (q_jobs s j)"
    using jstep_goes [of u L v j] by (auto simp: goes_def same_call_def)
qed

lemma same_call_lock_name: "same_call x y \<Longrightarrow> get_lock_name x = get_lock_name y"
  by (simp add: same_call_def get_lock_name_def split: lock_option.split)

text \<open>
  (C29) A job whose log file cannot be opened keeps its lock for ever: the file is opened before the \<open>try\<close>
  statement whose \<open>finally\<close> clause releases the lock, so from then on no job with the same lock name
  ever gets a task, in any continuation.
\<close>

theorem lost_job_blocks_its_lock:
  assumes "reachable L s" "q_phase s j = Lost" "get_lock_name (q_jobs s j) = Some nm"
    and "rtranclp (jstep L) s t" "k \<noteq> j" "get_lock_name (q_jobs t k) = Some nm"
  shows "q_phase t k \<notin> {Taken, Body, Closing}"
proof -
  have "lock_inv t" using reachable_inv [OF reachable_steps [OF assms(1,4)]] by simp
  moreover have l: "q_phase t j = Lost" "get_lock_name (q_jobs t j) = Some nm"
    using lost_stays [OF assms(4) reachable_inv [OF assms(1)] assms(2)] same_call_lock_name assms(3) by auto
  ultimately show ?thesis using exclusion [of t k j nm] assms(5,6) unfolding lock_name_def by auto
qed

theorem lost_job_blocks_its_lock_witness:
  "q_phase (schedule (fst (submit sample_jlib (sample_job (sample_lock ''a'')) sample_lost))) 1 \<notin> {Taken, Body, Closing}"
proof -
  let ?q = "fst (submit sample_jlib (sample_job (sample_lock ''a'')) sample_lost)"
  have "jstep sample_jlib sample_lost ?q"
    by (rule step_submit [OF sample_job_init]) (simp add: job_decorator_def)
  moreover have "q_event ?q" "get_lock_name (q_jobs (schedule ?q) 1) = Some ''a''"
    by (simp_all add: sample_lost_def run_start_def sample_eval Let_def)
  ultimately have "rtranclp (jstep sample_jlib) sample_lost (schedule ?q)"
    by (meson step_schedule converse_rtranclp_into_rtranclp r_into_rtranclp)
  then show ?thesis
    using lost_job_blocks_its_lock [OF reachable_sample_lost sample_lost_facts(1,3), of "schedule ?q" 1]
      \<open>get_lock_name (q_jobs (schedule ?q) 1) = Some ''a''\<close> by simp
qed


section \<open>Lock queues and the deque\<close>

text \<open>
  (C30) \<open>lock_queue_size\<close> bounds the jobs that wait for a lock: a job is queued only if at most that many
  jobs with its lock are in the queue afterwards; otherwise nothing is queued and the caller gets the
  last of them, or \<open>IndexError\<close> when there is none, which happens for sizes below one.
\<close>

theorem lock_queue_size_bounds:
  assumes "j \<notin> set (q_queue s)" "j_lock (q_jobs s j) = None" "opt_lock_queue_size (j_options (q_jobs s j)) = Some limit"
  shows "case queue_add L j s of
      (t, Inl e) \<Rightarrow> e = IndexError \<and> limit \<le> 0 \<and> q_queue t = q_queue s
    | (t, Inr i) \<Rightarrow> (i = j \<and> q_queue t = q_queue s @ [j] \<and> int (length (queued_like j t)) \<le> limit) \<or>
        (i \<in> set (q_queue s) \<and> q_queue t = q_queue s \<and> i = last (queued_like j t))"
proof -
  define h where "h = handle_lock j s"
  obtain lk where hj: "q_jobs h = (q_jobs s)(j := (q_jobs s j)\<lparr>j_lock := lk\<rparr>)"
    using handle_lock_frame(7) [OF assms(2)] h_def by auto
  have hq: "q_queue h = q_queue s" using handle_lock_frame(2) [OF assms(2)] h_def by simp
  have lim: "opt_lock_queue_size (j_options (q_jobs h j)) = Some limit" using hj assms(3) by simp
  have sub: "set (queued_like j h) \<subseteq> set (q_queue s)" by (auto simp: queued_like_def hq)
  have enq: "queued_like j (enqueue L j h) = queued_like j h @ [j]"
  proof -
    have "filter (\<lambda>k. j_lock (q_jobs (enqueue L j h) k) = j_lock (q_jobs (enqueue L j h) j)) (q_queue s) =
        filter (\<lambda>k. j_lock (q_jobs h k) = j_lock (q_jobs h j)) (q_queue s)"
      using assms(1) by (intro filter_cong) auto
    then show ?thesis by (simp add: queued_like_def hq)
  qed
  have rej: "queued_like j (set_phase j Rejected h) = queued_like j h" by (simp add: queued_like_def jdefs)
  show ?thesis
  proof (cases "limit \<le> int (length (queued_like j h))")
    case True
    then have q: "queue_add L j s = (set_phase j Rejected h, list_item (queued_like j h) (- 1))"
      using lim by (simp add: queue_add_def h_def Let_def)
    show ?thesis
    proof (cases "queued_like j h")
      case Nil
      with True q hq show ?thesis by (simp add: list_item_def jdefs)
    next
      case (Cons a list)
      then have "list_item (queued_like j h) (- 1) = Inr (last (queued_like j h))"
        by (simp add: list_item_def last_conv_nth nat_diff_distrib)
      moreover have "last (queued_like j h) \<in> set (q_queue s)" using Cons sub by (metis last_in_set list.distinct(1) subsetD)
      ultimately show ?thesis using q hq rej by (simp add: jdefs)
    qed
  next
    case False
    then have "queue_add L j s = (enqueue L j h, Inr j)" using lim by (simp add: queue_add_def h_def Let_def)
    with False enq hq show ?thesis by simp
  qed
qed

theorem lock_queue_size_bounds_witness:
  "case queue_add sample_jlib 0 (new_job (sample_job (sample_lock ''a''\<lparr>opt_lock_queue_size := Some 1\<rparr>)) sample_start) of
     (t, Inl e) \<Rightarrow> False | (t, Inr i) \<Rightarrow> q_queue t = [0] \<and> int (length (queued_like 0 t)) \<le> 1"
proof -
  let ?s = "new_job (sample_job (sample_lock ''a''\<lparr>opt_lock_queue_size := Some 1\<rparr>)) sample_start"
  have "0 \<notin> set (q_queue ?s)" "j_lock (q_jobs ?s 0) = None" "opt_lock_queue_size (j_options (q_jobs ?s 0)) = Some 1"
    "q_queue ?s = []" by (simp_all add: sample_eval Let_def)
  then show ?thesis
    using lock_queue_size_bounds [of 0 ?s 1 sample_jlib] by (auto split: prod.splits sum.splits)
qed


text \<open>
  (C31) The deque of jobs keeps up to \<open>maxlen + 1\<close> of them, and more when none of them is over: adding a job
  makes room only when the deque is already longer than \<open>maxlen\<close>, and then drops exactly one finished job.
\<close>

theorem deque_add_size:
  assumes "reachable L s" "q_phase s j = Absent"
  shows "length (dq_dict (q_deque (deque_add j s))) =
    (if int (length (dq_dict (q_deque s))) > dq_maxlen (q_deque s) \<and>
        (\<exists>(i, k) \<in> set (dq_dict (q_deque s)). terminal (j_state (q_jobs s k)))
     then length (dq_dict (q_deque s)) else length (dq_dict (q_deque s)) + 1)"
proof -
  let ?d = "dq_dict (q_deque s)" and ?n = "dq_count (q_deque s) + 1"
  have inv: "id_inv s" by (rule reachable_id_inv [OF assms(1)])
  have dist: "distinct (map fst ?d)" using inv strict_sorted_iff unfolding id_inv_def by blast
  have le: "i \<le> dq_count (q_deque s)" if "(i, k) \<in> set ?d" for i k
  proof -
    have "numbered (q_phase s k)" "j_id (q_jobs s k) = Some i" using inv that unfolding id_inv_def by blast+
    then show ?thesis using inv unfolding id_inv_def by (metis option.inject)
  qed
  have fresh: "?n \<notin> fst ` set (filter P ?d)" for P using le by fastforce
  define s1 where "s1 = upd_job j (set_id ?n) (s\<lparr>q_deque := (q_deque s)\<lparr>dq_count := ?n\<rparr>\<rparr>)"
  have s1: "q_deque s1 = (q_deque s)\<lparr>dq_count := ?n\<rparr>" by (simp add: s1_def jdefs)
  have st: "j_state (q_jobs s1 k) = j_state (q_jobs s k)" for k by (simp add: s1_def jdefs set_id_def)
  have add: "deque_add j s = (let s2 = (if int (length ?d) > dq_maxlen (q_deque s)
        then (case oldest_finished s1 of None \<Rightarrow> s1 | Some old \<Rightarrow> deque_remove old s1) else s1)
      in s2\<lparr>q_deque := (q_deque s2)\<lparr>dq_dict := AList.update ?n j (dq_dict (q_deque s2))\<rparr>\<rparr>)"
    unfolding deque_add_def Let_def s1_def [symmetric] s1 by simp
  have upd: "length (AList.update ?n j ?d) = length ?d + 1" using fresh [of "\<lambda>_. True"] by (simp add: update_fresh)
  show ?thesis
  proof (cases "oldest_finished s1")
    case None
    then have "\<not> (\<exists>(i, k) \<in> set ?d. terminal (j_state (q_jobs s k)))"
      using find_NoneD [of "\<lambda>(i, k). terminal (j_state (q_jobs s1 k))" ?d] by (auto simp: oldest_finished_def s1 st)
    with None add upd s1 show ?thesis by (auto simp: Let_def)
  next
    case (Some old)
    then obtain k where k: "(old, k) \<in> set ?d" "terminal (j_state (q_jobs s k))"
      using s1 st by (auto simp: oldest_finished_def dest!: find_SomeD)
    then have m: "map_of ?d old = Some k" using dist by simp
    have "AList.delete old ?d = filter (\<lambda>p. fst p \<noteq> old) ?d" by (rule delete_filter)
    then have "length (AList.delete old ?d) + 1 = length ?d"
      using pd.size_del [of ?d old] k(1) dist by (force simp: dict_keys_def)
    moreover have "?n \<notin> fst ` set (AList.delete old ?d)" using fresh delete_filter by metis
    then have "length (AList.update ?n j (AList.delete old ?d)) = length (AList.delete old ?d) + 1"
      by (simp add: update_fresh)
    moreover have "\<exists>(i, k) \<in> set ?d. terminal (j_state (q_jobs s k))" using k by blast
    ultimately show ?thesis using Some add upd s1 m by (auto simp: Let_def deque_remove_def)
  qed
qed

theorem deque_add_size_witness: "length (dq_dict (q_deque (deque_add 0 sample_start))) = 1"
  using deque_add_size [OF reachable_sample(1), of 0] by (simp add: sample_start_def JobsQueue_init_def)


section \<open>Log excerpts\<close>

lemma slice_last: "slice_from xs (- 10) = drop (length xs - 10) xs"
  by (simp add: slice_from_def slice_index_def nat_diff_distrib max_def)


definition excerpt_state :: "string list \<Rightarrow> string list \<times> string list \<times> nat" where
  "excerpt_state p = (take 10 p, drop (length (drop 10 p) - 10) (drop 10 p), length p)"

lemma excerpt_loop_state: "excerpt_loop ls (excerpt_state p) = excerpt_state (p @ ls)"
proof (induction ls arbitrary: p)
  case Nil
  show ?case by simp
next
  case (Cons l ls)
  have "10 \<le> length p \<Longrightarrow>
      drop (length p - (19 + (length p - 20)) + (length p - 20 + 10)) p = drop (length p - 19 + 10) p"
    by (rule arg_cong [where f = "\<lambda>n. drop n p"]) arith
  then have "excerpt_loop (l # ls) (excerpt_state p) = excerpt_loop ls (excerpt_state (p @ [l]))"
    by (auto simp: excerpt_state_def slice_last not_less Suc_diff_le drop_append)
  with Cons [of "p @ [l]"] show ?case by simp
qed

text \<open>
  (C32) The excerpt computed line by line, keeping at most ten lines of the end at a time, is what reading the
  whole file at once would give: the file itself up to twenty lines, and otherwise the first ten lines, the
  number of lines left out, and the last ten lines.
\<close>

theorem logs_excerpt_head_tail:
  "get_logs_excerpt (Some ls) =
     (if length ls \<le> 20 then concat ls
      else concat (take 10 ls) @ ''... '' @ str_of_nat (length ls - 20) @ '' more lines ...'' @ [CHR 0x0A] @
        concat (drop (length ls - 10) ls))"
proof -
  have "excerpt_loop ls ([], [], 0) = excerpt_state ls"
    using excerpt_loop_state [of ls "[]"] by (simp add: excerpt_state_def)
  moreover have "concat (take 10 ls @ drop 10 ls) = concat ls" by (simp only: append_take_drop_id)
  ultimately show ?thesis
    by (auto simp: get_logs_excerpt_def excerpt_state_def not_le not_less)
qed

section \<open>Waiting for a job\<close>

text \<open>
  (C33) What a caller of \<open>wait\<close> with \<open>raise_error\<close> sees once the job is over: the result of a job that succeeded;
  a \<open>CallError\<close> for a job that failed, unless the text of its exception is empty, in which case \<open>None\<close> is
  returned as for a success; and \<open>None\<close> for a job that was aborted.
\<close>

theorem wait_outcome:
  assumes "reachable L s" "q_phase s j = Finished"
  shows "case j_state (q_jobs s j) of
      SUCCESS \<Rightarrow> wait L timed_out True (q_jobs s j) = Some (Inr (j_result (q_jobs s j)))
    | FAILED \<Rightarrow> (\<exists>err. j_error (q_jobs s j) = Some err \<and>
        (if err = [] then wait L timed_out True (q_jobs s j) = Some (Inr PNone)
         else \<exists>m n x. wait L timed_out True (q_jobs s j) = Some (Inl (CallError m n x))))
    | ABORTED \<Rightarrow> wait L timed_out True (q_jobs s j) = Some (Inr PNone)
    | _ \<Rightarrow> False"
proof -
  let ?x = "q_jobs s j"
  have ok: "job_ok Finished ?x"
    using life_inv_job [of s j] reachable_inv [OF assms(1)] assms(2) by simp
  then have f: "j_finished ?x" "terminal (j_state ?x)" by (simp_all add: job_ok_defs)
  show ?thesis
  proof (cases "j_state ?x")
    case FAILED
    then obtain err e where "j_error ?x = Some err" "j_exc_info ?x = Some e" "j_result ?x = PNone"
      using ok by (auto simp: job_ok_defs)
    then show ?thesis
      using FAILED f by (cases e) (auto simp: wait_def wait_sync_def raise_job_error_def)
  qed (use ok f in \<open>auto simp: job_ok_defs wait_def wait_sync_def raise_job_error_def\<close>)
qed

theorem wait_outcome_witness: "wait sample_jlib False True (q_jobs sample_done 0) = Some (Inr (PInt 3))"
  using wait_outcome [OF reachable_sample_done sample_done_facts(1), of False] sample_done_facts by simp


section \<open>Bulk calls\<close>

lemma bulk_loop_statuses:
  "\<exists>sts. snd (bulk_loop L None call n i ps j s) = Inr sts \<and> length sts = length ps \<and>
     (\<forall>st \<in> set sts. dict_keys st = [''result'', ''error''])"
proof (induction ps arbitrary: i s)
  case (Cons p ps)
  let ?d = "PStr (str_of_nat i @ '' / '' @ str_of_nat n)"
  let ?r = "set_progress L (PFloat (100 * of_nat i / of_nat n)) ?d PNone j s"
  have sp: "snd ?r = None" by (simp add: set_progress_def Let_def)
  obtain s2 c where c: "call p (fst ?r) = (s2, c)" by fastforce
  obtain sts where "snd (bulk_loop L None call n (i + 1) ps j s2) = Inr sts" "length sts = length ps"
      "\<forall>st \<in> set sts. dict_keys st = [''result'', ''error'']" using Cons.IH by blast
  moreover have "dict_keys (bulk_status L c) = [''result'', ''error'']"
    by (cases c) (simp_all add: bulk_status_def)
  ultimately show ?case
    using sp c by (auto simp: split_beta intro!: exI [of _ "bulk_status L c # sts"] split: option.split) 
qed simp

end
