(* ===== verification/Progress.thy ===== *)
theory Progress
  imports Jobs_Sample Steps
begin

text \<open>
  \<open>JobProgressBuffer\<close> of \<open>job.py\<close>: a wrapper of \<open>Job.set_progress\<close> that lets through at most one update
  per interval and keeps the newest of the others for later.

  \<^item> The event loop's \<open>call_later\<close> is a timer: \<open>Due t\<close> runs \<open>_do_pending_update\<close> at the time \<open>t\<close> or later, and
    \<open>Fired\<close> is a timer whose callback has been called.
  \<^item> A state has the clock, the buffer, the queue of the jobs, and two histories that no operation reads:
    the updates given to the buffer and those that the job got, each with its time.
\<close>

section \<open>The buffer\<close>

type_synonym update = "pyval \<times> pyval \<times> pyval"

datatype timer = Due rat | Fired

record progress_buffer =
  pb_job :: nat
  pb_interval :: rat
  pb_last_update_at :: rat
  pb_pending_update_body :: "update option"
  pb_pending_update :: "timer option"

record buffer_world =
  bw_now :: rat
  bw_buffer :: progress_buffer
  bw_queue :: jobs_queue
  bw_given :: "(rat \<times> update) list"
  bw_sent :: "(rat \<times> update) list"

definition JobProgressBuffer :: "nat \<Rightarrow> rat \<Rightarrow> progress_buffer" where
  "JobProgressBuffer j interval =
     \<lparr>pb_job = j, pb_interval = interval, pb_last_update_at = 0, pb_pending_update_body = None, pb_pending_update = None\<rparr>"

definition upd_buffer :: "(progress_buffer \<Rightarrow> progress_buffer) \<Rightarrow> buffer_world \<Rightarrow> buffer_world" where
  "upd_buffer f w = w\<lparr>bw_buffer := f (bw_buffer w)\<rparr>"

definition clear_pending :: "progress_buffer \<Rightarrow> progress_buffer" where
  "clear_pending b = b\<lparr>pb_pending_update_body := None, pb_pending_update := None\<rparr>"

text \<open>The call of \<open>job.set_progress\<close>, which raises when the percentage is not a number.\<close>

definition job_set_progress :: "jlib \<Rightarrow> update \<Rightarrow> buffer_world \<Rightarrow> buffer_world \<times> exn option" where
  "job_set_progress L u w =
     (case u of (percent, descr, extra) \<Rightarrow>
        (case set_progress L percent descr extra (pb_job (bw_buffer w)) (bw_queue w) of
           (q, Some e) \<Rightarrow> (w\<lparr>bw_queue := q\<rparr>, Some e)
         | (q, None) \<Rightarrow> (w\<lparr>bw_queue := q, bw_sent := bw_sent w @ [(bw_now w, u)]\<rparr>, None)))"

definition buffer_set_progress :: "jlib \<Rightarrow> update \<Rightarrow> buffer_world \<Rightarrow> buffer_world \<times> exn option" where
  "buffer_set_progress L u w =
     (if bw_now w - pb_last_update_at (bw_buffer w) \<ge> pb_interval (bw_buffer w)
      then (let w1 = (if pb_pending_update (bw_buffer w) \<noteq> None then upd_buffer clear_pending w else w)
            in job_set_progress L u (upd_buffer (\<lambda>b. b\<lparr>pb_last_update_at := bw_now w\<rparr>) w1))
      else (let w1 = upd_buffer (\<lambda>b. b\<lparr>pb_pending_update_body := Some u\<rparr>) w
            in (if pb_pending_update (bw_buffer w) = None
                then upd_buffer (\<lambda>b. b\<lparr>pb_pending_update := Some (Due (bw_now w + pb_interval b))\<rparr>) w1 else w1, None)))"

definition do_pending_update :: "jlib \<Rightarrow> buffer_world \<Rightarrow> buffer_world \<times> exn option" where
  "do_pending_update L w =
     (let w1 = upd_buffer (\<lambda>b. b\<lparr>pb_last_update_at := bw_now w\<rparr>) w
      in case pb_pending_update_body (bw_buffer w1) of
           None \<Rightarrow> (w1, Some TypeError)
         | Some u \<Rightarrow>
             (case job_set_progress L u w1 of
                (w2, Some e) \<Rightarrow> (w2, Some e)
              | (w2, None) \<Rightarrow> (upd_buffer clear_pending w2, None)))"

definition buffer_cancel :: "buffer_world \<Rightarrow> buffer_world" where
  "buffer_cancel w = (if pb_pending_update (bw_buffer w) \<noteq> None then upd_buffer clear_pending w else w)"

text \<open>\<open>flush\<close> cancels the timer but keeps it in its field until the update has been done.\<close>

definition buffer_flush :: "jlib \<Rightarrow> buffer_world \<Rightarrow> buffer_world \<times> exn option" where
  "buffer_flush L w =
     (if pb_pending_update (bw_buffer w) \<noteq> None
      then do_pending_update L (upd_buffer (\<lambda>b. b\<lparr>pb_pending_update := Some Fired\<rparr>) w)
      else (w, None))"

section \<open>What can happen, in order\<close>

text \<open>
  An update is given, the timer runs, the buffer is cancelled or flushed; each at a time that is not
  before the last one.
\<close>

datatype buffer_op = Give update | Fire | Cancel | Flush

fun buffer_enabled :: "buffer_op \<Rightarrow> buffer_world \<Rightarrow> bool" where
  "buffer_enabled (Give (percent, descr, extra)) w = (percent = PNone \<or> num_of percent \<noteq> None)"
| "buffer_enabled Fire w =
     (case pb_pending_update (bw_buffer w) of Some (Due t) \<Rightarrow> t \<le> bw_now w | _ \<Rightarrow> False)"
| "buffer_enabled Cancel w = True"
| "buffer_enabled Flush w = True"

fun buffer_do :: "jlib \<Rightarrow> buffer_op \<Rightarrow> buffer_world \<Rightarrow> buffer_world \<times> exn option" where
  "buffer_do L (Give u) w = buffer_set_progress L u (w\<lparr>bw_given := bw_given w @ [(bw_now w, u)]\<rparr>)"
| "buffer_do L Fire w = do_pending_update L (upd_buffer (\<lambda>b. b\<lparr>pb_pending_update := Some Fired\<rparr>) w)"
| "buffer_do L Cancel w = (buffer_cancel w, None)"
| "buffer_do L Flush w = buffer_flush L w"

definition buffer_step :: "buffer_op set \<Rightarrow> jlib \<Rightarrow> buffer_world \<Rightarrow> buffer_world \<Rightarrow> bool" where
  "buffer_step left_out L w w' \<longleftrightarrow>
     (\<exists>op t. op \<notin> left_out \<and> bw_now w \<le> t \<and> buffer_enabled op (w\<lparr>bw_now := t\<rparr>) \<and>
        w' = fst (buffer_do L op (w\<lparr>bw_now := t\<rparr>)))"

definition buffer_start :: "rat \<Rightarrow> buffer_world \<Rightarrow> bool" where
  "buffer_start interval w \<longleftrightarrow>
     (\<exists>j. bw_buffer w = JobProgressBuffer j interval) \<and> 0 \<le> interval \<and> 0 \<le> bw_now w \<and> bw_given w = [] \<and> bw_sent w = []"

section \<open>Invariants\<close>

text \<open>
  In every case: the updates are of the kind \<open>set_progress\<close> accepts, and the timer is one that has not run.
  Without \<open>flush\<close>: a timer is due no earlier than an interval after the last update. Without \<open>cancel\<close>: the
  newest update is the one the job got last or the one that waits.
\<close>

definition well_typed_update :: "update \<Rightarrow> bool" where
  "well_typed_update u \<longleftrightarrow> fst u = PNone \<or> num_of (fst u) \<noteq> None"

definition buffer_ok :: "buffer_world \<Rightarrow> bool" where
  "buffer_ok w \<longleftrightarrow>
     0 \<le> pb_interval (bw_buffer w) \<and> pb_last_update_at (bw_buffer w) \<le> bw_now w \<and>
     (case pb_pending_update (bw_buffer w) of
        None \<Rightarrow> pb_pending_update_body (bw_buffer w) = None
      | Some Fired \<Rightarrow> False
      | Some (Due t) \<Rightarrow> (\<exists>u. pb_pending_update_body (bw_buffer w) = Some u \<and> well_typed_update u)) \<and>
     (bw_sent w \<noteq> [] \<longrightarrow> fst (last (bw_sent w)) = pb_last_update_at (bw_buffer w))"

definition buffer_spaced :: "buffer_world \<Rightarrow> bool" where
  "buffer_spaced w \<longleftrightarrow>
     (\<forall>t. pb_pending_update (bw_buffer w) = Some (Due t) \<longrightarrow>
        pb_last_update_at (bw_buffer w) + pb_interval (bw_buffer w) \<le> t) \<and>
     successively (\<lambda>a b. fst a + pb_interval (bw_buffer w) \<le> fst b) (bw_sent w)"

definition buffer_latest :: "buffer_world \<Rightarrow> bool" where
  "buffer_latest w \<longleftrightarrow>
     (if bw_given w = [] then pb_pending_update (bw_buffer w) = None
      else case pb_pending_update (bw_buffer w) of
        Some (Due t) \<Rightarrow> pb_pending_update_body (bw_buffer w) = Some (snd (last (bw_given w))) \<and>
          t \<le> fst (last (bw_given w)) + pb_interval (bw_buffer w)
      | _ \<Rightarrow> bw_sent w \<noteq> [] \<and> snd (last (bw_sent w)) = snd (last (bw_given w)))"

lemma job_set_progress_ok:
  "well_typed_update u \<Longrightarrow>
   \<exists>q. job_set_progress L u w = (w\<lparr>bw_queue := q, bw_sent := bw_sent w @ [(bw_now w, u)]\<rparr>, None)"
  by (auto simp: job_set_progress_def set_progress_def well_typed_update_def Let_def split: prod.split)

lemmas buffer_defs = buffer_set_progress_def do_pending_update_def buffer_cancel_def buffer_flush_def upd_buffer_def
  clear_pending_def

text \<open>
  What an operation does in a good state, with the time of the clock: the job gets the given or the waiting
  update now, or the given update waits, or the waiting one is dropped.
\<close>

definition deliver :: "update \<Rightarrow> jobs_queue \<Rightarrow> buffer_world \<Rightarrow> buffer_world" where
  "deliver u q w =
     w\<lparr>bw_buffer := clear_pending ((bw_buffer w)\<lparr>pb_last_update_at := bw_now w\<rparr>), bw_queue := q,
       bw_sent := bw_sent w @ [(bw_now w, u)]\<rparr>"

lemma do_pending_update_ok:
  assumes "pb_pending_update_body (bw_buffer w) = Some u" "well_typed_update u"
  shows "\<exists>q. fst (do_pending_update L w) = deliver u q w"
proof -
  let ?w = "upd_buffer (\<lambda>b. b\<lparr>pb_last_update_at := bw_now w\<rparr>) w"
  obtain q where "job_set_progress L u ?w = (?w\<lparr>bw_queue := q, bw_sent := bw_sent ?w @ [(bw_now ?w, u)]\<rparr>, None)"
    using job_set_progress_ok [OF assms(2)] by blast
  then show ?thesis
    using assms(1) by (auto simp: buffer_defs deliver_def Let_def intro!: exI [of _ q] buffer_world.equality)
qed

lemma deliver_again [simp]:
  "deliver u q (upd_buffer (\<lambda>b. b\<lparr>pb_pending_update := p\<rparr>) w) = deliver u q w"
  by (simp add: deliver_def upd_buffer_def clear_pending_def)

lemma fired_update_ok:
  assumes "pb_pending_update_body (bw_buffer w) = Some u" "well_typed_update u"
  shows "\<exists>q. fst (do_pending_update L (upd_buffer (\<lambda>b. b\<lparr>pb_pending_update := Some Fired\<rparr>) w)) = deliver u q w"
proof -
  have "pb_pending_update_body (bw_buffer (upd_buffer (\<lambda>b. b\<lparr>pb_pending_update := Some Fired\<rparr>) w)) = Some u"
    using assms(1) by (simp add: upd_buffer_def)
  from do_pending_update_ok [OF this assms(2)] show ?thesis by simp
qed

lemma clear_pending_later [simp]:
  "(clear_pending b)\<lparr>pb_last_update_at := t\<rparr> = clear_pending (b\<lparr>pb_last_update_at := t\<rparr>)"
  by (cases b) (simp add: clear_pending_def)

lemma buffer_set_progress_now:
  assumes "buffer_ok w" "well_typed_update u" "pb_interval (bw_buffer w) \<le> bw_now w - pb_last_update_at (bw_buffer w)"
  shows "\<exists>q. fst (buffer_set_progress L u w) = deliver u q w"
proof -
  let ?w = "upd_buffer (\<lambda>b. clear_pending (b\<lparr>pb_last_update_at := bw_now w\<rparr>)) w"
  obtain q where q: "job_set_progress L u ?w = (?w\<lparr>bw_queue := q, bw_sent := bw_sent ?w @ [(bw_now ?w, u)]\<rparr>, None)"
    using job_set_progress_ok [OF assms(2)] by blast
  have "buffer_set_progress L u w = job_set_progress L u ?w"
  proof (cases "pb_pending_update (bw_buffer w)")
    case None
    then have "clear_pending (bw_buffer w\<lparr>pb_last_update_at := bw_now w\<rparr>) = bw_buffer w\<lparr>pb_last_update_at := bw_now w\<rparr>"
      using assms(1) by (simp add: buffer_ok_def clear_pending_def)
    with None assms(3) show ?thesis by (simp add: buffer_set_progress_def upd_buffer_def Let_def)
  next
    case (Some x)
    with assms(3) show ?thesis by (simp add: buffer_set_progress_def upd_buffer_def Let_def)
  qed
  with q show ?thesis by (auto simp: deliver_def upd_buffer_def)
qed

definition hold :: "update \<Rightarrow> buffer_world \<Rightarrow> buffer_world" where
  "hold u w =
     upd_buffer (\<lambda>b. b\<lparr>pb_pending_update_body := Some u,
       pb_pending_update := Some (case pb_pending_update b of Some p \<Rightarrow> p | None \<Rightarrow> Due (bw_now w + pb_interval b))\<rparr>) w"

lemma buffer_do_cases:
  assumes "buffer_ok w" "buffer_enabled op w"
  obtains (deliver_new) u q where "op = Give u" "well_typed_update u"
      "pb_last_update_at (bw_buffer w) + pb_interval (bw_buffer w) \<le> bw_now w"
      "fst (buffer_do L op w) = deliver u q (w\<lparr>bw_given := bw_given w @ [(bw_now w, u)]\<rparr>)"
  | (wait_new) u where "op = Give u" "well_typed_update u"
      "bw_now w < pb_last_update_at (bw_buffer w) + pb_interval (bw_buffer w)"
      "fst (buffer_do L op w) = hold u (w\<lparr>bw_given := bw_given w @ [(bw_now w, u)]\<rparr>)"
  | (deliver_old) u q t where "op = Fire \<or> op = Flush" "op = Fire \<Longrightarrow> t \<le> bw_now w"
      "pb_pending_update (bw_buffer w) = Some (Due t)" "pb_pending_update_body (bw_buffer w) = Some u"
      "fst (buffer_do L op w) = deliver u q w"
  | (drop) "op = Cancel" "fst (buffer_do L op w) = upd_buffer clear_pending w"
  | (same) "fst (buffer_do L op w) = w"
proof (cases op)
  case (Give u)
  then have u: "well_typed_update u"
    using assms(2) by (cases u) (simp add: well_typed_update_def)
  let ?w = "w\<lparr>bw_given := bw_given w @ [(bw_now w, u)]\<rparr>"
  have ok: "buffer_ok ?w" using assms(1) by (simp add: buffer_ok_def split: option.splits timer.splits)
  show ?thesis
  proof (cases "pb_last_update_at (bw_buffer w) + pb_interval (bw_buffer w) \<le> bw_now w")
    case True
    then obtain q where "fst (buffer_set_progress L u ?w) = deliver u q ?w"
      using buffer_set_progress_now [OF ok u, of L] by (auto simp: algebra_simps)
    then show ?thesis using deliver_new [OF Give u True, of q] Give by simp
  next
    case False
    then have "fst (buffer_set_progress L u ?w) = hold u ?w"
      using assms(1) by (auto simp: buffer_defs hold_def buffer_ok_def Let_def split: option.splits)
    then show ?thesis using wait_new Give u False by auto
  qed
next
  case Fire
  then obtain t where t: "pb_pending_update (bw_buffer w) = Some (Due t)" "t \<le> bw_now w"
    using assms(2) by (auto split: option.splits timer.splits)
  then obtain u where u: "pb_pending_update_body (bw_buffer w) = Some u" "well_typed_update u"
    using assms(1) by (auto simp: buffer_ok_def)
  then obtain q where "fst (buffer_do L op w) = deliver u q w"
    using fired_update_ok [of w u L] Fire by auto
  then show ?thesis using deliver_old [of t u q] t u Fire by simp
next
  case Cancel
  then show ?thesis
    using drop same by (cases "pb_pending_update (bw_buffer w)") (simp_all add: buffer_cancel_def)
next
  case Flush
  show ?thesis
  proof (cases "pb_pending_update (bw_buffer w)")
    case None
    then show ?thesis using Flush same by (simp add: buffer_flush_def)
  next
    case (Some x)
    then obtain t u where u: "x = Due t" "pb_pending_update_body (bw_buffer w) = Some u" "well_typed_update u"
      using assms(1) by (cases x) (auto simp: buffer_ok_def)
    then obtain q where "fst (buffer_do L op w) = deliver u q w"
      using fired_update_ok [of w u L] Flush Some by (auto simp: buffer_flush_def)
    then show ?thesis using deliver_old [of t u q] Some u Flush by simp
  qed
qed

lemmas buffer_shapes = deliver_def hold_def upd_buffer_def clear_pending_def

lemma successively_snoc:
  "successively P (xs @ [x]) \<longleftrightarrow> successively P xs \<and> (xs \<noteq> [] \<longrightarrow> P (last xs) x)"
  by (auto simp: successively_append_iff)

lemma buffer_ok_step:
  assumes "buffer_ok w" "buffer_enabled op w"
  shows "buffer_ok (fst (buffer_do L op w))"
  using assms
proof (cases rule: buffer_do_cases [where L = L])
  case (wait_new u)
  then show ?thesis
    using assms(1) by (auto simp: buffer_ok_def buffer_shapes split: option.splits timer.splits)
qed (use assms(1) in \<open>auto simp: buffer_ok_def buffer_shapes\<close>)

lemma buffer_spaced_step:
  assumes "buffer_ok w" "buffer_spaced w" "buffer_enabled op w" "op \<noteq> Flush"
  shows "buffer_spaced (fst (buffer_do L op w))"
  using assms(1,3)
proof (cases rule: buffer_do_cases [where L = L])
  case (wait_new u)
  then show ?thesis
    using assms(1,2) by (auto simp: buffer_ok_def buffer_spaced_def buffer_shapes split: option.splits)
next
  case (deliver_old u q t)
  then have "pb_last_update_at (bw_buffer w) + pb_interval (bw_buffer w) \<le> bw_now w"
    using assms(2,4) by (auto simp: buffer_spaced_def)
  with deliver_old show ?thesis
    using assms(1,2) by (auto simp: buffer_ok_def buffer_spaced_def buffer_shapes successively_snoc)
qed (use assms(1,2) in \<open>auto simp: buffer_ok_def buffer_spaced_def buffer_shapes successively_snoc\<close>)

lemma buffer_latest_step:
  assumes "buffer_ok w" "buffer_latest w" "buffer_enabled op w" "op \<noteq> Cancel"
    and "bw_given w \<noteq> [] \<longrightarrow> fst (last (bw_given w)) \<le> bw_now w"
  shows "buffer_latest (fst (buffer_do L op w))"
  using assms(1,3)
proof (cases rule: buffer_do_cases [where L = L])
  case (wait_new u)
  then show ?thesis
    using assms(1,2,5)
    by (auto simp: buffer_ok_def buffer_latest_def buffer_shapes split: option.splits timer.splits if_splits)
next
  case (deliver_old u q t)
  then show ?thesis
    using assms(2) by (auto simp: buffer_latest_def buffer_shapes split: if_splits)
qed (use assms(2,4) in \<open>auto simp: buffer_latest_def buffer_shapes\<close>)

text \<open>The two systems: the buffer without \<open>flush\<close>, and the buffer without \<open>cancel\<close>.\<close>

definition buffer_clock :: "buffer_world \<Rightarrow> bool" where
  "buffer_clock w \<longleftrightarrow> (bw_given w \<noteq> [] \<longrightarrow> fst (last (bw_given w)) \<le> bw_now w)"

lemma buffer_clock_step:
  assumes "buffer_ok w" "buffer_clock w" "buffer_enabled op w"
  shows "buffer_clock (fst (buffer_do L op w))"
  using assms(1,3) by (cases rule: buffer_do_cases [where L = L]) (use assms(2) in \<open>auto simp: buffer_clock_def buffer_shapes\<close>)

lemma later_buffer:
  assumes "bw_now w \<le> t"
  shows "buffer_ok w \<Longrightarrow> buffer_ok (w\<lparr>bw_now := t\<rparr>)" "buffer_spaced w \<Longrightarrow> buffer_spaced (w\<lparr>bw_now := t\<rparr>)"
    "buffer_latest w \<Longrightarrow> buffer_latest (w\<lparr>bw_now := t\<rparr>)" "buffer_clock w \<Longrightarrow> buffer_clock (w\<lparr>bw_now := t\<rparr>)"
  using assms by (auto simp: buffer_ok_def buffer_spaced_def buffer_latest_def buffer_clock_def split: option.splits timer.splits)

interpretation pb_spaced: step_system "buffer_start interval" "buffer_step {Flush} L" "\<lambda>w. buffer_ok w \<and> buffer_spaced w" for interval L
proof
  show "buffer_ok w \<and> buffer_spaced w" if "buffer_start interval w" for w
    using that by (auto simp: buffer_start_def buffer_ok_def buffer_spaced_def JobProgressBuffer_def)
  show "buffer_ok w' \<and> buffer_spaced w'" if "buffer_ok w \<and> buffer_spaced w" "buffer_step {Flush} L w w'" for w w'
    using that later_buffer [of w] buffer_ok_step buffer_spaced_step unfolding buffer_step_def by blast
qed

interpretation pb_latest: step_system "buffer_start interval" "buffer_step {Cancel} L"
  "\<lambda>w. buffer_ok w \<and> buffer_latest w \<and> buffer_clock w" for interval L
proof
  show "buffer_ok w \<and> buffer_latest w \<and> buffer_clock w" if "buffer_start interval w" for w
    using that by (auto simp: buffer_start_def buffer_ok_def buffer_latest_def buffer_clock_def JobProgressBuffer_def)
  show "buffer_ok w' \<and> buffer_latest w' \<and> buffer_clock w'"
    if "buffer_ok w \<and> buffer_latest w \<and> buffer_clock w" "buffer_step {Cancel} L w w'" for w w'
    using that later_buffer [of w] buffer_ok_step buffer_latest_step buffer_clock_step
    unfolding buffer_step_def buffer_clock_def by blast
qed

section \<open>Properties\<close>

text \<open>A run of the buffer: an update at the time 5 passes, one half a second later waits, and the timer runs at 7.\<close>

definition sample_buffer :: buffer_world where
  "sample_buffer =
     \<lparr>bw_now = 5, bw_buffer = JobProgressBuffer 0 1, bw_queue = sample_two, bw_given = [], bw_sent = []\<rparr>"

definition sample_buffer1 :: buffer_world where
  "sample_buffer1 = fst (buffer_do sample_jlib (Give (PInt 10, PNone, PNone)) (sample_buffer\<lparr>bw_now := 5\<rparr>))"

definition sample_buffer2 :: buffer_world where
  "sample_buffer2 = fst (buffer_do sample_jlib (Give (PInt 20, PNone, PNone)) (sample_buffer1\<lparr>bw_now := 11/2\<rparr>))"

definition sample_buffer3 :: buffer_world where
  "sample_buffer3 = fst (buffer_do sample_jlib Fire (sample_buffer2\<lparr>bw_now := 7\<rparr>))"

lemmas sample_buffer_eval = JobProgressBuffer_def buffer_defs job_set_progress_def set_progress_def Let_def

lemma sample_buffer1_facts:
  "bw_now sample_buffer1 = 5" "bw_sent sample_buffer1 = [(5, PInt 10, PNone, PNone)]" "bw_given sample_buffer1 = [(5, PInt 10, PNone, PNone)]"
  "bw_buffer sample_buffer1 = (JobProgressBuffer 0 1)\<lparr>pb_last_update_at := 5\<rparr>"
  by (simp_all add: sample_buffer1_def sample_buffer_def sample_buffer_eval)

lemma sample_buffer2_facts:
  "bw_now sample_buffer2 = 11/2" "bw_sent sample_buffer2 = [(5, PInt 10, PNone, PNone)]"
  "bw_given sample_buffer2 = [(5, PInt 10, PNone, PNone), (11/2, PInt 20, PNone, PNone)]"
  "bw_buffer sample_buffer2 = (JobProgressBuffer 0 1)\<lparr>pb_last_update_at := 5,
     pb_pending_update_body := Some (PInt 20, PNone, PNone), pb_pending_update := Some (Due (13/2))\<rparr>"
  by (simp_all add: sample_buffer2_def sample_buffer1_facts sample_buffer_eval)

lemma sample_buffer3_facts:
  "bw_sent sample_buffer3 = [(5, PInt 10, PNone, PNone), (7, PInt 20, PNone, PNone)]"
  "pb_interval (bw_buffer sample_buffer3) = 1"
  by (simp_all add: sample_buffer3_def sample_buffer2_facts sample_buffer_eval)

lemma sample_buffer_start: "buffer_start 1 sample_buffer"
  by (auto simp: buffer_start_def sample_buffer_def)

lemma buffer_stepI:
  "op \<notin> S \<Longrightarrow> bw_now w \<le> t \<Longrightarrow> buffer_enabled op (w\<lparr>bw_now := t\<rparr>) \<Longrightarrow>
   buffer_step S L w (fst (buffer_do L op (w\<lparr>bw_now := t\<rparr>)))"
  by (auto simp: buffer_step_def)

lemma sample_buffer_steps:
  "rtranclp (buffer_step {Flush} sample_jlib) sample_buffer sample_buffer2"
  "rtranclp (buffer_step {Cancel} sample_jlib) sample_buffer sample_buffer2"
  "buffer_step {Flush} sample_jlib sample_buffer2 sample_buffer3"
proof -
  have "rtranclp (buffer_step {x} sample_jlib) sample_buffer sample_buffer2" if "x = Flush \<or> x = Cancel" for x
  proof (rule converse_rtranclp_into_rtranclp [OF _ r_into_rtranclp])
    show "buffer_step {x} sample_jlib sample_buffer sample_buffer1"
      unfolding sample_buffer1_def using that by (intro buffer_stepI) (auto simp: sample_buffer_def)
    show "buffer_step {x} sample_jlib sample_buffer1 sample_buffer2"
      unfolding sample_buffer2_def using that by (intro buffer_stepI) (auto simp: sample_buffer1_facts)
  qed
  then show "rtranclp (buffer_step {Flush} sample_jlib) sample_buffer sample_buffer2"
    "rtranclp (buffer_step {Cancel} sample_jlib) sample_buffer sample_buffer2" by simp_all
  show "buffer_step {Flush} sample_jlib sample_buffer2 sample_buffer3"
    unfolding sample_buffer3_def by (rule buffer_stepI) (simp_all add: sample_buffer2_facts)
qed

text \<open>
  (C35) The buffer does what it is there for: as long as nobody flushes it, the updates that reach the job
  (and the clients) are at least an interval apart, whatever the times at which they are given and however
  late the timers run.
\<close>

theorem progress_updates_spaced:
  assumes "buffer_start interval w" "rtranclp (buffer_step {Flush} L) w w'"
  shows "successively (\<lambda>a b. fst a + pb_interval (bw_buffer w') \<le> fst b) (bw_sent w')"
  using pb_spaced.good_reach [OF assms] by (simp add: buffer_spaced_def)

theorem progress_updates_spaced_witness:
  "map fst (bw_sent sample_buffer3) = [5, 7] \<and>
   successively (\<lambda>a b. fst a + pb_interval (bw_buffer sample_buffer3) \<le> fst b) (bw_sent sample_buffer3)"
  using progress_updates_spaced [OF sample_buffer_start rtranclp.rtrancl_into_rtrancl [OF sample_buffer_steps(1,3)]]
  by (simp add: sample_buffer3_facts)

text \<open>
  (C36) No newest update is lost: unless the buffer is cancelled, the update given last has either reached
  the job as its last one, or it waits for a timer that is due within an interval of the time it was given.
\<close>

theorem progress_newest_update_kept:
  assumes "buffer_start interval w" "rtranclp (buffer_step {Cancel} L) w w'" "bw_given w' \<noteq> []"
  shows "(bw_sent w' \<noteq> [] \<and> snd (last (bw_sent w')) = snd (last (bw_given w'))) \<or>
    (\<exists>t. pb_pending_update (bw_buffer w') = Some (Due t) \<and>
      pb_pending_update_body (bw_buffer w') = Some (snd (last (bw_given w'))) \<and>
      t \<le> fst (last (bw_given w')) + pb_interval (bw_buffer w'))"
  using pb_latest.good_reach [OF assms(1,2)] assms(3)
  by (auto simp: buffer_latest_def buffer_ok_def split: option.splits timer.splits)

theorem progress_newest_update_kept_witness:
  "\<exists>t. pb_pending_update (bw_buffer sample_buffer2) = Some (Due t) \<and>
     pb_pending_update_body (bw_buffer sample_buffer2) = Some (PInt 20, PNone, PNone) \<and> t \<le> 13/2"
  using progress_newest_update_kept [OF sample_buffer_start sample_buffer_steps(2)]
  by (simp add: sample_buffer2_facts JobProgressBuffer_def)

end
