(* ===== verification/Semaphore.thy ===== *)
theory Semaphore
  imports Steps
begin

text \<open>
  \<open>SoftHardSemaphore\<close> of \<open>utils/lock.py\<close>, the limit on the concurrent calls of a connection: at most
  \<open>softlimit\<close> calls run at once, others wait, and at most \<open>hardlimit\<close> are let in at all.

  The calls are numbered. \<open>asyncio.Semaphore\<close> is its counter and the queue of its waiters: \<open>acquire\<close> takes
  one when the counter is positive and nobody waits, otherwise it joins the queue; \<open>release\<close> hands the
  one it gives back to the first waiter.
\<close>

record semaphore =
  sh_softlimit :: nat
  sh_hardlimit :: nat
  sh_value :: nat
  sh_counter :: nat
  sh_waiters :: "nat list"
  sh_running :: "nat list"

definition SoftHardSemaphore :: "nat \<Rightarrow> nat \<Rightarrow> semaphore" where
  "SoftHardSemaphore soft hard =
     \<lparr>sh_softlimit = soft, sh_hardlimit = hard, sh_value = soft, sh_counter = 0, sh_waiters = [], sh_running = []\<rparr>"

definition sem_acquire :: "nat \<Rightarrow> semaphore \<Rightarrow> semaphore" where
  "sem_acquire i s =
     (if sh_value s > 0 \<and> sh_waiters s = []
      then s\<lparr>sh_value := sh_value s - 1, sh_running := sh_running s @ [i]\<rparr>
      else s\<lparr>sh_waiters := sh_waiters s @ [i]\<rparr>)"

definition sem_release :: "nat \<Rightarrow> semaphore \<Rightarrow> semaphore" where
  "sem_release i s =
     (let s1 = s\<lparr>sh_running := remove1 i (sh_running s)\<rparr>
      in case sh_waiters s1 of
           [] \<Rightarrow> s1\<lparr>sh_value := sh_value s1 + 1\<rparr>
         | w # ws \<Rightarrow> s1\<lparr>sh_waiters := ws, sh_running := sh_running s1 @ [w]\<rparr>)"

text \<open>\<open>__aenter__\<close> up to the point where the call runs or waits, and \<open>__aexit__\<close>.\<close>

definition aenter :: "nat \<Rightarrow> semaphore \<Rightarrow> semaphore option" where
  "aenter i s =
     (if sh_counter s \<ge> sh_hardlimit s then None
      else Some (sem_acquire i (s\<lparr>sh_counter := sh_counter s + 1\<rparr>)))"

definition aexit :: "nat \<Rightarrow> semaphore \<Rightarrow> semaphore" where
  "aexit i s = sem_release i (s\<lparr>sh_counter := sh_counter s - 1\<rparr>)"

text \<open>
  The invariant: the calls are counted exactly and within the hard limit, no more than \<open>softlimit\<close> run, and
  none waits while fewer than that run.
\<close>

definition sem_ok :: "semaphore \<Rightarrow> bool" where
  "sem_ok s \<longleftrightarrow>
     sh_counter s = length (sh_running s) + length (sh_waiters s) \<and> sh_counter s \<le> sh_hardlimit s \<and>
     length (sh_running s) + sh_value s = sh_softlimit s \<and> (sh_waiters s \<noteq> [] \<longrightarrow> sh_value s = 0) \<and>
     distinct (sh_running s @ sh_waiters s)"

lemma sem_ok_init: "sem_ok (SoftHardSemaphore soft hard)"
  by (simp add: sem_ok_def SoftHardSemaphore_def)

lemma sem_ok_aenter:
  assumes "sem_ok s" "i \<notin> set (sh_running s @ sh_waiters s)" "aenter i s = Some t"
  shows "sem_ok t"
  using assms by (auto simp: sem_ok_def aenter_def sem_acquire_def split: if_splits)

lemma sem_ok_aexit:
  assumes "sem_ok s" "i \<in> set (sh_running s)"
  shows "sem_ok (aexit i s)"
proof -
  obtain n where "length (sh_running s) = Suc n" "length (remove1 i (sh_running s)) = n"
    using assms(2) length_remove1 [of i "sh_running s"] by (cases "sh_running s") auto
  then show ?thesis
    using assms by (auto simp: sem_ok_def aexit_def sem_release_def Let_def dest: notin_set_remove1 split: list.splits)
qed

lemma aenter_limits: "aenter i s = Some t \<Longrightarrow> sh_softlimit t = sh_softlimit s \<and> sh_hardlimit t = sh_hardlimit s"
  by (auto simp: aenter_def sem_acquire_def split: if_splits)

lemma aexit_limits: "sh_softlimit (aexit i s) = sh_softlimit s" "sh_hardlimit (aexit i s) = sh_hardlimit s"
  by (simp_all add: aexit_def sem_release_def Let_def split: list.splits)

lemma aenter_members:
  "aenter i s = Some t \<Longrightarrow>
   set (sh_running t) \<union> set (sh_waiters t) = insert i (set (sh_running s) \<union> set (sh_waiters s))"
  by (auto simp: aenter_def sem_acquire_def split: if_splits)

lemma aexit_members:
  assumes "sem_ok s" "i \<in> set (sh_running s)"
  shows "set (sh_running (aexit i s)) \<union> set (sh_waiters (aexit i s)) = (set (sh_running s) \<union> set (sh_waiters s)) - {i}"
  using assms by (auto simp: sem_ok_def aexit_def sem_release_def Let_def split: list.splits)

inductive sem_step :: "semaphore \<Rightarrow> semaphore \<Rightarrow> bool" where
  enter: "i \<notin> set (sh_running s @ sh_waiters s) \<Longrightarrow> aenter i s = Some t \<Longrightarrow> sem_step s t"
| leave: "i \<in> set (sh_running s) \<Longrightarrow> sem_step s (aexit i s)"

interpretation sem: step_system "\<lambda>s. s = SoftHardSemaphore soft hard" sem_step
    "\<lambda>s. sem_ok s \<and> sh_softlimit s = soft \<and> sh_hardlimit s = hard" for soft hard
proof
  show "sem_ok s \<and> sh_softlimit s = soft \<and> sh_hardlimit s = hard" if "s = SoftHardSemaphore soft hard" for s
    using that sem_ok_init by (simp add: SoftHardSemaphore_def)
  show "sem_ok t \<and> sh_softlimit t = soft \<and> sh_hardlimit t = hard"
    if "sem_ok s \<and> sh_softlimit s = soft \<and> sh_hardlimit s = hard" "sem_step s t" for s t
    using that(2,1) by cases (auto simp: aexit_limits dest: aenter_limits intro: sem_ok_aenter sem_ok_aexit)
qed

text \<open>
  (C34) The semaphore keeps its limits through any sequence of entering and leaving calls: no more than
  \<open>softlimit\<close> calls run, no more than \<open>hardlimit\<close> are in, a call is turned away exactly when \<open>hardlimit\<close> are in,
  and no call waits while there is room to run.
\<close>

theorem semaphore_limits:
  assumes "rtranclp sem_step (SoftHardSemaphore soft hard) s"
  shows "length (sh_running s) \<le> soft \<and> length (sh_running s) + length (sh_waiters s) \<le> hard \<and>
    (aenter i s = None \<longleftrightarrow> length (sh_running s) + length (sh_waiters s) = hard) \<and>
    (length (sh_running s) < soft \<longrightarrow> sh_waiters s = [])"
  using sem.good_reach [OF refl assms] by (auto simp: sem_ok_def aenter_def)

theorem semaphore_limits_witness:
  "aenter 2 (sem_acquire 1 ((sem_acquire 0 ((SoftHardSemaphore 1 2)\<lparr>sh_counter := 1\<rparr>))\<lparr>sh_counter := 2\<rparr>)) = None"
proof -
  let ?s = "sem_acquire 0 ((SoftHardSemaphore 1 2)\<lparr>sh_counter := 1\<rparr>)"
  have "sem_step (SoftHardSemaphore 1 2) ?s" "sem_step ?s (sem_acquire 1 (?s\<lparr>sh_counter := 2\<rparr>))"
    by (rule sem_step.enter [of 0] sem_step.enter [of 1]; simp add: SoftHardSemaphore_def sem_acquire_def aenter_def)+
  then have "rtranclp sem_step (SoftHardSemaphore 1 2) (sem_acquire 1 (?s\<lparr>sh_counter := 2\<rparr>))" by simp
  then show ?thesis
    using semaphore_limits [of 1 2 "sem_acquire 1 (?s\<lparr>sh_counter := 2\<rparr>)" 2] by (simp add: SoftHardSemaphore_def sem_acquire_def)
qed

end
