(* ===== verification/Server.thy ===== *)
theory Server
  imports Jobs Semaphore
begin

text \<open>
  The websocket side of \<open>main.py\<close> that other components call: the state of the server and of its
  connections, the events (\<open>event.py\<close> and the event methods of \<open>Middleware\<close>), and the subscriptions of a
  connection.

  \<^item> An \<open>Application\<close> is a record found by its session id. \<open>app_sent\<close> collects the messages that \<open>_send\<close> hands
    to the connection; \<open>app_tasks\<close> are the calls that the connection has started and that are not over.
  \<^item> A server is the record of what the connections share: the clock, the registered connections, the
    registered events and their subscribers, and the tokens and sessions of \<open>plugins/auth.py\<close>.
  \<^item> \<open>sv_used_ids\<close> are the session ids given so far; \<open>uuid4\<close> gives a new one to every connection.
  \<^item> Identifiers that clients choose are JSON values; one that cannot be hashed raises \<open>TypeError\<close> where the
    code uses it as a key of a dictionary.
  \<^item> A moment (\<open>time.monotonic\<close>, \<open>datetime\<close>) is a number of seconds.
\<close>

section \<open>State\<close>

record transport =
  tr_unix :: bool
  tr_peername :: "string \<times> int"
  tr_headers :: "(string \<times> string) list"

datatype callback = SessionOnMessage | SessionOnClose

record source_sub =
  es_name :: string
  es_arg :: "string option"
  es_cancel :: bool

text \<open>A call of \<open>call_method\<close>: its number, the message, and the method that was looked up.\<close>

record task =
  t_number :: nat
  t_message :: pydict
  t_method :: string

record app =
  app_transport :: transport
  app_authenticated :: bool
  app_handshake :: bool
  app_py_exceptions :: bool
  app_semaphore :: semaphore
  app_on_message :: "callback list"
  app_on_close :: "callback list"
  app_event_sources :: "(pyval \<times> source_sub) list"
  app_subscribed :: "(pyval \<times> string) list"
  app_sent :: "pydict list"
  app_tasks :: "task list"
  app_next_task :: nat

record token =
  tk_token :: string
  tk_ttl :: rat
  tk_attributes :: pydict
  tk_last_used_at :: rat

datatype credentials =
    UnixSocketSessionManagerCredentials
  | RootTcpSocketSessionManagerCredentials
  | LoginPasswordSessionManagerCredentials
  | ApiKeySessionManagerCredentials
  | TokenSessionManagerCredentials nat

record session =
  ss_origin :: string
  ss_credentials :: credentials
  ss_created_at :: rat

record server =
  sv_now :: rat
  sv_utcnow :: rat
  sv_apps :: "string \<Rightarrow> app"
  sv_used_ids :: "string list"
  sv_wsclients :: "string list"
  sv_events :: "(string \<times> string) list"
  sv_events_private :: "string list"
  sv_event_sources :: "(string \<times> string) list"
  sv_event_subs :: "(string \<times> string) list"
  sv_handled :: "(string \<times> string \<times> pydict) list"
  sv_tokens :: "(string \<times> nat) list"
  sv_token_objects :: "nat \<Rightarrow> token"
  sv_next_token :: nat
  sv_sessions :: "(string \<times> session) list"

definition upd_app :: "string \<Rightarrow> (app \<Rightarrow> app) \<Rightarrow> server \<Rightarrow> server" where
  "upd_app sid f s = s\<lparr>sv_apps := (sv_apps s)(sid := f (sv_apps s sid))\<rparr>"

definition Application_init :: "transport \<Rightarrow> app" where
  "Application_init tr =
     \<lparr>app_transport = tr, app_authenticated = False, app_handshake = False, app_py_exceptions = False,
      app_semaphore = SoftHardSemaphore 10 20, app_on_message = [], app_on_close = [],
      app_event_sources = [], app_subscribed = [], app_sent = [], app_tasks = [], app_next_task = 0\<rparr>"

definition send :: "pydict \<Rightarrow> app \<Rightarrow> app" where
  "send data a = a\<lparr>app_sent := app_sent a @ [data]\<rparr>"

definition register_wsclient :: "string \<Rightarrow> server \<Rightarrow> server" where
  "register_wsclient sid s = s\<lparr>sv_wsclients := (if sid \<in> set (sv_wsclients s) then sv_wsclients s else sv_wsclients s @ [sid])\<rparr>"

definition unregister_wsclient :: "string \<Rightarrow> server \<Rightarrow> server res" where
  "unregister_wsclient sid s =
     (if sid \<in> set (sv_wsclients s) then Inr (s\<lparr>sv_wsclients := removeAll sid (sv_wsclients s)\<rparr>)
      else Inl (KeyError [Rep (PStr sid)]))"

text \<open>\<open>register_callback\<close>: the list of the callbacks for a message or for the end of a connection.\<close>

definition register_callback :: "string \<Rightarrow> callback \<Rightarrow> app \<Rightarrow> app res" where
  "register_callback name f a =
     (if name = ''on_message'' then Inr (a\<lparr>app_on_message := app_on_message a @ [f]\<rparr>)
      else if name = ''on_close'' then Inr (a\<lparr>app_on_close := app_on_close a @ [f]\<rparr>)
      else Inl AssertionError)"

section \<open>Events\<close>

definition Events_register :: "string \<Rightarrow> string \<Rightarrow> bool \<Rightarrow> server \<Rightarrow> server res" where
  "Events_register name description priv s =
     (if name \<in> set (map fst (sv_events s))
      then Inl (ValueError [Txt ''Event '', Rep (PStr name), Txt '' already registered.''])
      else Inr (s\<lparr>sv_events := sv_events s @ [(name, description)],
                  sv_events_private := (if priv then sv_events_private s @ [name] else sv_events_private s)\<rparr>))"

text \<open>\<open>get_events\<close>: the registered events, then the event sources with their documentation.\<close>

definition get_events :: "server \<Rightarrow> (string \<times> pydict) list" where
  "get_events s =
     map (\<lambda>(k, v). (k, [(''description'', PStr v), (''private'', PBool (k \<in> set (sv_events_private s))),
        (''wildcard_subscription'', PBool True)])) (sv_events s) @
     map (\<lambda>(k, d). (k, [(''description'', PStr d), (''private'', PBool False),
        (''wildcard_subscription'', PBool False)])) (sv_event_sources s)"

definition event_subscribe :: "string \<Rightarrow> string \<Rightarrow> server \<Rightarrow> server" where
  "event_subscribe name handler s = s\<lparr>sv_event_subs := sv_event_subs s @ [(name, handler)]\<rparr>"

text \<open>
  \<open>Application.send_event\<close>. \<open>move_key\<close> is \<open>if key in kwargs: event[key] = kwargs.pop(key)\<close>.
\<close>

definition move_key :: "string \<Rightarrow> pydict \<times> pydict \<Rightarrow> pydict \<times> pydict" where
  "move_key key ek =
     (case map_of (snd ek) key of
        None \<Rightarrow> ek
      | Some v \<Rightarrow> (AList.update key v (fst ek), AList.delete key (snd ek)))"

definition event_message :: "string \<Rightarrow> string \<Rightarrow> pydict \<Rightarrow> pydict" where
  "event_message name etype kwargs =
     (let ek0 = ([(''msg'', PStr (py_lower etype)), (''collection'', PStr name)], kwargs);
          ek1 = move_key ''id'' ek0;
          ek2 = (if etype = ''ADDED'' \<or> etype = ''CHANGED'' then move_key ''fields'' ek1 else ek1);
          ek3 = (if etype = ''CHANGED'' then move_key ''cleared'' ek2 else ek2)
      in if snd ek3 \<noteq> [] then AList.update ''extra'' (PDict (snd ek3)) (fst ek3) else fst ek3)"

definition wants_event :: "string \<Rightarrow> app \<Rightarrow> bool" where
  "wants_event name a \<longleftrightarrow>
     list_ex (\<lambda>(i, n). n = name \<or> n = ''*'') (app_subscribed a) \<or>
     list_ex (\<lambda>(i, e). es_name e = name) (app_event_sources a)"

definition app_send_event :: "string \<Rightarrow> string \<Rightarrow> pydict \<Rightarrow> app \<Rightarrow> app" where
  "app_send_event name etype kwargs a =
     (if wants_event name a then send (event_message name etype kwargs) a else a)"

text \<open>
  \<open>Middleware.send_event\<close>: every registered connection, then the handlers of plugins, which the event
  loop runs later. An event that is not registered is sent all the same.
\<close>

definition send_event :: "string \<Rightarrow> string \<Rightarrow> pydict \<Rightarrow> server \<Rightarrow> server res" where
  "send_event name etype kwargs s =
     (if etype \<notin> {''ADDED'', ''CHANGED'', ''REMOVED''} then Inl AssertionError
      else let s1 = fold (\<lambda>sid. upd_app sid (app_send_event name etype kwargs)) (sv_wsclients s) s
           in Inr (s1\<lparr>sv_handled := sv_handled s1 @
                map (\<lambda>(n, h). (h, etype, kwargs)) (filter (\<lambda>(n, h). n = name) (sv_event_subs s1))\<rparr>))"

section \<open>Subscriptions\<close>

text \<open>
  \<open>subscribe\<close>: the name of an event source may carry an argument after a colon; a source can be subscribed
  to once under a name. The thread that runs the source is not part of the model, its end is \<open>source_done\<close>.
\<close>

definition source_name :: "string \<Rightarrow> string \<times> string option" where
  "source_name name =
     (case str_partition (CHR '':'') name of (short, found, arg) \<Rightarrow> (short, if found then Some arg else None))"

definition subscribe :: "(string \<times> string) list \<Rightarrow> pyval \<Rightarrow> pyval \<Rightarrow> app \<Rightarrow> app res" where
  "subscribe sources ident name a =
     (case name of
        PStr nm \<Rightarrow>
          (case source_name nm of
             (short, arg) \<Rightarrow>
               if map_of sources short \<noteq> None then
                 (if list_ex (\<lambda>(i, e). es_name e = nm) (app_event_sources a)
                  then Inr (send [(''msg'', PStr ''nosub''), (''id'', ident),
                         (''error'', PDict [(''error'', PStr ''Already subscribed'')])] a)
                  else if \<not> hashable ident then Inl TypeError
                  else Inr (send [(''msg'', PStr ''ready''), (''subs'', PList [ident])]
                         (a\<lparr>app_event_sources := AList.update ident \<lparr>es_name = nm, es_arg = arg, es_cancel = False\<rparr>
                              (app_event_sources a)\<rparr>)))
               else if \<not> hashable ident then Inl TypeError
               else Inr (send [(''msg'', PStr ''ready''), (''subs'', PList [ident])]
                      (a\<lparr>app_subscribed := AList.update ident nm (app_subscribed a)\<rparr>)))
      | PList xs \<Rightarrow> Inl (if PStr '':'' \<in> set xs then AttributeError else TypeError)
      | PDict d \<Rightarrow> Inl (if '':'' \<in> set (map fst d) then AttributeError else TypeError)
      | _ \<Rightarrow> Inl TypeError)"

text \<open>
  \<open>unsubscribe\<close> up to its \<open>await\<close>, which waits for \<open>cancel\<close> to run in a thread, and from there on: \<open>Some\<close> says
  that the second part is still to come. The pop raises \<open>KeyError\<close> when the entry has gone meanwhile.
\<close>

definition cancel_source :: "source_sub \<Rightarrow> source_sub" where
  "cancel_source e = e\<lparr>es_cancel := True\<rparr>"

definition unsubscribe_start :: "pyval \<Rightarrow> app \<Rightarrow> (app \<times> bool) res" where
  "unsubscribe_start ident a =
     (if \<not> hashable ident then Inl TypeError
      else if map_of (app_subscribed a) ident \<noteq> None
      then Inr (a\<lparr>app_subscribed := AList.delete ident (app_subscribed a)\<rparr>, False)
      else case map_of (app_event_sources a) ident of
             None \<Rightarrow> Inr (a, False)
           | Some e \<Rightarrow> Inr (a\<lparr>app_event_sources := AList.update ident (cancel_source e) (app_event_sources a)\<rparr>, True))"

definition unsubscribe_end :: "pyval \<Rightarrow> app \<Rightarrow> app res" where
  "unsubscribe_end ident a =
     (case map_of (app_event_sources a) ident of
        None \<Rightarrow> Inl (KeyError [Rep ident])
      | Some _ \<Rightarrow> Inr (a\<lparr>app_event_sources := AList.delete ident (app_event_sources a)\<rparr>))"

text \<open>\<open>unsubscribe\<close> with nothing in between.\<close>

definition unsubscribe :: "pyval \<Rightarrow> app \<Rightarrow> app res" where
  "unsubscribe ident a =
     rbind (unsubscribe_start ident a) (\<lambda>(a1, waits). if waits then unsubscribe_end ident a1 else Inr a1)"

text \<open>
  \<open>EventSource.process\<close>: the source runs, exceptions of \<open>run\<close> and \<open>on_finish\<close> are logged, and in every case
  the connection unsubscribes from it.
\<close>

definition EventSource_process :: "(app \<Rightarrow> app \<times> exn option) \<Rightarrow> (app \<Rightarrow> app \<times> exn option) \<Rightarrow> pyval \<Rightarrow> app \<Rightarrow> app res" where
  "EventSource_process run_source on_finish ident a = unsubscribe ident (fst (on_finish (fst (run_source a))))"

end
