(* ===== verification/Auth.thy ===== *)
theory Auth
  imports Server
begin

text \<open>
  Authentication, \<open>plugins/auth.py\<close> with \<open>authenticate\<close> of \<open>plugins/api_key.py\<close>: tokens, sessions, the methods
  of \<open>AuthService\<close> and \<open>TwoFactorAuthService\<close>, and the hook that lets local root processes in.

  \<^item> \<open>Token\<close> objects have identity (a session keeps the object it was opened with), so they live in a store
    of the server and the dictionary \<open>tokens\<close> holds their numbers. The dictionary is keyed by the text of the
    token; \<open>KeyObject\<close> is a lookup with a \<open>Token\<close> object, which is equal to no text.
  \<^item> Parameters: \<open>crypt(3)\<close>, \<open>pyotp\<close>, \<open>passlib\<close>, the rows of the tables of users and of API keys, the
    configuration of WebAuthn, the random texts, and what \<open>sockstat\<close> prints.
\<close>

section \<open>Tokens\<close>

definition token_is_valid :: "nat \<Rightarrow> server \<Rightarrow> bool" where
  "token_is_valid r s \<longleftrightarrow> sv_now s < tk_last_used_at (sv_token_objects s r) + tk_ttl (sv_token_objects s r)"

definition token_notify_used :: "nat \<Rightarrow> server \<Rightarrow> server" where
  "token_notify_used r s =
     s\<lparr>sv_token_objects := (sv_token_objects s)(r := (sv_token_objects s r)\<lparr>tk_last_used_at := sv_now s\<rparr>)\<rparr>"

definition token_prune :: "server \<Rightarrow> server" where
  "token_prune s =
     s\<lparr>sv_tokens := fold (\<lambda>r. AList.delete (tk_token (sv_token_objects s r)))
         (filter (\<lambda>r. \<not> token_is_valid r s) (map snd (sv_tokens s))) (sv_tokens s)\<rparr>"

text \<open>\<open>create\<close> and the object it returns; \<open>text\<close> is the random text.\<close>

definition token_create :: "string \<Rightarrow> rat \<Rightarrow> pydict option \<Rightarrow> server \<Rightarrow> server \<times> nat" where
  "token_create txt ttl attributes s =
     (let s1 = token_prune s;
          r = sv_next_token s1;
          t = \<lparr>tk_token = txt, tk_ttl = ttl, tk_attributes = (case attributes of None \<Rightarrow> [] | Some d \<Rightarrow> d),
               tk_last_used_at = sv_now s1\<rparr>
      in (s1\<lparr>sv_token_objects := (sv_token_objects s1)(r := t), sv_next_token := r + 1,
             sv_tokens := AList.update txt r (sv_tokens s1)\<rparr>, r))"

definition token_get :: "string \<Rightarrow> server \<Rightarrow> server \<times> nat option" where
  "token_get txt s =
     (case map_of (sv_tokens s) txt of
        None \<Rightarrow> (s, None)
      | Some r \<Rightarrow>
          if \<not> token_is_valid r s
          then (s\<lparr>sv_tokens := AList.delete (tk_token (sv_token_objects s r)) (sv_tokens s)\<rparr>, None)
          else (s, Some r))"

datatype token_key = KeyText string | KeyObject nat

definition token_destroy :: "token_key \<Rightarrow> server \<Rightarrow> server" where
  "token_destroy k s =
     (case k of KeyText txt \<Rightarrow> s\<lparr>sv_tokens := AList.delete txt (sv_tokens s)\<rparr> | KeyObject _ \<Rightarrow> s)"

section \<open>Credentials\<close>

fun credentials_valid :: "credentials \<Rightarrow> server \<Rightarrow> bool" where
  "credentials_valid (TokenSessionManagerCredentials r) s = token_is_valid r s"
| "credentials_valid _ s = True"

fun credentials_notify_used :: "credentials \<Rightarrow> server \<Rightarrow> server" where
  "credentials_notify_used (TokenSessionManagerCredentials r) s = token_notify_used r s"
| "credentials_notify_used _ s = s"

fun credentials_logout :: "credentials \<Rightarrow> server \<Rightarrow> server" where
  "credentials_logout (TokenSessionManagerCredentials r) s = token_destroy (KeyObject r) s"
| "credentials_logout _ s = s"

fun credentials_class :: "credentials \<Rightarrow> string" where
  "credentials_class UnixSocketSessionManagerCredentials = ''UnixSocketSessionManagerCredentials''"
| "credentials_class RootTcpSocketSessionManagerCredentials = ''RootTcpSocketSessionManagerCredentials''"
| "credentials_class LoginPasswordSessionManagerCredentials = ''LoginPasswordSessionManagerCredentials''"
| "credentials_class ApiKeySessionManagerCredentials = ''ApiKeySessionManagerCredentials''"
| "credentials_class (TokenSessionManagerCredentials _) = ''TokenSessionManagerCredentials''"

section \<open>Sessions\<close>

text \<open>
  The name of the credentials that clients see: \<open>str.replace\<close> of a text that is not empty, an underscore
  before every capital letter, and upper case.
\<close>

function py_replace :: "string \<Rightarrow> string \<Rightarrow> string \<Rightarrow> string" where
  "py_replace old new [] = []"
| "py_replace old new (c # s) =
     (if old \<noteq> [] \<and> py_startswith (c # s) old then new @ py_replace old new (drop (length old) (c # s))
      else c # py_replace old new s)"
  by pat_completeness auto
termination
  by (relation "measure (\<lambda>(old, new, s). length s)") auto

definition char_upper :: "char \<Rightarrow> char" where
  "char_upper c = (if 97 \<le> (of_char c :: nat) \<and> (of_char c :: nat) \<le> 122
                   then char_of ((of_char c :: nat) - 32) else c)"

definition is_capital :: "char \<Rightarrow> bool" where
  "is_capital c \<longleftrightarrow> 65 \<le> (of_char c :: nat) \<and> (of_char c :: nat) \<le> 90"

definition credentials_name :: "credentials \<Rightarrow> string" where
  "credentials_name c =
     map char_upper (dropWhile (\<lambda>x. x = CHR ''_'')
       (concat (map (\<lambda>x. if is_capital x then [CHR ''_'', x] else [x])
         (py_replace ''SessionManagerCredentials'' [] (credentials_class c)))))"

definition session_dump :: "session \<Rightarrow> server \<Rightarrow> pydict" where
  "session_dump x s =
     [(''origin'', PStr (ss_origin x)),
      (''credentials'', PStr (credentials_name (ss_credentials x))),
      (''created_at'', PFloat (sv_utcnow s - (sv_now s - ss_created_at x)))]"

text \<open>
  Where a connection comes from. The server listens on an IPv4 address and on Unix sockets, so a peer name
  is a pair; the proxy on the same host passes the address of its client in two headers.
\<close>

definition origin_text :: "string \<Rightarrow> int \<Rightarrow> string" where
  "origin_text addr port =
     (if CHR '':'' \<in> set addr then ''['' @ addr @ '']:'' @ str_of_int port
      else addr @ '':'' @ str_of_int port)"

definition remote_address :: "transport \<Rightarrow> string \<times> int" where
  "remote_address tr =
     (case tr_peername tr of
        (addr, port) \<Rightarrow>
          if addr \<in> {''127.0.0.1'', ''::1''}
          then (case (map_of (tr_headers tr) ''X-Real-Remote-Addr'', map_of (tr_headers tr) ''X-Real-Remote-Port'') of
                  (Some a, Some p) \<Rightarrow> (case py_int p of Inr n \<Rightarrow> (a, n) | Inl _ \<Rightarrow> (addr, port))
                | _ \<Rightarrow> (addr, port))
          else (addr, port))"

definition get_origin :: "transport \<Rightarrow> string" where
  "get_origin tr =
     (if tr_unix tr then ''UNIX_SOCKET''
      else case remote_address tr of (addr, port) \<Rightarrow> origin_text addr port)"

definition origin_parts :: "string \<Rightarrow> (string \<times> int) res" where
  "origin_parts origin =
     (case rsplit1 (CHR '':'') origin of
        [host, port] \<Rightarrow> rbind (py_int port) (\<lambda>p. Inr (py_strip_chars ''[]'' host, p))
      | _ \<Rightarrow> Inl (ValueError [Txt ''not enough values to unpack (expected 2, got 1)'']))"

definition is_internal_session :: "session \<Rightarrow> bool res" where
  "is_internal_session x =
     (if ss_origin x = ''UNIX_SOCKET'' then Inr True
      else rbind (origin_parts (ss_origin x)) (\<lambda>(host, port).
        if host \<in> {''127.0.0.1'', ''::1''} then Inr True
        else if host \<in> {''169.254.10.1'', ''169.254.10.2'', ''169.254.10.20'', ''169.254.10.80''} \<and> port \<le> 1024
        then Inr True
        else Inr False))"

text \<open>\<open>SessionManager\<close>.\<close>

definition session_login :: "string \<Rightarrow> credentials \<Rightarrow> server \<Rightarrow> server res" where
  "session_login sid creds s =
     (if app_authenticated (sv_apps s sid)
      then (case map_of (sv_sessions s) sid of
              None \<Rightarrow> Inl (KeyError [Rep (PStr sid)])
            | Some x \<Rightarrow> Inr (s\<lparr>sv_sessions := AList.update sid (x\<lparr>ss_credentials := creds\<rparr>) (sv_sessions s)\<rparr>))
      else
        (let x = \<lparr>ss_origin = get_origin (app_transport (sv_apps s sid)), ss_credentials = creds, ss_created_at = sv_now s\<rparr>;
             s1 = s\<lparr>sv_sessions := AList.update sid x (sv_sessions s)\<rparr>;
             s2 = upd_app sid (\<lambda>a. a\<lparr>app_authenticated := True,
                    app_on_message := app_on_message a @ [SessionOnMessage], app_on_close := app_on_close a @ [SessionOnClose]\<rparr>) s1
         in rbind (is_internal_session x) (\<lambda>internal.
              if internal then Inr s2
              else send_event ''auth.sessions'' ''ADDED''
                     [(''fields'', PDict ((''id'', PStr sid) # session_dump x s2))] s2)))"

definition session_logout :: "string \<Rightarrow> server \<Rightarrow> server res" where
  "session_logout sid s =
     (case map_of (sv_sessions s) sid of
        None \<Rightarrow> Inr (upd_app sid (\<lambda>a. a\<lparr>app_authenticated := False\<rparr>) s)
      | Some x \<Rightarrow>
          (let s1 = credentials_logout (ss_credentials x) (s\<lparr>sv_sessions := AList.delete sid (sv_sessions s)\<rparr>)
           in rbind (is_internal_session x) (\<lambda>internal.
                rbind (if internal then Inr s1
                       else send_event ''auth.sessions'' ''REMOVED'' [(''fields'', PDict [(''id'', PStr sid)])] s1)
                  (\<lambda>s2. Inr (upd_app sid (\<lambda>a. a\<lparr>app_authenticated := False\<rparr>) s2)))))"

definition session_on_message :: "string \<Rightarrow> server \<Rightarrow> server res" where
  "session_on_message sid s =
     (case map_of (sv_sessions s) sid of
        None \<Rightarrow> Inr (upd_app sid (\<lambda>a. a\<lparr>app_authenticated := False\<rparr>) s)
      | Some x \<Rightarrow>
          if \<not> credentials_valid (ss_credentials x) s then session_logout sid s
          else Inr (credentials_notify_used (ss_credentials x) s))"

definition session_on_close :: "string \<Rightarrow> server \<Rightarrow> server res" where
  "session_on_close sid s = session_logout sid s"

section \<open>AuthService\<close>

record authlib =
  au_unixhash :: "string \<Rightarrow> string option"
  au_crypt :: "string \<Rightarrow> string \<Rightarrow> string res"
  au_twofactor :: pydict
  au_webauthn_enabled :: bool
  au_totp_verify :: "pyval \<Rightarrow> pyval \<Rightarrow> pyval \<Rightarrow> pyval \<Rightarrow> string option \<Rightarrow> bool res"
  au_api_keys :: "int \<Rightarrow> string option"
  au_pbkdf2_verify :: "string \<Rightarrow> string \<Rightarrow> bool"

definition sessions :: "regex \<Rightarrow> pyval list option \<Rightarrow> pydict option \<Rightarrow> server \<Rightarrow> pyval res" where
  "sessions re_match filters options s =
     rbind (mapM (\<lambda>(sid, x). rbind (is_internal_session x) (\<lambda>internal.
         Inr (PDict ([(''id'', PStr sid), (''internal'', PBool internal)] @ session_dump x s))))
         (sort_key (\<lambda>(sid, x). ss_created_at x) (sv_sessions s)))
       (\<lambda>rows. filter_list re_match rows filters options)"

definition check_password :: "authlib \<Rightarrow> string \<Rightarrow> string \<Rightarrow> bool res" where
  "check_password A username password =
     (case au_unixhash A username of
        None \<Rightarrow> Inr False
      | Some h \<Rightarrow>
          if h \<in> {''x'', ''*''} then Inr False
          else rbind (au_crypt A password h) (\<lambda>c. Inr (c = h)))"

definition check_user :: "authlib \<Rightarrow> string \<Rightarrow> string \<Rightarrow> bool res" where
  "check_user A username password = (if username \<noteq> ''root'' then Inr False else check_password A username password)"

definition generate_token :: "string \<Rightarrow> rat option \<Rightarrow> pydict option \<Rightarrow> server \<Rightarrow> server \<times> string" where
  "generate_token txt ttl attrs s =
     (case token_create txt (case ttl of None \<Rightarrow> 600 | Some t \<Rightarrow> t) attrs s of
        (s1, r) \<Rightarrow> (s1, tk_token (sv_token_objects s1 r)))"

definition get_token :: "string \<Rightarrow> server \<Rightarrow> pydict option" where
  "get_token txt s =
     (case map_of (sv_tokens s) txt of
        None \<Rightarrow> None
      | Some r \<Rightarrow> Some [(''attributes'', PDict (tk_attributes (sv_token_objects s r)))])"

definition twofactor_verify :: "authlib \<Rightarrow> string option \<Rightarrow> bool res" where
  "twofactor_verify A tok =
     (let c = au_twofactor A
      in rbind (dict_item c ''enabled'') (\<lambda>e.
           if \<not> truthy e then Inl (CallError [Txt ''Please enable Two Factor Authentication first.''] EFAULT PNone)
           else rbind (dict_item c ''secret'') (\<lambda>secret. rbind (dict_item c ''interval'') (\<lambda>interval.
                rbind (dict_item c ''otp_digits'') (\<lambda>digits. rbind (dict_item c ''window'') (\<lambda>window.
                  au_totp_verify A secret interval digits window tok))))))"

definition two_factor_auth :: "authlib \<Rightarrow> pyval res" where
  "two_factor_auth A = dict_item (au_twofactor A) ''enabled''"

text \<open>
  Whether \<open>login\<close> accepts: the password is checked first, and the one-time password in any case when it is
  enabled.
\<close>

definition login_valid :: "authlib \<Rightarrow> string \<Rightarrow> string \<Rightarrow> string option \<Rightarrow> bool res" where
  "login_valid A username password otp_token =
     rbind (check_user A username password) (\<lambda>valid.
       rbind (two_factor_auth A) (\<lambda>e.
         if truthy e then rbind (twofactor_verify A otp_token) (\<lambda>v. Inr (valid \<and> v))
         else if au_webauthn_enabled A then Inr False
         else Inr valid))"

definition login :: "authlib \<Rightarrow> string \<Rightarrow> string \<Rightarrow> string \<Rightarrow> string option \<Rightarrow> server \<Rightarrow> server \<times> bool res" where
  "login A sid username password otp_token s =
     (case login_valid A username password otp_token of
        Inl e \<Rightarrow> (s, Inl e)
      | Inr valid \<Rightarrow>
          if valid
          then (case session_login sid LoginPasswordSessionManagerCredentials s of
                  Inl e \<Rightarrow> (s, Inl e)
                | Inr s1 \<Rightarrow> (s1, Inr True))
          else (s, Inr False))"

text \<open>\<open>ApiKeyService.authenticate\<close>: a key is a number, a dash and a secret.\<close>

definition api_key_authenticate :: "authlib \<Rightarrow> string \<Rightarrow> int option" where
  "api_key_authenticate A key =
     (case str_partition (CHR ''-'') key of
        (key_id, found, secret) \<Rightarrow>
          if \<not> found then None
          else (case py_int key_id of
                  Inl _ \<Rightarrow> None
                | Inr i \<Rightarrow>
                    (case au_api_keys A i of
                       None \<Rightarrow> None
                     | Some h \<Rightarrow> if au_pbkdf2_verify A secret h then Some i else None)))"

definition login_with_api_key :: "authlib \<Rightarrow> string \<Rightarrow> string \<Rightarrow> server \<Rightarrow> server \<times> bool res" where
  "login_with_api_key A sid api_key s =
     (case api_key_authenticate A api_key of
        None \<Rightarrow> (s, Inr False)
      | Some _ \<Rightarrow>
          (case session_login sid ApiKeySessionManagerCredentials s of
             Inl e \<Rightarrow> (s, Inl e)
           | Inr s1 \<Rightarrow> (s1, Inr True)))"

definition logout :: "string \<Rightarrow> server \<Rightarrow> server \<times> bool res" where
  "logout sid s = (case session_logout sid s of Inl e \<Rightarrow> (s, Inl e) | Inr s1 \<Rightarrow> (s1, Inr True))"

definition token_login :: "string \<Rightarrow> string \<Rightarrow> server \<Rightarrow> server \<times> bool res" where
  "token_login sid txt s =
     (case token_get txt s of
        (s1, None) \<Rightarrow> (s1, Inr False)
      | (s1, Some r) \<Rightarrow>
          (case session_login sid (TokenSessionManagerCredentials r) s1 of
             Inl e \<Rightarrow> (s1, Inl e)
           | Inr s2 \<Rightarrow> (s2, Inr True)))"

section \<open>TwoFactorAuthService\<close>

text \<open>
  The configuration is the row of the table. \<open>do_update\<close> returns the new row, the configuration that the
  caller gets and the other calls it makes, in order; \<open>renew_secret\<close> the new row and the calls. The new
  secret, the configuration of WebAuthn and of the console are given. Long messages are cut short.
\<close>

fun two_factor_services :: "string list \<Rightarrow> pydict \<Rightarrow> pydict" where
  "two_factor_services [] d = d"
| "two_factor_services (srv # rest) d =
     two_factor_services rest (if map_of d srv = None then AList.update srv (PBool False) d else d)"

definition two_factor_extend :: "pydict \<Rightarrow> pydict res" where
  "two_factor_extend data =
     rbind (dict_item data ''services'') (\<lambda>v.
       case v of
         PDict d \<Rightarrow> Inr (AList.update ''services'' (PDict (two_factor_services [''ssh'', ''console''] d)) data)
       | _ \<Rightarrow> Inl AttributeError)"

definition dict_update :: "pydict \<Rightarrow> pydict \<Rightarrow> pydict" where
  "dict_update d new = fold (\<lambda>(k, v). AList.update k v) new d"

definition services_flag :: "pydict \<Rightarrow> string \<Rightarrow> pyval res" where
  "services_flag config srv =
     rbind (dict_item config ''services'') (\<lambda>v. case v of PDict d \<Rightarrow> Inr (dict_get d srv) | _ \<Rightarrow> Inl AttributeError)"

definition two_factor_update ::
    "bool \<Rightarrow> bool \<Rightarrow> string \<Rightarrow> pydict \<Rightarrow> pydict \<Rightarrow> (pydict \<times> pydict \<times> (string \<times> string) list) res" where
  "two_factor_update webauthn consolemenu fresh_secret data row =
     rbind (two_factor_extend row) (\<lambda>old.
       let config = dict_update old data
       in rbind (dict_item config ''enabled'') (\<lambda>enabled.
            if \<not> truthy enabled \<and> webauthn
            then Inl (CallError [Txt ''Two-Factor authentication cannot be disabled while WebAuthn is enabled''] EFAULT PNone)
            else rbind (services_flag config ''console'') (\<lambda>console.
              if truthy console \<and> consolemenu
              then Inl (CallError [Txt ''Console OTP cannot be enabled while the console menu is active''] EFAULT PNone)
              else rbind (dict_item config ''secret'') (\<lambda>secret.
                let row' = (if truthy enabled \<and> \<not> truthy secret then AList.update ''secret'' (PStr fresh_secret) config
                            else config)
                in rbind (two_factor_extend row') (\<lambda>result.
                     Inr (row', result, [(''etc.generate'', ''pam''), (''service.reload'', ''ssh'')]))))))"

definition renew_secret :: "string \<Rightarrow> pydict \<Rightarrow> (pydict \<times> (string \<times> string) list) res" where
  "renew_secret fresh_secret row =
     rbind (two_factor_extend row) (\<lambda>config.
       rbind (dict_item config ''enabled'') (\<lambda>enabled.
         if \<not> truthy enabled then Inl (CallError [Txt ''Please enable Two Factor Authentication first.''] EFAULT PNone)
         else rbind (services_flag config ''ssh'') (\<lambda>ssh. rbind (services_flag config ''console'') (\<lambda>console.
           Inr (AList.update ''secret'' (PStr fresh_secret) row,
                if truthy ssh \<or> truthy console then [(''service.reload'', ''ssh'')] else [])))))"

section \<open>Local connections\<close>

text \<open>\<open>str.split()\<close>, and \<open>check_permission\<close> on what \<open>sockstat\<close> printed.\<close>

function py_split :: "string \<Rightarrow> string list" where
  "py_split s =
     (let t = dropWhile py_space s
      in if t = [] then []
         else takeWhile (\<lambda>c. \<not> py_space c) t # py_split (dropWhile (\<lambda>c. \<not> py_space c) t))"
  by pat_completeness auto
termination
proof (relation "measure length")
  fix s t assume t: "(t :: string) = dropWhile py_space s" "t \<noteq> []"
  obtain c cs where c: "t = c # cs" using t(2) by (cases t) auto
  then have "\<not> py_space c" using t hd_dropWhile [of py_space s] by (metis list.sel(1))
  then have "length (dropWhile (\<lambda>c. \<not> py_space c) t) \<le> length cs" using c by (simp add: length_dropWhile_le)
  moreover have "length t \<le> length s" using t by (simp add: length_dropWhile_le)
  ultimately show "(dropWhile (\<lambda>c. \<not> py_space c) t, s) \<in> measure length" using c by simp
qed simp

declare py_split.simps [simp del]

fun root_socket :: "bool \<Rightarrow> string \<Rightarrow> string list \<Rightarrow> bool res" where
  "root_socket linux remote [] = Inr False"
| "root_socket linux remote (line # rest) =
     (let cols = py_split line
      in rbind (list_item cols (if linux then - 3 else - 2)) (\<lambda>addr.
           if addr = remote
           then rbind (list_item cols 0) (\<lambda>user. if user = ''root'' then Inr True else root_socket linux remote rest)
           else root_socket linux remote rest))"

definition check_permission :: "bool \<Rightarrow> string \<Rightarrow> string \<Rightarrow> server \<Rightarrow> server res" where
  "check_permission linux sockstat sid s =
     (let tr = app_transport (sv_apps s sid); (addr, port) = tr_peername tr
      in if tr_unix tr then session_login sid UnixSocketSessionManagerCredentials s
         else if \<not> (py_startswith addr ''127.'' \<or> addr = ''::1'') then Inr s
         else rbind (root_socket linux (addr @ '':'' @ str_of_int port)
                (tl (split_on (CHR 0x0A) (py_strip sockstat))))
              (\<lambda>root. if root then session_login sid RootTcpSocketSessionManagerCredentials s else Inr s))"

end
