(* ===== verification/Services.thy ===== *)
theory Services
  imports Auth
begin

text \<open>
  Services and their methods: the decorators, the configuration, \<open>CompoundService\<close> and the throttle of
  \<open>service.py\<close>, the registry of \<open>LoadPluginsMixin\<close> (\<open>utils/__init__.py\<close>), the lookup of a method by its name
  (\<open>utils/service/call.py\<close>), and what \<open>CoreService\<close> tells clients about services, methods and events.

  \<^item> A method is the record of the attributes that the decorators put on the function. A service has a
    configuration, the kinds of its parts (one, unless it is a \<open>CompoundService\<close>) and its attributes in the
    order of \<open>dir\<close>; an attribute that cannot be called is \<open>None\<close>.
  \<^item> What a documentation string contains is a parameter (it goes through regular expressions).
\<close>

section \<open>Methods\<close>

record smethod =
  sm_name :: string
  sm_accepts :: "attr list option"
  sm_private :: bool
  sm_item_method :: bool
  sm_no_auth_required :: bool
  sm_filterable :: bool
  sm_pass_app :: "bool option"
  sm_rest_extra :: "pyval option"
  sm_job :: "job_options option"
  sm_thread_pool :: "string option"
  sm_periodic :: "(rat \<times> bool) option"
  sm_coroutine :: bool

definition no_auth_required :: "smethod \<Rightarrow> smethod" where
  "no_auth_required m = m\<lparr>sm_no_auth_required := True\<rparr>"

definition private_method :: "smethod \<Rightarrow> smethod" where
  "private_method m = m\<lparr>sm_private := True\<rparr>"

definition item_method :: "smethod \<Rightarrow> smethod" where
  "item_method m = m\<lparr>sm_item_method := True\<rparr>"

definition pass_app :: "bool \<Rightarrow> smethod \<Rightarrow> smethod" where
  "pass_app rest m = m\<lparr>sm_pass_app := Some rest\<rparr>"

definition threaded :: "string \<Rightarrow> smethod \<Rightarrow> smethod" where
  "threaded pool m = m\<lparr>sm_thread_pool := Some pool\<rparr>"

definition periodic :: "rat \<Rightarrow> bool \<Rightarrow> smethod \<Rightarrow> smethod" where
  "periodic interval run_on_start m = m\<lparr>sm_periodic := Some (interval, run_on_start)\<rparr>"

definition rest_api_metadata :: "pyval \<Rightarrow> smethod \<Rightarrow> smethod" where
  "rest_api_metadata extra m = m\<lparr>sm_rest_extra := Some extra\<rparr>"

section \<open>Services\<close>

text \<open>The configuration that \<open>ServiceBase\<close> makes from the name of the class and the entries of its \<open>Config\<close>.\<close>

definition service_namespace :: "string \<Rightarrow> string" where
  "service_namespace cls = py_lower (if py_endswith cls ''Service'' then slice_to cls (- 7) else cls)"

definition ServiceBase_config :: "string \<Rightarrow> pydict \<Rightarrow> pydict" where
  "ServiceBase_config cls config =
     dict_update
       [(''datastore'', PNone), (''datastore_prefix'', PStr []), (''datastore_extend'', PNone),
        (''datastore_extend_context'', PNone), (''datastore_primary_key_type'', PStr ''integer''),
        (''event_register'', PBool True), (''event_send'', PBool True), (''service'', PNone),
        (''service_model'', PNone), (''service_verb'', PStr ''reload''), (''service_verb_sync'', PBool True),
        (''namespace'', PStr (service_namespace cls)), (''namespace_alias'', PNone), (''private'', PBool False),
        (''thread_pool'', PNone), (''process_pool'', PNone),
        (''verbose_name'', PStr (py_replace ''Service'' [] cls))]
       (filter (\<lambda>(k, v). \<not> py_startswith k ''_'') config)"

datatype service_kind = PlainKind | ConfigKind | CrudKind

record service =
  sc_config :: pydict
  sc_kinds :: "service_kind list"
  sc_attrs :: "(string \<times> smethod option) list"

definition is_service_class :: "service_kind \<Rightarrow> service \<Rightarrow> bool" where
  "is_service_class k svc \<longleftrightarrow> k \<in> set (sc_kinds svc)"

definition part_config :: "service \<Rightarrow> pydict" where
  "part_config p =
     filter (\<lambda>(k, v). \<not> py_startswith k ''__'' \<and> \<not> py_startswith k ''datastore'' \<and> \<not> py_startswith k ''event'') (sc_config p)"

text \<open>
  The methods of a \<open>CompoundService\<close>: those of its parts, in order. The object has the attributes \<open>logger\<close>,
  \<open>middleware\<close> and \<open>parts\<close> of its own; a method with such a name makes the error message fail with \<open>KeyError\<close>.
\<close>

fun compound_add :: "(string \<times> smethod option) list \<Rightarrow> (string \<times> smethod option) list \<Rightarrow> (string \<times> smethod option) list res" where
  "compound_add [] acc = Inr acc"
| "compound_add ((name, meth) # rest) acc =
     (if py_startswith name ''_'' \<or> meth = None then compound_add rest acc
      else if name \<in> set (map fst acc) then Inl (RuntimeError [Txt ''Duplicate method name '', Txt name])
      else if name \<in> {''logger'', ''middleware'', ''parts''} then Inl (KeyError [Rep (PStr name)])
      else compound_add rest (acc @ [(name, meth)]))"

definition CompoundService :: "service list \<Rightarrow> service res" where
  "CompoundService parts =
     (case parts of
        [] \<Rightarrow> Inl IndexError
      | p # ps \<Rightarrow>
          if list_ex (\<lambda>q. map_of (part_config q) \<noteq> map_of (part_config p)) ps
          then Inl (RuntimeError [Txt ''Service parts configs do not match''])
          else rbind (compound_add (concat (map sc_attrs parts)) []) (\<lambda>attrs.
                 Inr \<lparr>sc_config = sc_config p, sc_kinds = concat (map sc_kinds parts), sc_attrs = attrs\<rparr>))"

section \<open>The registry\<close>

record registry =
  rg_services :: "(string \<times> service) list"
  rg_aliases :: "(string \<times> service) list"

definition config_text :: "service \<Rightarrow> string \<Rightarrow> string" where
  "config_text svc key = (case dict_get (sc_config svc) key of PStr t \<Rightarrow> t | _ \<Rightarrow> [])"

definition add_service :: "service \<Rightarrow> registry \<Rightarrow> registry" where
  "add_service svc R =
     (let R1 = R\<lparr>rg_services := AList.update (config_text svc ''namespace'') svc (rg_services R)\<rparr>
      in if truthy (dict_get (sc_config svc) ''namespace_alias'')
         then R1\<lparr>rg_aliases := AList.update (config_text svc ''namespace_alias'') svc (rg_aliases R1)\<rparr> else R1)"

definition get_service :: "string \<Rightarrow> registry \<Rightarrow> service res" where
  "get_service name R =
     (case map_of (rg_services R) name of
        Some svc \<Rightarrow> Inr svc
      | None \<Rightarrow> dict_item (rg_aliases R) name)"

text \<open>
  \<open>_load_plugins\<close> once the modules are read: the service classes, sorted and grouped by namespace, become
  services, those of one namespace the parts of one service.
\<close>

fun group_namespaces :: "service list \<Rightarrow> (string \<times> service list) list" where
  "group_namespaces [] = []"
| "group_namespaces (x # xs) =
     (case group_namespaces xs of
        [] \<Rightarrow> [(config_text x ''namespace'', [x])]
      | (n, g) # rest \<Rightarrow>
          if config_text x ''namespace'' = n then (n, x # g) # rest
          else (config_text x ''namespace'', [x]) # (n, g) # rest)"

definition insert_service :: "service \<Rightarrow> service list \<Rightarrow> service list" where
  "insert_service x ys =
     takeWhile (\<lambda>y. str_less (config_text y ''namespace'') (config_text x ''namespace'')) ys @ x #
     dropWhile (\<lambda>y. str_less (config_text y ''namespace'') (config_text x ''namespace'')) ys"

definition sort_services :: "service list \<Rightarrow> service list" where
  "sort_services xs = foldr insert_service xs []"

fun load_services :: "(string \<times> service list) list \<Rightarrow> registry \<Rightarrow> registry res" where
  "load_services [] R = Inr R"
| "load_services ((name, parts) # rest) R =
     rbind (case parts of [p] \<Rightarrow> Inr p | _ \<Rightarrow> CompoundService parts) (\<lambda>svc. load_services rest (add_service svc R))"

definition load_plugins :: "service list \<Rightarrow> registry \<Rightarrow> registry res" where
  "load_plugins services R = load_services (group_namespaces (sort_services services)) R"

definition MethodNotFoundError :: "string \<Rightarrow> string \<Rightarrow> exn" where
  "MethodNotFoundError method_name svc =
     CallError [Txt ''Method '', Rep (PStr method_name), Txt '' not found in '', Rep (PStr svc)] ENOMETHOD PNone"

definition method_lookup :: "registry \<Rightarrow> string \<Rightarrow> (service \<times> smethod option) res" where
  "method_lookup R name =
     (case rsplit1 (CHR ''.'') name of
        [svc, method_name] \<Rightarrow>
          (case get_service svc R of
             Inl _ \<Rightarrow> Inl (CallError [Txt ''Service '', Rep (PStr svc), Txt '' not found''] ENOMETHOD PNone)
           | Inr x \<Rightarrow>
               (case map_of (sc_attrs x) method_name of
                  None \<Rightarrow> Inl (MethodNotFoundError method_name svc)
                | Some m \<Rightarrow> Inr (x, m)))
      | _ \<Rightarrow> Inl (CallError [Txt ''Invalid method name''] EBADMSG PNone))"

section \<open>Throttle\<close>

text \<open>
  \<open>throttle\<close>: the times of the last calls by key. \<open>condition\<close> gives whether the call passes at once, and its
  key. A call that has to wait tries again every half second; \<open>tries\<close> lists the times at which it does.
\<close>

record throttle =
  th_period :: rat
  th_last_calls :: "string option \<Rightarrow> rat"

definition throttle_init :: "rat \<Rightarrow> throttle" where
  "throttle_init seconds = \<lparr>th_period = seconds, th_last_calls = (\<lambda>_. 0)\<rparr>"

definition register_call :: "rat \<Rightarrow> string option \<Rightarrow> throttle \<Rightarrow> throttle \<times> bool" where
  "register_call now key t =
     (if now - th_last_calls t key > th_period t
      then (t\<lparr>th_last_calls := (th_last_calls t)(key := now)\<rparr>, True)
      else (t, False))"

definition should_throttle :: "(bool \<times> string option) option \<Rightarrow> rat \<Rightarrow> throttle \<Rightarrow> throttle \<times> bool \<times> string option" where
  "should_throttle condition now t =
     (case condition of
        Some (True, key) \<Rightarrow> (t, False, None)
      | Some (False, key) \<Rightarrow> (case register_call now key t of (t1, ok) \<Rightarrow> (t1, \<not> ok, key))
      | None \<Rightarrow> (case register_call now None t of (t1, ok) \<Rightarrow> (t1, \<not> ok, None)))"

fun throttle_wait :: "string option \<Rightarrow> rat list \<Rightarrow> throttle \<Rightarrow> (throttle \<times> rat) option" where
  "throttle_wait key [] t = None"
| "throttle_wait key (now # tries) t =
     (case register_call now key t of
        (t1, True) \<Rightarrow> Some (t1, now)
      | (t1, False) \<Rightarrow> throttle_wait key tries t1)"

definition throttle_call :: "(bool \<times> string option) option \<Rightarrow> rat \<Rightarrow> rat list \<Rightarrow> throttle \<Rightarrow> (throttle \<times> rat) option" where
  "throttle_call condition now tries t =
     (case should_throttle condition now t of
        (t1, False, key) \<Rightarrow> Some (t1, now)
      | (t1, True, key) \<Rightarrow> throttle_wait key tries t1)"

section \<open>What clients are told\<close>

definition service_type :: "service \<Rightarrow> string" where
  "service_type svc =
     (if is_service_class CrudKind svc then ''crud'' else if is_service_class ConfigKind svc then ''config'' else ''service'')"

definition get_services :: "registry \<Rightarrow> (string \<times> pydict) list" where
  "get_services R =
     map (\<lambda>(k, svc). (k, [(''config'', PDict (filter (\<lambda>(c, v).
           \<not> (py_startswith c ''_'' \<or> py_startswith c ''process_pool'' \<or> py_startswith c ''thread_pool'')) (sc_config svc))),
         (''type'', PStr (service_type svc))]))
       (filter (\<lambda>(k, svc). dict_get (sc_config svc) ''private'' \<noteq> PBool True) (rg_services R))"

text \<open>
  The method that \<open>get_methods\<close> describes under an attribute, and whether it is an item method; \<open>None\<close> when the
  attribute is left out. \<open>attr in ('do_update')\<close> asks whether the name is part of the text \<open>do_update\<close>.
\<close>

definition attr_method :: "service \<Rightarrow> string \<Rightarrow> smethod option" where
  "attr_method svc attr = (case map_of (sc_attrs svc) attr of Some (Some m) \<Rightarrow> Some m | _ \<Rightarrow> None)"

definition described_method :: "service \<Rightarrow> string \<Rightarrow> (smethod \<times> bool) option" where
  "described_method svc attr =
     (if is_service_class CrudKind svc then
        (if attr \<in> {''create'', ''update'', ''delete''}
         then map_option (\<lambda>m. (m, attr \<noteq> ''create'')) (attr_method svc (''do_'' @ attr))
         else if attr \<in> {''do_create'', ''do_update'', ''do_delete''} then None
         else map_option (\<lambda>m. (m, False)) (attr_method svc attr))
      else if is_service_class ConfigKind svc then
        (if attr = ''update''
         then map_option (\<lambda>m. (m, False))
                (if map_of (sc_attrs svc) ''do_update'' \<noteq> None then attr_method svc ''do_update'' else attr_method svc attr)
         else if sublist attr ''do_update'' then None
         else map_option (\<lambda>m. (m, False)) (attr_method svc attr))
      else map_option (\<lambda>m. (m, False)) (attr_method svc attr))"

definition shown_method :: "service \<Rightarrow> string \<Rightarrow> (smethod \<times> bool) option" where
  "shown_method svc attr =
     (if py_startswith attr ''_'' then None
      else case described_method svc attr of
             None \<Rightarrow> None
           | Some (m, item) \<Rightarrow> if sm_private m \<or> attr = ''terminate'' then None else Some (m, item))"

definition job_pipe :: "string \<Rightarrow> smethod \<Rightarrow> bool" where
  "job_pipe p m = (case sm_job m of None \<Rightarrow> False | Some jo \<Rightarrow> p \<in> set (opt_pipes jo))"

definition method_flags :: "smethod \<Rightarrow> bool \<Rightarrow> pydict" where
  "method_flags m item =
     [(''item_method'', PBool (item \<or> sm_item_method m)),
      (''no_auth_required'', PBool (sm_no_auth_required m)),
      (''filterable'', PBool (sm_filterable m)),
      (''pass_application'', PBool (sm_pass_app m \<noteq> None)),
      (''extra_methods'', case sm_rest_extra m of None \<Rightarrow> PNone | Some x \<Rightarrow> x),
      (''require_websocket'', PBool (sm_pass_app m = Some False)),
      (''job'', PBool (sm_job m \<noteq> None)),
      (''downloadable'', PBool (job_pipe ''output'' m)),
      (''uploadable'', PBool (job_pipe ''input'' m)),
      (''require_pipes'', PBool (case sm_job m of None \<Rightarrow> False
         | Some jo \<Rightarrow> opt_check_pipes jo \<and> (job_pipe ''input'' m \<or> job_pipe ''output'' m)))]"

definition service_methods :: "string \<Rightarrow> service \<Rightarrow> (string \<times> smethod \<times> pydict) list" where
  "service_methods name svc =
     concat (map (\<lambda>(attr, _). case shown_method svc attr of
         None \<Rightarrow> []
       | Some (m, item) \<Rightarrow> [(name @ ''.'' @ attr, m, method_flags m item)]) (sc_attrs svc))"

definition get_methods :: "string option \<Rightarrow> registry \<Rightarrow> (string \<times> smethod \<times> pydict) list" where
  "get_methods service R =
     concat (map (\<lambda>(name, svc).
         if (case service of None \<Rightarrow> False | Some n \<Rightarrow> name \<noteq> n) \<or> truthy (dict_get (sc_config svc) ''private'') then []
         else service_methods name svc) (rg_services R))"

definition core_get_events :: "server \<Rightarrow> (string \<times> pydict) list" where
  "core_get_events s =
     fold (\<lambda>(name, attrs) events.
         if truthy (dict_get attrs ''private'') then events
         else AList.update name [(''description'', dict_get attrs ''description''),
                (''wildcard_subscription'', dict_get attrs ''wildcard_subscription'')] events)
       (get_events s) []"

end
