(* ===== verification/Calls.thy ===== *)
theory Calls
  imports Services Jobs_Sample
begin

text \<open>
  How \<open>Middleware\<close> of \<open>main.py\<close> runs a method (\<open>_call_prepare\<close>, \<open>_call\<close>, \<open>call_sync\<close>, \<open>run_in_proc\<close>), its hooks, the
  order in which plugins are set up, and the periodic tasks.

  A call is prepared and then routed: the result names where the body runs (the event loop, an executor, the
  process pool) or the job that was queued; running the body is not part of it. The connection that methods
  marked with \<open>pass_app\<close> get as their first argument is the value \<open>appv\<close>.
\<close>

section \<open>Calls\<close>

datatype executor = IoThreads | Pool string

datatype prepared = PreparedJob nat | PreparedCall "pyval list" executor

definition pymethod_of :: "smethod \<Rightarrow> service \<Rightarrow> pymethod" where
  "pymethod_of m svc =
     \<lparr>meth_name = sm_name m, meth_accepts = sm_accepts m,
      meth_child = map_option sm_accepts (attr_method svc (''do_'' @ sm_name m))\<rparr>"

definition call_args :: "smethod \<Rightarrow> pyval \<Rightarrow> pyval list \<Rightarrow> pyval list" where
  "call_args m appv params = (if sm_pass_app m \<noteq> None then [appv] else []) @ params"

definition process_pool :: "service \<Rightarrow> bool" where
  "process_pool svc \<longleftrightarrow> truthy (dict_get (sc_config svc) ''process_pool'')"

definition call_prepare ::
    "jlib \<Rightarrow> int \<Rightarrow> string \<Rightarrow> service \<Rightarrow> smethod \<Rightarrow> pyval \<Rightarrow> pyval list \<Rightarrow> pipes option \<Rightarrow> bool \<Rightarrow> jobs_queue \<Rightarrow>
     jobs_queue \<times> prepared res" where
  "call_prepare L now name svc m appv params ps cb q =
     (let args = call_args m appv params
      in case sm_job m of
           Some jo \<Rightarrow>
             (let opts = (if process_pool svc then jo\<lparr>opt_process := True\<rparr> else jo)
              in case Job_init now name (pymethod_of m svc) args opts ps cb of
                   Inl e \<Rightarrow> (q, Inl e)
                 | Inr x \<Rightarrow> (case submit L x q of (q1, r) \<Rightarrow> (q1, rbind r (\<lambda>j. Inr (PreparedJob j)))))
         | None \<Rightarrow>
             (q, Inr (PreparedCall args
                (case sm_thread_pool m of
                   Some p \<Rightarrow> Pool p
                 | None \<Rightarrow> if truthy (dict_get (sc_config svc) ''thread_pool'')
                           then Pool (config_text svc ''thread_pool'') else IoThreads))))"

datatype route =
    QueuedJob nat
  | InLoop "pyval list"
  | InWorker string "pyval list"
  | InExecutor executor "pyval list"
  | InCurrentThread "pyval list"

text \<open>\<open>_call\<close>; the process pool gets the \<open>do_\<close> method of a CRUD service.\<close>

definition worker_name :: "string \<Rightarrow> service \<Rightarrow> string" where
  "worker_name name svc =
     (case rsplit1 (CHR ''.'') name of
        [service_name, method_name] \<Rightarrow>
          if CrudKind \<in> set (sc_kinds svc) \<and> length (sc_kinds svc) = 1 \<and> method_name \<in> {''create'', ''update'', ''delete''}
          then service_name @ ''.do_'' @ method_name else name
      | _ \<Rightarrow> name)"

definition route_call :: "string \<Rightarrow> service \<Rightarrow> smethod \<Rightarrow> prepared \<Rightarrow> route" where
  "route_call name svc m p =
     (case p of
        PreparedJob j \<Rightarrow> QueuedJob j
      | PreparedCall args ex \<Rightarrow>
          if sm_coroutine m then InLoop args
          else if process_pool svc then InWorker (worker_name name svc) args
          else InExecutor ex args)"

definition call ::
    "jlib \<Rightarrow> int \<Rightarrow> string \<Rightarrow> service \<Rightarrow> smethod \<Rightarrow> pyval \<Rightarrow> pyval list \<Rightarrow> pipes option \<Rightarrow> bool \<Rightarrow> jobs_queue \<Rightarrow>
     jobs_queue \<times> route res" where
  "call L now name svc m appv params ps cb q =
     (case call_prepare L now name svc m appv params ps cb q of
        (q1, r) \<Rightarrow> (q1, rbind r (\<lambda>p. Inr (route_call name svc m p))))"

text \<open>
  \<open>call_sync\<close> from a thread: the same, but a call that is to run in the executor of the calling thread runs
  in that thread, and the process pool gets the name as it is. \<open>executor_of\<close> is the executor that the thread
  belongs to; a coroutine cannot be waited for in the thread of the event loop.
\<close>

definition in_executor :: "executor option \<Rightarrow> executor \<Rightarrow> bool" where
  "in_executor current ex \<longleftrightarrow> current = Some ex"

definition route_call_sync :: "executor option \<Rightarrow> bool \<Rightarrow> string \<Rightarrow> service \<Rightarrow> smethod \<Rightarrow> prepared \<Rightarrow> route res" where
  "route_call_sync current main_thread name svc m p =
     (let wait = (\<lambda>r. if main_thread
                      then Inl (RuntimeError [Txt ''You cannot call_sync or run_coroutine from main thread'']) else Inr r)
      in case p of
           PreparedJob j \<Rightarrow> Inr (QueuedJob j)
         | PreparedCall args ex \<Rightarrow>
             if sm_coroutine m then wait (InLoop args)
             else if process_pool svc then wait (InWorker name args)
             else if \<not> in_executor current ex then wait (InExecutor ex args)
             else Inr (InCurrentThread args))"

definition call_by_name ::
    "registry \<Rightarrow> jlib \<Rightarrow> int \<Rightarrow> string \<Rightarrow> pyval \<Rightarrow> pyval list \<Rightarrow> pipes option \<Rightarrow> bool \<Rightarrow> jobs_queue \<Rightarrow> jobs_queue \<times> route res" where
  "call_by_name R L now name appv params ps cb q =
     (case method_lookup R name of
        Inl e \<Rightarrow> (q, Inl e)
      | Inr (svc, None) \<Rightarrow> (q, Inl TypeError)
      | Inr (svc, Some m) \<Rightarrow> call L now name svc m appv params ps cb q)"

text \<open>
  \<open>run_in_proc\<close>: a pool that broke is replaced once, the second time the exception is raised. The number of
  pools that were made comes with the result, \<open>None\<close> for a loop that ends without one.
\<close>

datatype 'a proc_outcome = ProcReturned 'a | ProcRaised exn | BrokenProcessPool

fun run_in_proc_loop :: "nat \<Rightarrow> nat \<Rightarrow> (nat \<Rightarrow> 'a proc_outcome) \<Rightarrow> nat \<Rightarrow> nat \<times> 'a option res" where
  "run_in_proc_loop 0 i out pools = (pools, Inr None)"
| "run_in_proc_loop (Suc n) i out pools =
     (case out i of
        ProcReturned v \<Rightarrow> (pools, Inr (Some v))
      | ProcRaised e \<Rightarrow> (pools, Inl e)
      | BrokenProcessPool \<Rightarrow>
          if n = 0 then (pools, Inl (OtherException [Txt ''BrokenProcessPool'']))
          else run_in_proc_loop n (i + 1) out (pools + 1))"

definition run_in_proc :: "(nat \<Rightarrow> 'a proc_outcome) \<Rightarrow> nat \<times> 'a option res" where
  "run_in_proc out = run_in_proc_loop 2 0 out 1"

section \<open>Hooks\<close>

text \<open>
  A hook is its function with its flags; \<open>hk_coroutine\<close> says that the function is a coroutine function. A
  call of the hooks of a name gives what is done, in order: the function is called, its coroutine awaited or
  made a task; an exception in between is logged and the next hook follows.
\<close>

record hook =
  hk_method :: string
  hk_blockable :: bool
  hk_inline :: bool
  hk_sync :: bool
  hk_coroutine :: bool

record hooks =
  hs_hooks :: "string \<Rightarrow> hook list"
  hs_blocked :: "string \<Rightarrow> int"

definition register_hook :: "string \<Rightarrow> hook \<Rightarrow> hooks \<Rightarrow> hooks res" where
  "register_hook name h H =
     (if list_ex (\<lambda>k. hk_blockable k \<noteq> hk_blockable h) (hs_hooks H name)
      then Inl (RuntimeError [Txt ''Hook '', Rep (PStr name), Txt '': blockable differs''])
      else if hk_inline h \<and> hk_coroutine h
      then Inl (RuntimeError [Txt ''You can't register coroutine function as inline hook''])
      else if hk_inline h \<and> \<not> hk_sync h
      then Inl (RuntimeError [Txt ''Inline hooks are always called in a sync way''])
      else Inr (H\<lparr>hs_hooks := (hs_hooks H)(name := hs_hooks H name @ [h])\<rparr>))"

text \<open>The two halves of the context manager \<open>block_hooks\<close>.\<close>

fun block_check :: "string list \<Rightarrow> hooks \<Rightarrow> unit res" where
  "block_check [] H = Inr ()"
| "block_check (name # rest) H =
     (case hs_hooks H name of
        [] \<Rightarrow> Inl (RuntimeError [Txt ''Hook '', Rep (PStr name), Txt '' does not exist''])
      | h # _ \<Rightarrow>
          if \<not> hk_blockable h then Inl (RuntimeError [Txt ''Hook '', Rep (PStr name), Txt '' is not blockable''])
          else block_check rest H)"

definition count_blocked :: "int \<Rightarrow> string list \<Rightarrow> hooks \<Rightarrow> hooks" where
  "count_blocked d names H = fold (\<lambda>n H. H\<lparr>hs_blocked := (hs_blocked H)(n := hs_blocked H n + d)\<rparr>) names H"

definition block_hooks_enter :: "string list \<Rightarrow> hooks \<Rightarrow> hooks res" where
  "block_hooks_enter names H = rbind (block_check names H) (\<lambda>_. Inr (count_blocked 1 names H))"

definition block_hooks_leave :: "string list \<Rightarrow> hooks \<Rightarrow> hooks" where
  "block_hooks_leave names H = count_blocked (- 1) names H"

text \<open>The body of a \<open>with\<close> statement over \<open>block_hooks\<close>: there is no \<open>finally\<close>, an exception skips the second half.\<close>

definition with_block_hooks :: "string list \<Rightarrow> (hooks \<Rightarrow> hooks \<times> exn option) \<Rightarrow> hooks \<Rightarrow> hooks \<times> exn option" where
  "with_block_hooks names body H =
     (case block_hooks_enter names H of
        Inl e \<Rightarrow> (H, Some e)
      | Inr H1 \<Rightarrow>
          (case body H1 of
             (H2, Some e) \<Rightarrow> (H2, Some e)
           | (H2, None) \<Rightarrow> (block_hooks_leave names H2, None)))"

datatype hook_action = HookCalled string | HookAwaited string | HookTask string | HookLogged string

text \<open>
  \<open>call_hook\<close> and \<open>call_hook_inline\<close>. \<open>call_raises\<close> says which functions raise when they are called (a coroutine
  function does not), \<open>await_raises\<close> which coroutines raise when they are awaited.
\<close>

definition hook_actions :: "(string \<Rightarrow> bool) \<Rightarrow> (string \<Rightarrow> bool) \<Rightarrow> hook \<Rightarrow> hook_action list" where
  "hook_actions call_raises await_raises h =
     (let f = hk_method h
      in if \<not> hk_coroutine h \<and> call_raises f then [HookCalled f, HookLogged f]
         else HookCalled f #
           (if hk_inline h then [HookLogged f]
            else if \<not> hk_coroutine h then [HookLogged f]
            else if hk_sync h then (if await_raises f then [HookAwaited f, HookLogged f] else [HookAwaited f])
            else [HookTask f]))"

definition call_hook :: "(string \<Rightarrow> bool) \<Rightarrow> (string \<Rightarrow> bool) \<Rightarrow> string \<Rightarrow> hooks \<Rightarrow> hook_action list" where
  "call_hook call_raises await_raises name H =
     (if hs_blocked H name > 0 then []
      else concat (map (hook_actions call_raises await_raises) (hs_hooks H name)))"

fun inline_loop :: "(string \<Rightarrow> bool) \<Rightarrow> hook list \<Rightarrow> hook_action list \<times> exn option" where
  "inline_loop call_raises [] = ([], None)"
| "inline_loop call_raises (h # rest) =
     (if \<not> hk_coroutine h \<and> call_raises (hk_method h)
      then (case inline_loop call_raises rest of (acts, r) \<Rightarrow> (HookCalled (hk_method h) # HookLogged (hk_method h) # acts, r))
      else if \<not> hk_inline h
      then ([HookCalled (hk_method h)], Some (RuntimeError [Txt ''Only inline hooks can be called with call_hook_inline'']))
      else case inline_loop call_raises rest of (acts, r) \<Rightarrow> (HookCalled (hk_method h) # acts, r))"

definition call_hook_inline :: "(string \<Rightarrow> bool) \<Rightarrow> string \<Rightarrow> hooks \<Rightarrow> hook_action list \<times> exn option" where
  "call_hook_inline call_raises name H =
     (if hs_blocked H name > 0 then ([], None) else inline_loop call_raises (hs_hooks H name))"

section \<open>Setting up the plugins\<close>

definition setup_beginning :: "string list" where
  "setup_beginning = [''datastore'', ''auth'', ''service'', ''pwenc'', ''geom'', ''boot'', ''system'', ''mail'', ''alert'',
     ''account'', ''network'']"

definition setup_key :: "string \<Rightarrow> nat" where
  "setup_key plugin = length (takeWhile (\<lambda>p. p \<noteq> plugin) setup_beginning)"

definition setup_order :: "string list \<Rightarrow> string list" where
  "setup_order plugins = sort_key setup_key plugins"

text \<open>The timers that \<open>_setup_periodic_tasks\<close> starts: the method with the delay and the interval.\<close>

definition periodic_tasks :: "registry \<Rightarrow> (string \<times> rat \<times> rat) list" where
  "periodic_tasks R =
     concat (map (\<lambda>(service_name, svc).
       concat (map (\<lambda>(task_name, m).
         case m of
           Some x \<Rightarrow> (case sm_periodic x of
               Some (interval, run_on_start) \<Rightarrow> [(service_name @ ''.'' @ task_name, if run_on_start then 0 else interval, interval)]
             | None \<Rightarrow> [])
         | None \<Rightarrow> []) (sc_attrs svc))) (rg_services R))"

end
