(* ===== verification/Websocket.thy ===== *)
theory Websocket
  imports Calls
begin

text \<open>
  The protocol of a websocket connection: \<open>ws_handler\<close> of \<open>Middleware\<close> and \<open>Application\<close> of \<open>main.py\<close>, cut where
  the event loop can run something else. A message is handled in one go; a method call becomes a task that
  starts (and runs, waits or is turned away by the semaphore) and ends later.

  Parameters: the texts of exceptions, what \<open>json.loads\<close> makes of a text, the registry of methods, and what
  \<open>sockstat\<close> prints. Logging and crash reporting are left out.
\<close>

record wslib =
  ws_lib :: jlib
  ws_frames :: "exn \<Rightarrow> pyval list"
  ws_pickled :: "exn \<Rightarrow> string"
  ws_registry :: registry
  ws_linux :: bool
  ws_sockstat :: string

section \<open>Errors\<close>

definition tb_error :: "wslib \<Rightarrow> exn \<Rightarrow> pyval" where
  "tb_error W e =
     PDict [(''class'', PStr (type_name (ws_lib W) e)), (''frames'', PList (ws_frames W e)),
       (''formatted'', PStr (format_exception (ws_lib W) e))]"

definition send_error ::
    "wslib \<Rightarrow> pydict \<Rightarrow> errno \<Rightarrow> string \<Rightarrow> exn option \<Rightarrow> pyval \<Rightarrow> pyval \<Rightarrow> app \<Rightarrow> app res" where
  "send_error W message en reason exc etype extra a =
     rbind (dict_item message ''id'') (\<lambda>ident.
       Inr (send [(''msg'', PStr ''result''), (''id'', ident),
         (''error'', PDict ([(''error'', PInt (errno_number (ws_lib W) en)), (''type'', etype), (''reason'', PStr reason),
            (''trace'', case exc of None \<Rightarrow> PNone | Some e \<Rightarrow> tb_error W e), (''extra'', extra)] @
            (case exc of Some e \<Rightarrow> if app_py_exceptions a then [(''py_exception'', PStr (ws_pickled W e))] else [] | None \<Rightarrow> [])))] a))"

text \<open>A \<open>CalledProcessError\<close> as the exception whose traceback is sent.\<close>

definition process_error :: exn where
  "process_error = OtherException [Txt ''CalledProcessError'']"

text \<open>What \<open>call_method\<close> answers when the method raised.\<close>

definition answer_exception :: "wslib \<Rightarrow> pydict \<Rightarrow> raised \<Rightarrow> app \<Rightarrow> app res" where
  "answer_exception W message r a =
     (let plain = (\<lambda>e. case e of
            ValidationErr att m n \<Rightarrow> send_error W message n (exn_text (ws_lib W) e) (Some e) (PStr ''VALIDATION'')
              (PList [verror_tuple (ws_lib W) att m n]) a
          | Validations ves \<Rightarrow> send_error W message EAGAIN (exn_text (ws_lib W) e) (Some e) (PStr ''VALIDATION'')
              (PList (map (\<lambda>v. verror_tuple (ws_lib W) (Some (attribute v)) (errmsg v) (verrno v)) ves)) a
          | CallError m n x \<Rightarrow> send_error W message n (exn_text (ws_lib W) e) (Some e) PNone x a
          | SchemaError att m n \<Rightarrow> send_error W message n (exn_text (ws_lib W) e) (Some e) PNone PNone a
          | _ \<Rightarrow> send_error W message EINVAL (exn_text (ws_lib W) e) (Some e) PNone PNone a)
      in case r of
           OtherError e \<Rightarrow> plain e
         | CalledProcessError _ _ _ _ \<Rightarrow>
             (case adapt_exception (decode_ignore (ws_lib W)) (shell_quote (ws_lib W)) r of
                Some (CallError m n x) \<Rightarrow>
                  send_error W message n (exn_text (ws_lib W) (CallError m n x)) (Some process_error) PNone x a
              | _ \<Rightarrow> send_error W message EINVAL (exn_text (ws_lib W) process_error) (Some process_error) PNone PNone a))"

section \<open>Calls\<close>

text \<open>
  \<open>call_method\<close> up to the semaphore, and from the end of the method on: the semaphore is left, then the answer
  is sent. An answer that cannot be sent because the message has no \<open>id\<close> ends the task with \<open>KeyError\<close>.
\<close>

datatype callresult = ResultValue pyval | ResultJob "int option" | ResultRaised raised

definition end_task :: "nat \<Rightarrow> app \<Rightarrow> app" where
  "end_task n a = a\<lparr>app_tasks := filter (\<lambda>t. t_number t \<noteq> n) (app_tasks a)\<rparr>"

definition limit_message :: "nat \<Rightarrow> string" where
  "limit_message hard = ''Maximum number of concurrent calls ('' @ str_of_nat hard @ '') has exceeded.''"

definition call_start :: "wslib \<Rightarrow> task \<Rightarrow> app \<Rightarrow> app" where
  "call_start W t a =
     (case aenter (t_number t) (app_semaphore a) of
        Some sem \<Rightarrow> a\<lparr>app_semaphore := sem\<rparr>
      | None \<Rightarrow>
          end_task (t_number t)
            (case send_error W (t_message t) ETOOMANYREFS (limit_message (sh_hardlimit (app_semaphore a))) None PNone PNone a of
               Inl _ \<Rightarrow> a | Inr a1 \<Rightarrow> a1))"

definition answer :: "wslib \<Rightarrow> pydict \<Rightarrow> callresult \<Rightarrow> app \<Rightarrow> app res" where
  "answer W message r a =
     (case r of
        ResultRaised x \<Rightarrow> answer_exception W message x a
      | _ \<Rightarrow>
          (case dict_item message ''id'' of
             Inl e \<Rightarrow> answer_exception W message (OtherError e) a
           | Inr ident \<Rightarrow>
               Inr (send [(''id'', ident), (''msg'', PStr ''result''),
                 (''result'', case r of ResultValue v \<Rightarrow> v | ResultJob i \<Rightarrow> opt_int i | ResultRaised _ \<Rightarrow> PNone)] a)))"

definition call_end :: "wslib \<Rightarrow> task \<Rightarrow> callresult \<Rightarrow> app \<Rightarrow> app" where
  "call_end W t r a =
     (let a1 = a\<lparr>app_semaphore := aexit (t_number t) (app_semaphore a)\<rparr>
      in end_task (t_number t) (case answer W (t_message t) r a1 of Inl _ \<Rightarrow> a1 | Inr a2 \<Rightarrow> a2))"

section \<open>Messages\<close>

fun run_callback :: "callback \<Rightarrow> string \<Rightarrow> server \<Rightarrow> server res" where
  "run_callback SessionOnMessage sid s = session_on_message sid s"
| "run_callback SessionOnClose sid s = session_on_close sid s"

text \<open>The callbacks, in order; one that raises is logged.\<close>

definition run_callbacks :: "callback list \<Rightarrow> string \<Rightarrow> server \<Rightarrow> server" where
  "run_callbacks cbs sid s = fold (\<lambda>cb s. case run_callback cb sid s of Inl _ \<Rightarrow> s | Inr s1 \<Rightarrow> s1) cbs s"

definition try_app :: "string \<Rightarrow> (app \<Rightarrow> app res) \<Rightarrow> server \<Rightarrow> server res" where
  "try_app sid f s = rbind (f (sv_apps s sid)) (\<lambda>a. Inr (upd_app sid (\<lambda>_. a) s))"

definition lookup_value :: "registry \<Rightarrow> pyval \<Rightarrow> (service \<times> smethod option) res" where
  "lookup_value R name =
     (case name of
        PStr nm \<Rightarrow> method_lookup R nm
      | PList xs \<Rightarrow> Inl (if PStr ''.'' \<in> set xs then AttributeError else CallError [Txt ''Invalid method name''] EBADMSG PNone)
      | PDict d \<Rightarrow> Inl (if ''.'' \<in> set (map fst d) then AttributeError else CallError [Txt ''Invalid method name''] EBADMSG PNone)
      | _ \<Rightarrow> Inl TypeError)"

definition failed_message :: pydict where
  "failed_message = [(''msg'', PStr ''failed''), (''version'', PStr ''1'')]"

text \<open>The hook \<open>core.on_connect\<close> has one function, \<open>check_permission\<close>; an exception is logged.\<close>

definition on_connect_hook :: "wslib \<Rightarrow> string \<Rightarrow> server \<Rightarrow> server" where
  "on_connect_hook W sid s =
     (case check_permission (ws_linux W) (ws_sockstat W) sid s of Inl _ \<Rightarrow> s | Inr s1 \<Rightarrow> s1)"

definition on_connect :: "wslib \<Rightarrow> string \<Rightarrow> pydict \<Rightarrow> server \<Rightarrow> server res" where
  "on_connect W sid message s =
     (if \<not> py_eq (dict_get message ''version'') (PStr ''1'') then Inr (upd_app sid (send failed_message) s)
      else let features = dict_get message ''features''
           in rbind (if truthy features then py_in (PStr ''PY_EXCEPTIONS'') features else Inr False) (\<lambda>py.
                let s1 = (if py then upd_app sid (\<lambda>a. a\<lparr>app_py_exceptions := True\<rparr>) s else s);
                    s2 = on_connect_hook W sid s1
                in Inr (upd_app sid (\<lambda>a. (send [(''msg'', PStr ''connected''), (''session'', PStr sid)] a)\<lparr>app_handshake := True\<rparr>) s2)))"

definition create_call :: "pydict \<Rightarrow> string \<Rightarrow> app \<Rightarrow> app" where
  "create_call message name a =
     a\<lparr>app_tasks := app_tasks a @ [\<lparr>t_number = app_next_task a, t_message = message, t_method = name\<rparr>],
       app_next_task := app_next_task a + 1\<rparr>"

definition needs_auth :: "smethod option \<Rightarrow> bool" where
  "needs_auth m = (case m of None \<Rightarrow> True | Some x \<Rightarrow> \<not> sm_no_auth_required x)"

definition on_method :: "wslib \<Rightarrow> string \<Rightarrow> pydict \<Rightarrow> server \<Rightarrow> server res" where
  "on_method W sid message s =
     (case map_of message ''method'' of
        None \<Rightarrow> try_app sid (send_error W message EINVAL ''Message is malformed: 'method' is absent.'' None PNone PNone) s
      | Some name \<Rightarrow>
          (case lookup_value (ws_registry W) name of
             Inl (CallError m n x) \<Rightarrow>
               try_app sid (send_error W message n (exn_text (ws_lib W) (CallError m n x)) (Some (CallError m n x)) PNone x) s
           | Inl e \<Rightarrow> Inl e
           | Inr (svc, m) \<Rightarrow>
               if \<not> app_authenticated (sv_apps s sid) \<and> needs_auth m
               then try_app sid (send_error W message EACCES ''Not authenticated'' None PNone PNone) s
               else Inr (upd_app sid (create_call message (case name of PStr nm \<Rightarrow> nm | _ \<Rightarrow> [])) s)))"

definition pong :: "pydict \<Rightarrow> pydict" where
  "pong message =
     (case map_of message ''id'' of None \<Rightarrow> [(''msg'', PStr ''pong'')] | Some i \<Rightarrow> [(''msg'', PStr ''pong''), (''id'', i)])"

definition dispatch :: "wslib \<Rightarrow> string \<Rightarrow> pydict \<Rightarrow> server \<Rightarrow> server res" where
  "dispatch W sid message s =
     rbind (dict_item message ''msg'') (\<lambda>msg.
       if msg = PStr ''connect'' then on_connect W sid message s
       else if \<not> app_handshake (sv_apps s sid) then Inr (upd_app sid (send failed_message) s)
       else if msg = PStr ''method'' then on_method W sid message s
       else if msg = PStr ''ping'' then Inr (upd_app sid (send (pong message)) s)
       else if \<not> app_authenticated (sv_apps s sid)
       then try_app sid (send_error W message EACCES ''Not authenticated'' None PNone PNone) s
       else if msg = PStr ''sub'' then
         rbind (dict_item message ''id'') (\<lambda>i. rbind (dict_item message ''name'') (\<lambda>n.
           try_app sid (subscribe (sv_event_sources s) i n) s))
       else if msg = PStr ''unsub'' then rbind (dict_item message ''id'') (\<lambda>i. try_app sid (unsubscribe i) s)
       else Inr s)"

definition on_message :: "wslib \<Rightarrow> string \<Rightarrow> pyval \<Rightarrow> server \<Rightarrow> server \<times> exn option" where
  "on_message W sid message s =
     (let s1 = run_callbacks (app_on_message (sv_apps s sid)) sid s
      in case message of
           PDict d \<Rightarrow> (case dispatch W sid d s1 of Inl e \<Rightarrow> (s1, Some e) | Inr s2 \<Rightarrow> (s2, None))
         | _ \<Rightarrow> (s1, Some TypeError))"

section \<open>Connections\<close>

definition on_open :: "transport \<Rightarrow> string \<Rightarrow> server \<Rightarrow> server" where
  "on_open tr sid s =
     register_wsclient sid (s\<lparr>sv_apps := (sv_apps s)(sid := Application_init tr), sv_used_ids := sid # sv_used_ids s\<rparr>)"

definition on_close :: "string \<Rightarrow> server \<Rightarrow> server" where
  "on_close sid s =
     (let s1 = run_callbacks (app_on_close (sv_apps s sid)) sid s;
          s2 = upd_app sid (\<lambda>a. a\<lparr>app_event_sources := map (\<lambda>(i, e). (i, cancel_source e)) (app_event_sources a)\<rparr>) s1
      in case unregister_wsclient sid s2 of Inl _ \<Rightarrow> s2 | Inr s3 \<Rightarrow> s3)"

text \<open>
  What arrives in \<open>ws_handler\<close>: an error, a binary message, or a text with what \<open>json.loads\<close> makes of it. In every
  case but a handled message the connection is closed.
\<close>

datatype frame = ErrorFrame | OtherFrame | TextFrame string "pyval res"

definition ws_handler :: "wslib \<Rightarrow> string \<Rightarrow> frame \<Rightarrow> server \<Rightarrow> server" where
  "ws_handler W sid fr s =
     (case fr of
        TextFrame data loaded \<Rightarrow>
          if \<not> app_authenticated (sv_apps s sid) \<and> length data > 8192 then on_close sid s
          else (case loaded of
                  Inl _ \<Rightarrow> on_close sid s
                | Inr message \<Rightarrow>
                    (case on_message W sid message s of
                       (s1, None) \<Rightarrow> s1
                     | (s1, Some _) \<Rightarrow> on_close sid s1))
      | _ \<Rightarrow> on_close sid s)"

end
