(* ===== verification/Auth_Laws.thy ===== *)
theory Auth_Laws
  imports Auth
begin

text \<open>
  Facts about the operations of \<open>Auth\<close>: the text of an origin can be read back, so that no session operation
  raises; what the operations change; when tokens and logins are accepted.
\<close>

section \<open>Numbers and texts\<close>

lemma digit_value_char_of: "d < 10 \<Longrightarrow> digit_value (char_of (48 + d)) = d"
  by (simp add: digit_value_def of_char_of)

lemma str_of_nat_digits: "str_of_nat n \<noteq> [] \<and> list_all is_digit (str_of_nat n)"
proof (induction n rule: str_of_nat.induct)
  case (1 n)
  then show ?case by (subst (1 2) str_of_nat.simps) (auto simp: is_digit_char_of)
qed

lemma digits_value_str_of_nat: "digits_value (str_of_nat n) = int n"
proof (induction n rule: str_of_nat.induct)
  case (1 n)
  show ?case
  proof (cases "n < 10")
    case True
    then show ?thesis by (simp add: str_of_nat.simps [of n] digits_value_def digit_value_char_of)
  next
    case False
    then have "digits_value (str_of_nat n) = 10 * int (n div 10) + int (n mod 10)"
      using 1 by (simp add: str_of_nat.simps [of n] digits_value_def digit_value_char_of)
    also have "\<dots> = int n" by presburger
    finally show ?thesis .
  qed
qed

lemma int_literal_digits: "list_all is_digit s \<Longrightarrow> s \<noteq> [] \<or> b \<Longrightarrow> int_literal b s = Some s"
proof (induction s arbitrary: b)
  case (Cons c s)
  then show ?case by simp
qed simp

lemma dropWhile_none: "list_all (\<lambda>c. \<not> p c) s \<Longrightarrow> dropWhile p s = s"
  by (cases s) auto

lemma strip_by_id: "list_all (\<lambda>c. \<not> p c) s \<Longrightarrow> strip_by p s = s"
  by (simp add: strip_by_def dropWhile_none)

lemma is_digit_not_space: "is_digit c \<Longrightarrow> \<not> py_space c"
  by (auto simp: is_digit_def py_space_def)

lemma py_strip_number: "list_all is_digit s \<Longrightarrow> py_strip s = s" "list_all is_digit s \<Longrightarrow> py_strip (CHR ''-'' # s) = CHR ''-'' # s"
proof -
  assume "list_all is_digit s"
  then have "list_all (\<lambda>c. \<not> py_space c) s" using is_digit_not_space by (auto simp: list_all_iff)
  moreover have "\<not> py_space (CHR ''-'')" by (simp add: py_space_def)
  ultimately show "py_strip s = s" "py_strip (CHR ''-'' # s) = CHR ''-'' # s"
    unfolding py_strip_def by (intro strip_by_id; simp)+
qed

lemma py_int_digits:
  assumes "list_all is_digit s" "s \<noteq> []"
  shows "py_int s = Inr (digits_value s)" "py_int (CHR ''-'' # s) = Inr (- digits_value s)"
proof -
  obtain c cs where s: "s = c # cs" "is_digit c" using assms by (cases s) auto
  then have "c \<noteq> CHR ''-''" "c \<noteq> CHR ''+''" by (auto simp: is_digit_def)
  then show "py_int s = Inr (digits_value s)"
    using s assms int_literal_digits [OF assms(1), of False] py_strip_number [OF assms(1)]
    by (simp add: py_int_def Let_def del: int_literal.simps)
  show "py_int (CHR ''-'' # s) = Inr (- digits_value s)"
    using assms int_literal_digits [OF assms(1), of False] py_strip_number [OF assms(1)]
    by (simp add: py_int_def Let_def)
qed

lemma py_int_str_of_int: "py_int (str_of_int i) = Inr i"
  using str_of_nat_digits by (simp add: str_of_int_def py_int_digits digits_value_str_of_nat)

lemma colon_not_in_number: "CHR '':'' \<notin> set (str_of_int i)"
proof -
  have "\<not> is_digit (CHR '':'')" by (simp add: is_digit_def)
  then have "CHR '':'' \<notin> set (str_of_nat n)" for n
    using str_of_nat_digits [of n] unfolding list_all_iff by blast
  then show ?thesis by (simp add: str_of_int_def)
qed

lemma rsplit1_last: "c \<notin> set r \<Longrightarrow> rsplit1 c (l @ c # r) = [l, r]"
proof -
  assume c: "c \<notin> set r"
  have "takeWhile (\<lambda>x. x \<noteq> c) (rev r @ c # rev l) = rev r"
    using c by (subst takeWhile_append2) auto
  moreover have "dropWhile (\<lambda>x. x \<noteq> c) (rev r @ c # rev l) = c # rev l"
    using c by (subst dropWhile_append2) auto
  ultimately show ?thesis by (simp add: rsplit1_def)
qed

lemma strip_by_ends:
  assumes "p x" "p y"
  shows "strip_by p (x # a @ [y]) = strip_by p a"
proof (cases "\<forall>c \<in> set a. p c")
  case True
  then have "dropWhile p (a @ [y]) = []" "dropWhile p a = []" using assms by auto
  then show ?thesis using assms by (simp add: strip_by_def del: dropWhile_eq_Nil_conv)
next
  case False
  then obtain c where "c \<in> set a" "\<not> p c" by blast
  then have "dropWhile p (a @ [y]) = dropWhile p a @ [y]" by (rule dropWhile_append1)
  then show ?thesis using assms by (simp add: strip_by_def)
qed

lemma strip_brackets: "py_strip_chars ''[]'' (CHR ''['' # a @ '']'') = py_strip_chars ''[]'' a"
  unfolding py_strip_chars_def by (rule strip_by_ends) simp_all

section \<open>Origins\<close>

lemma origin_parts_text: "origin_parts (origin_text addr port) = Inr (py_strip_chars ''[]'' addr, port)"
proof (cases "CHR '':'' \<in> set addr")
  case True
  then have "origin_text addr port = (CHR ''['' # addr @ '']'') @ CHR '':'' # str_of_int port"
    by (simp add: origin_text_def)
  then show ?thesis
    using rsplit1_last [OF colon_not_in_number, of "CHR ''['' # addr @ '']''" port] strip_brackets [of addr]
    by (simp add: origin_parts_def py_int_str_of_int)
next
  case False
  then show ?thesis
    using rsplit1_last [OF colon_not_in_number, of addr port]
    by (simp add: origin_text_def origin_parts_def py_int_str_of_int)
qed

lemma is_internal_session_total:
  assumes "ss_origin x = get_origin tr"
  shows "\<exists>b. is_internal_session x = Inr b"
proof (cases "tr_unix tr")
  case True
  then show ?thesis using assms by (auto simp: is_internal_session_def get_origin_def)
next
  case False
  obtain addr port where "ss_origin x = origin_text addr port"
    using assms False by (cases "remote_address tr") (simp add: get_origin_def)
  then have "origin_parts (ss_origin x) = Inr (py_strip_chars ''[]'' addr, port)" by (simp add: origin_parts_text)
  then show ?thesis unfolding is_internal_session_def by (auto simp del: insert_iff)
qed

end
