(* ===== verification/Ws_Steps.thy ===== *)
theory Ws_Steps
  imports Websocket Auth_Laws
begin

text \<open>
  What can happen to the server, step by step, and the invariant of its connections: a connection is
  authenticated exactly when it has a session, the session is checked before every message and removed with
  the connection, and the calls of a connection are those that its semaphore counts.
\<close>

section \<open>Steps\<close>

text \<open>
  Time passes; a connection is opened, sends something, or goes away; one of its calls starts, has its
  effect, or ends; an event source ends; a component sends an event. The effects are those of the
  methods of \<open>AuthService\<close>; any other method leaves this state alone. A call goes on when its connection is closed.
\<close>

definition runs :: "server \<Rightarrow> string \<Rightarrow> task \<Rightarrow> bool" where
  "runs s sid t \<longleftrightarrow> sid \<in> set (sv_used_ids s) \<and> t \<in> set (app_tasks (sv_apps s sid)) \<and>
     t_number t \<in> set (sh_running (app_semaphore (sv_apps s sid)))"

inductive ws_step :: "wslib \<Rightarrow> authlib \<Rightarrow> server \<Rightarrow> server \<Rightarrow> bool" for W A where
  st_time: "0 \<le> d \<Longrightarrow> ws_step W A s (s\<lparr>sv_now := sv_now s + d, sv_utcnow := utc\<rparr>)"
| st_open: "sid \<notin> set (sv_used_ids s) \<Longrightarrow> ws_step W A s (on_open tr sid s)"
| st_frame: "sid \<in> set (sv_wsclients s) \<Longrightarrow> ws_step W A s (ws_handler W sid fr s)"
| st_start: "sid \<in> set (sv_used_ids s) \<Longrightarrow> t \<in> set (app_tasks (sv_apps s sid)) \<Longrightarrow>
    t_number t \<notin> set (sh_running (app_semaphore (sv_apps s sid)) @ sh_waiters (app_semaphore (sv_apps s sid))) \<Longrightarrow>
    ws_step W A s (upd_app sid (call_start W t) s)"
| st_login: "runs s sid t \<Longrightarrow> t_method t = ''auth.login'' \<Longrightarrow> ws_step W A s (fst (login A sid u p otp s))"
| st_api_key: "runs s sid t \<Longrightarrow> t_method t = ''auth.login_with_api_key'' \<Longrightarrow> ws_step W A s (fst (login_with_api_key A sid k s))"
| st_token: "runs s sid t \<Longrightarrow> t_method t = ''auth.token'' \<Longrightarrow> ws_step W A s (fst (token_login sid txt s))"
| st_logout: "runs s sid t \<Longrightarrow> t_method t = ''auth.logout'' \<Longrightarrow> ws_step W A s (fst (logout sid s))"
| st_generate: "runs s sid t \<Longrightarrow> t_method t = ''auth.generate_token'' \<Longrightarrow> txt \<notin> set (map fst (sv_tokens s)) \<Longrightarrow>
    ws_step W A s (fst (generate_token txt ttl attrs s))"
| st_end: "runs s sid t \<Longrightarrow> ws_step W A s (upd_app sid (call_end W t r) s)"
| st_source: "sid \<in> set (sv_used_ids s) \<Longrightarrow> unsubscribe i (sv_apps s sid) = Inr a \<Longrightarrow> ws_step W A s (upd_app sid (\<lambda>_. a) s)"
| st_event: "send_event name etype kwargs s = Inr t \<Longrightarrow> ws_step W A s t"

definition server_start :: "server \<Rightarrow> bool" where
  "server_start s \<longleftrightarrow> sv_used_ids s = [] \<and> sv_wsclients s = [] \<and> sv_sessions s = [] \<and> sv_tokens s = []"

section \<open>What the events leave alone\<close>

definition app_core where
  "app_core a = (app_authenticated a, app_on_message a, app_on_close a, app_semaphore a, app_tasks a, app_next_task a, app_handshake a)"

definition core where
  "core s = (sv_used_ids s, sv_wsclients s, sv_sessions s, \<lambda>sid. app_core (sv_apps s sid))"

definition clock_tokens where
  "clock_tokens s = (sv_now s, sv_tokens s, sv_token_objects s, sv_next_token s)"

lemma upd_app_fields [simp]:
  "sv_used_ids (upd_app sid f s) = sv_used_ids s" "sv_wsclients (upd_app sid f s) = sv_wsclients s"
  "sv_sessions (upd_app sid f s) = sv_sessions s" "sv_apps (upd_app sid f s) = (sv_apps s)(sid := f (sv_apps s sid))"
  "clock_tokens (upd_app sid f s) = clock_tokens s"
  by (simp_all add: upd_app_def clock_tokens_def)

lemma core_upd_app: "(\<And>a. app_core (f a) = app_core a) \<Longrightarrow> core (upd_app sid f s) = core s"
  by (auto simp: core_def)

lemma core_upd_cong:
  assumes "core t = core s" "\<And>a b. app_core a = app_core b \<Longrightarrow> app_core (f a) = app_core (f b)"
  shows "core (upd_app sid f t) = core (upd_app sid f s)"
proof -
  have "sv_used_ids t = sv_used_ids s" "sv_wsclients t = sv_wsclients s" "sv_sessions t = sv_sessions s"
    and c: "app_core (sv_apps t i) = app_core (sv_apps s i)" for i
    using assms(1) by (simp_all add: core_def fun_eq_iff)
  then show ?thesis using assms(2) [OF c [of sid]] by (simp add: core_def fun_eq_iff)
qed

lemma app_core_send [simp]: "app_core (send d a) = app_core a"
  by (simp add: app_core_def send_def)

lemma app_core_send_event [simp]: "app_core (app_send_event n e k a) = app_core a"
  by (simp add: app_send_event_def)

lemma send_event_core:
  assumes "send_event n e k s = Inr t"
  shows "core t = core s \<and> clock_tokens t = clock_tokens s"
proof -
  have "core (fold (\<lambda>sid. upd_app sid (app_send_event n e k)) xs s) = core s \<and>
      clock_tokens (fold (\<lambda>sid. upd_app sid (app_send_event n e k)) xs s) = clock_tokens s" for xs s
    by (induction xs arbitrary: s) (simp_all add: core_upd_app)
  with assms show ?thesis
    by (auto simp: send_event_def Let_def core_def clock_tokens_def split: if_splits)
qed

lemma app_core_result:
  "send_error W m en r x ty ex a = Inr b \<Longrightarrow> app_core b = app_core a"
  "subscribe sources i n a = Inr b \<Longrightarrow> app_core b = app_core a"
  "unsubscribe i a = Inr b \<Longrightarrow> app_core b = app_core a"
proof -
  show "send_error W m en r x ty ex a = Inr b \<Longrightarrow> app_core b = app_core a"
    by (auto simp: send_error_def res_simps)
  show "subscribe sources i n a = Inr b \<Longrightarrow> app_core b = app_core a"
    by (auto simp: subscribe_def app_core_def send_def split: pyval.splits prod.splits if_splits)
  show "unsubscribe i a = Inr b \<Longrightarrow> app_core b = app_core a"
    by (auto simp: unsubscribe_def unsubscribe_start_def unsubscribe_end_def app_core_def res_simps
        split: if_splits option.splits)
qed

lemma try_app_core:
  assumes "try_app sid f s = Inr t" "\<And>a b. f a = Inr b \<Longrightarrow> app_core b = app_core a"
  shows "core t = core s"
  using assms by (auto simp: try_app_def res_simps core_def)

section \<open>The invariant\<close>

definition calls_ok :: "app \<Rightarrow> bool" where
  "calls_ok a \<longleftrightarrow>
     sem_ok (app_semaphore a) \<and> sh_softlimit (app_semaphore a) = 10 \<and> sh_hardlimit (app_semaphore a) = 20 \<and>
     distinct (map t_number (app_tasks a)) \<and> (\<forall>t \<in> set (app_tasks a). t_number t < app_next_task a) \<and>
     set (sh_running (app_semaphore a)) \<union> set (sh_waiters (app_semaphore a)) \<subseteq> t_number ` set (app_tasks a)"

definition app_inv :: "bool \<Rightarrow> session option \<Rightarrow> app \<Rightarrow> bool" where
  "app_inv used x a \<longleftrightarrow>
     (x \<noteq> None \<longrightarrow> used) \<and> (\<forall>y. x = Some y \<longrightarrow> (\<exists>tr. ss_origin y = get_origin tr)) \<and>
     (used \<longrightarrow> (app_authenticated a \<longleftrightarrow> x \<noteq> None) \<and> calls_ok a \<and>
        set (app_on_message a) \<subseteq> {SessionOnMessage} \<and> set (app_on_close a) \<subseteq> {SessionOnClose} \<and>
        (app_authenticated a \<longrightarrow> app_on_message a \<noteq> [] \<and> app_on_close a \<noteq> []))"

definition ws_inv :: "server \<Rightarrow> bool" where
  "ws_inv s \<longleftrightarrow>
     distinct (sv_wsclients s) \<and> set (sv_wsclients s) \<subseteq> set (sv_used_ids s) \<and>
     (\<forall>sid. app_inv (sid \<in> set (sv_used_ids s)) (map_of (sv_sessions s) sid) (sv_apps s sid))"

lemma app_inv_core: "app_core b = app_core a \<Longrightarrow> app_inv u x b = app_inv u x a"
  by (simp add: app_core_def app_inv_def calls_ok_def)

lemma ws_inv_core:
  assumes "core t = core s"
  shows "ws_inv t = ws_inv s"
proof -
  have "sv_used_ids t = sv_used_ids s" "sv_wsclients t = sv_wsclients s" "sv_sessions t = sv_sessions s"
    "\<And>sid. app_core (sv_apps t sid) = app_core (sv_apps s sid)"
    using assms by (simp_all add: core_def fun_eq_iff)
  moreover from this have "app_inv u x (sv_apps t sid) = app_inv u x (sv_apps s sid)" for u x sid
    by (intro app_inv_core)
  ultimately show ?thesis by (simp add: ws_inv_def)
qed

lemma ws_inv_upd_app:
  assumes "ws_inv s"
    and "app_inv (sid \<in> set (sv_used_ids s)) (map_of (sv_sessions s) sid) (f (sv_apps s sid))"
  shows "ws_inv (upd_app sid f s)"
  using assms by (auto simp: ws_inv_def)

lemma ws_inv_app: "ws_inv s \<Longrightarrow> app_inv (sid \<in> set (sv_used_ids s)) (map_of (sv_sessions s) sid) (sv_apps s sid)"
  by (simp add: ws_inv_def)

section \<open>Sessions\<close>

lemma ws_inv_login:
  assumes "ws_inv s" "sid \<in> set (sv_used_ids s)" "session_login sid c s = Inr t"
  shows "ws_inv t"
proof (cases "app_authenticated (sv_apps s sid)")
  case True
  then obtain x where x: "map_of (sv_sessions s) sid = Some x"
    "t = s\<lparr>sv_sessions := AList.update sid (x\<lparr>ss_credentials := c\<rparr>) (sv_sessions s)\<rparr>"
    using assms(3) by (auto simp: session_login_def split: option.splits)
  have "app_inv (i \<in> set (sv_used_ids s)) (map_of (AList.update sid (x\<lparr>ss_credentials := c\<rparr>) (sv_sessions s)) i) (sv_apps s i)" for i
    using ws_inv_app [OF assms(1), of i] x(1) by (auto simp: app_inv_def update_conv)
  then show ?thesis using assms(1) x(2) by (simp add: ws_inv_def)
next
  case False
  let ?x = "\<lparr>ss_origin = get_origin (app_transport (sv_apps s sid)), ss_credentials = c, ss_created_at = sv_now s\<rparr>"
  let ?f = "\<lambda>a. a\<lparr>app_authenticated := True, app_on_message := app_on_message a @ [SessionOnMessage],
    app_on_close := app_on_close a @ [SessionOnClose]\<rparr>"
  let ?s = "upd_app sid ?f (s\<lparr>sv_sessions := AList.update sid ?x (sv_sessions s)\<rparr>)"
  have "core t = core ?s"
    using assms(3) False send_event_core by (auto simp: session_login_def Let_def res_simps split: if_splits)
  moreover have "ws_inv ?s"
    unfolding ws_inv_def
  proof (intro conjI allI)
    show "distinct (sv_wsclients ?s)" "set (sv_wsclients ?s) \<subseteq> set (sv_used_ids ?s)"
      using assms(1) by (simp_all add: ws_inv_def)
    show "app_inv (i \<in> set (sv_used_ids ?s)) (map_of (sv_sessions ?s) i) (sv_apps ?s i)" for i
      using ws_inv_app [OF assms(1), of i] assms(2) by (auto simp: app_inv_def update_conv calls_ok_def)
  qed
  ultimately show ?thesis using ws_inv_core by blast
qed

lemma credentials_logout_same [simp]: "credentials_logout c s = s"
  by (cases c) (simp_all add: token_destroy_def)

lemma ws_inv_logged_out:
  assumes "ws_inv s"
  shows "ws_inv (upd_app sid (\<lambda>a. a\<lparr>app_authenticated := False\<rparr>) (s\<lparr>sv_sessions := AList.delete sid (sv_sessions s)\<rparr>))"
  unfolding ws_inv_def
proof (intro conjI allI)
  let ?t = "upd_app sid (\<lambda>a. a\<lparr>app_authenticated := False\<rparr>) (s\<lparr>sv_sessions := AList.delete sid (sv_sessions s)\<rparr>)"
  show "distinct (sv_wsclients ?t)" "set (sv_wsclients ?t) \<subseteq> set (sv_used_ids ?t)"
    using assms by (simp_all add: ws_inv_def)
  show "app_inv (i \<in> set (sv_used_ids ?t)) (map_of (sv_sessions ?t) i) (sv_apps ?t i)" for i
    using ws_inv_app [OF assms, of i] by (auto simp: app_inv_def delete_conv calls_ok_def)
qed

lemma logout_core:
  assumes "session_logout sid s = Inr t"
  shows "core t = core (upd_app sid (\<lambda>a. a\<lparr>app_authenticated := False\<rparr>) (s\<lparr>sv_sessions := AList.delete sid (sv_sessions s)\<rparr>))"
proof (cases "map_of (sv_sessions s) sid")
  case None
  then have "AList.delete sid (sv_sessions s) = sv_sessions s"
    by (simp add: map_of_eq_None_iff delete_idem)
  moreover have "t = upd_app sid (\<lambda>a. a\<lparr>app_authenticated := False\<rparr>) s"
    using None assms by (simp add: session_logout_def)
  ultimately show ?thesis by simp
next
  case (Some x)
  let ?s = "s\<lparr>sv_sessions := AList.delete sid (sv_sessions s)\<rparr>"
  obtain b u where b: "(if b then Inr ?s
      else send_event ''auth.sessions'' ''REMOVED'' [(''fields'', PDict [(''id'', PStr sid)])] ?s) = Inr u"
    and u: "t = upd_app sid (\<lambda>a. a\<lparr>app_authenticated := False\<rparr>) u"
    using assms Some by (auto simp: session_logout_def Let_def res_simps split del: if_split)
  have "core u = core ?s"
  proof (cases b)
    case False
    then show ?thesis using b send_event_core [of _ _ _ ?s u] by simp
  qed (use b in simp)
  then show ?thesis unfolding u by (rule core_upd_cong) (simp add: app_core_def)
qed

lemma ws_inv_logout: "ws_inv s \<Longrightarrow> session_logout sid s = Inr t \<Longrightarrow> ws_inv t"
  using logout_core ws_inv_core ws_inv_logged_out by metis

text \<open>In a good state a session operation does not raise.\<close>

lemma send_event_ok: "e \<in> {''ADDED'', ''CHANGED'', ''REMOVED''} \<Longrightarrow> \<exists>t. send_event n e k s = Inr t"
  by (auto simp: send_event_def Let_def)

lemma session_logout_ok:
  assumes "ws_inv s"
  shows "\<exists>t. session_logout sid s = Inr t"
proof (cases "map_of (sv_sessions s) sid")
  case None
  then show ?thesis by (simp add: session_logout_def)
next
  case (Some x)
  obtain tr where "ss_origin x = get_origin tr"
    using ws_inv_app [OF assms, of sid] Some by (auto simp: app_inv_def)
  then obtain b where b: "is_internal_session x = Inr b" using is_internal_session_total by blast
  obtain u where "send_event ''auth.sessions'' ''REMOVED'' [(''fields'', PDict [(''id'', PStr sid)])]
      (s\<lparr>sv_sessions := AList.delete sid (sv_sessions s)\<rparr>) = Inr u"
    using send_event_ok by blast
  then show ?thesis using Some b by (auto simp: session_logout_def Let_def)
qed

section \<open>Callbacks\<close>

lemma notify_used_core [simp]: "core (credentials_notify_used c s) = core s"
  by (cases c) (simp_all add: core_def token_notify_used_def)

lemma ws_inv_not_authenticated:
  "ws_inv s \<Longrightarrow> map_of (sv_sessions s) sid = None \<Longrightarrow> ws_inv (upd_app sid (\<lambda>a. a\<lparr>app_authenticated := False\<rparr>) s)"
  using ws_inv_app [of s sid] by (intro ws_inv_upd_app) (auto simp: app_inv_def calls_ok_def)

lemma ws_inv_callback:
  assumes "ws_inv s" "run_callback cb sid s = Inr t"
  shows "ws_inv t"
proof (cases cb)
  case SessionOnMessage
  with assms show ?thesis
    using ws_inv_logout [OF assms(1)] ws_inv_not_authenticated [OF assms(1)] ws_inv_core [OF notify_used_core]
    by (auto simp: session_on_message_def split: option.splits if_splits)
next
  case SessionOnClose
  with assms show ?thesis using ws_inv_logout by (simp add: session_on_close_def)
qed

lemma run_callbacks_Nil [simp]: "run_callbacks [] sid s = s"
  by (simp add: run_callbacks_def)

lemma run_callbacks_Cons:
  "run_callbacks (cb # cbs) sid s = run_callbacks cbs sid (case run_callback cb sid s of Inl _ \<Rightarrow> s | Inr s1 \<Rightarrow> s1)"
  by (simp add: run_callbacks_def)

lemma ws_inv_callbacks: "ws_inv s \<Longrightarrow> ws_inv (run_callbacks cbs sid s)"
  by (induction cbs arbitrary: s) (auto simp: run_callbacks_Cons dest: ws_inv_callback split: sum.split)

lemma run_callback_used: "run_callback cb sid s = Inr t \<Longrightarrow> sv_used_ids t = sv_used_ids s \<and> sv_wsclients t = sv_wsclients s"
proof -
  have "sv_used_ids t = sv_used_ids s \<and> sv_wsclients t = sv_wsclients s" if "session_logout sid s = Inr t" for t
    using logout_core [OF that] by (simp add: core_def)
  moreover have "sv_used_ids (credentials_notify_used c s) = sv_used_ids s" "sv_wsclients (credentials_notify_used c s) = sv_wsclients s" for c
    using notify_used_core [of c s] by (simp_all add: core_def)
  ultimately show "run_callback cb sid s = Inr t \<Longrightarrow> ?thesis"
    by (cases cb) (auto simp: session_on_message_def session_on_close_def split: option.splits if_splits)
qed

lemma run_callbacks_used [simp]:
  "sv_used_ids (run_callbacks cbs sid s) = sv_used_ids s" "sv_wsclients (run_callbacks cbs sid s) = sv_wsclients s"
  by (induction cbs arbitrary: s) (auto simp: run_callbacks_Cons dest: run_callback_used split: sum.split)

text \<open>A connection without a session stays out; one that is still in after the callbacks had a valid session.\<close>

definition out :: "string \<Rightarrow> server \<Rightarrow> bool" where
  "out sid s \<longleftrightarrow> map_of (sv_sessions s) sid = None \<and> \<not> app_authenticated (sv_apps s sid)"

lemma logout_out: "session_logout sid s = Inr t \<Longrightarrow> out sid t"
proof -
  assume "session_logout sid s = Inr t"
  from logout_core [OF this] have "sv_sessions t = AList.delete sid (sv_sessions s)"
    "app_core (sv_apps t sid) = app_core ((sv_apps s sid)\<lparr>app_authenticated := False\<rparr>)"
    by (simp_all add: core_def fun_eq_iff)
  then show ?thesis by (simp add: out_def delete_conv app_core_def)
qed

lemma callback_out: "out sid s \<Longrightarrow> run_callback cb sid s = Inr t \<Longrightarrow> out sid t"
  by (cases cb) (auto simp: session_on_message_def session_on_close_def session_logout_def out_def)

lemma callbacks_out: "out sid s \<Longrightarrow> out sid (run_callbacks cbs sid s)"
  by (induction cbs arbitrary: s) (auto simp: run_callbacks_Cons dest: callback_out split: sum.split)

lemma callbacks_checked:
  assumes inv: "ws_inv s" and used: "sid \<in> set (sv_used_ids s)"
    and auth: "app_authenticated (sv_apps (run_callbacks (app_on_message (sv_apps s sid)) sid s) sid)"
  shows "\<exists>x. map_of (sv_sessions s) sid = Some x \<and> credentials_valid (ss_credentials x) s"
proof (cases "app_authenticated (sv_apps s sid)")
  case False
  then have "out sid s" using ws_inv_app [OF inv, of sid] used by (auto simp: app_inv_def out_def)
  then have "out sid (run_callbacks (app_on_message (sv_apps s sid)) sid s)" by (rule callbacks_out)
  with auth show ?thesis by (simp add: out_def)
next
  case True
  then obtain x rest where x: "map_of (sv_sessions s) sid = Some x" "app_on_message (sv_apps s sid) = SessionOnMessage # rest"
    using ws_inv_app [OF inv, of sid] used by (cases "app_on_message (sv_apps s sid)") (auto simp: app_inv_def)
  have "credentials_valid (ss_credentials x) s"
  proof (rule ccontr)
    assume "\<not> credentials_valid (ss_credentials x) s"
    moreover obtain t where t: "session_logout sid s = Inr t" using session_logout_ok [OF inv] by blast
    ultimately have "run_callbacks (app_on_message (sv_apps s sid)) sid s = run_callbacks rest sid t"
      using x by (simp add: run_callbacks_Cons session_on_message_def)
    then show False using auth callbacks_out [OF logout_out [OF t]] by (simp add: out_def)
  qed
  with x show ?thesis by blast
qed

section \<open>Calls\<close>

lemma end_task_core [simp]: "app_core (end_task n a) = app_core a \<longleftrightarrow> app_tasks (end_task n a) = app_tasks a"
  by (simp add: app_core_def end_task_def)

lemma calls_ok_end:
  assumes "sem_ok (app_semaphore a)" "sh_softlimit (app_semaphore a) = 10" "sh_hardlimit (app_semaphore a) = 20"
    "distinct (map t_number (app_tasks a))" "\<forall>t \<in> set (app_tasks a). t_number t < app_next_task a"
    "set (sh_running (app_semaphore a)) \<union> set (sh_waiters (app_semaphore a)) \<subseteq> t_number ` set (app_tasks a) - {n}"
  shows "calls_ok (end_task n a)"
  using assms by (auto simp: calls_ok_def end_task_def distinct_map inj_on_def)

lemma app_inv_calls:
  assumes "app_inv u x a" "calls_ok b"
    "(app_authenticated b, app_on_message b, app_on_close b) = (app_authenticated a, app_on_message a, app_on_close a)"
  shows "app_inv u x b"
  using assms by (simp add: app_inv_def)

lemma call_start_same:
  "(app_authenticated (call_start W t a), app_on_message (call_start W t a), app_on_close (call_start W t a)) =
   (app_authenticated a, app_on_message a, app_on_close a)"
proof -
  have "(app_authenticated b, app_on_message b, app_on_close b) = (app_authenticated a, app_on_message a, app_on_close a)"
    if "send_error W m en r x ty ex a = Inr b" for m en r x ty ex b
    using app_core_result(1) [OF that] by (simp add: app_core_def)
  then show ?thesis by (simp add: call_start_def end_task_def split: option.split sum.split)
qed

lemma answer_core: "answer W m r a = Inr b \<Longrightarrow> app_core b = app_core a"
proof -
  have x: "app_core b = app_core a" if "answer_exception W m r' a = Inr b" for r'
    using that unfolding answer_exception_def Let_def
    by (auto dest: app_core_result(1) split: raised.splits exn.splits option.splits)
  assume "answer W m r a = Inr b"
  then show ?thesis by (auto simp: answer_def dest: x split: callresult.splits sum.splits)
qed

lemma call_start_ok:
  assumes "calls_ok a" "t \<in> set (app_tasks a)"
    "t_number t \<notin> set (sh_running (app_semaphore a) @ sh_waiters (app_semaphore a))"
  shows "calls_ok (call_start W t a)"
proof (cases "aenter (t_number t) (app_semaphore a)")
  case (Some sem)
  then show ?thesis
    using assms sem_ok_aenter [OF _ assms(3) Some] aenter_limits [OF Some] aenter_members [OF Some]
    by (auto simp: calls_ok_def call_start_def)
next
  case None
  define b where "b = (case send_error W (t_message t) ETOOMANYREFS (limit_message (sh_hardlimit (app_semaphore a))) None PNone PNone a of
    Inl _ \<Rightarrow> a | Inr a1 \<Rightarrow> a1)"
  have "app_core b = app_core a" unfolding b_def by (auto dest: app_core_result(1) split: sum.split)
  moreover have "call_start W t a = end_task (t_number t) b" using None by (simp add: call_start_def b_def)
  moreover have "app_semaphore b = app_semaphore a" "app_tasks b = app_tasks a" "app_next_task b = app_next_task a"
    using calculation(1) by (simp_all add: app_core_def)
  moreover have "calls_ok (end_task (t_number t) b)"
    by (rule calls_ok_end) (use assms calculation(3-5) in \<open>auto simp: calls_ok_def\<close>)
  ultimately show ?thesis by simp
qed

lemma call_end_ok:
  assumes "calls_ok a" "t_number t \<in> set (sh_running (app_semaphore a))"
  shows "calls_ok (call_end W t r a) \<and>
    (app_authenticated (call_end W t r a), app_on_message (call_end W t r a), app_on_close (call_end W t r a)) =
    (app_authenticated a, app_on_message a, app_on_close a)"
proof -
  define a1 where "a1 = a\<lparr>app_semaphore := aexit (t_number t) (app_semaphore a)\<rparr>"
  define b where "b = (case answer W (t_message t) r a1 of Inl _ \<Rightarrow> a1 | Inr a2 \<Rightarrow> a2)"
  have "app_core b = app_core a1" unfolding b_def by (auto dest: answer_core split: sum.split)
  then have eq: "app_semaphore b = aexit (t_number t) (app_semaphore a)" "app_tasks b = app_tasks a"
    "app_next_task b = app_next_task a" "app_authenticated b = app_authenticated a" "app_on_message b = app_on_message a"
    "app_on_close b = app_on_close a"
    by (simp_all add: app_core_def a1_def)
  have "sem_ok (app_semaphore a)" using assms(1) by (simp add: calls_ok_def)
  note sem = sem_ok_aexit [OF this assms(2)] aexit_members [OF this assms(2)] aexit_limits
  have "calls_ok (end_task (t_number t) b)"
    by (rule calls_ok_end) (use assms(1) eq sem in \<open>auto simp: calls_ok_def\<close>)
  moreover have "call_end W t r a = end_task (t_number t) b" unfolding call_end_def Let_def b_def a1_def ..
  ultimately show ?thesis using eq by (simp add: end_task_def)
qed

lemma calls_ok_create: "calls_ok a \<Longrightarrow> calls_ok (create_call m n a)"
  by (auto simp: calls_ok_def create_call_def)

end
