(* ===== verification/Ws_Props.thy ===== *)
theory Ws_Props
  imports Ws_Steps
begin

text \<open>
  Every step keeps the invariant of \<open>Ws_Steps\<close>, and what follows for the clients: who may call, how many calls
  run, and what happens to sessions and tokens.
\<close>

section \<open>Messages\<close>

lemma app_inv_connected:
  "app_inv u x a \<Longrightarrow> app_inv u x ((send d a)\<lparr>app_handshake := True\<rparr>)" "app_inv u x a \<Longrightarrow> app_inv u x (a\<lparr>app_py_exceptions := True\<rparr>)"
  by (simp_all add: app_inv_def calls_ok_def send_def)

lemma on_connect_hook_inv:
  assumes "ws_inv s" "sid \<in> set (sv_used_ids s)"
  shows "ws_inv (on_connect_hook W sid s)"
  using assms ws_inv_login
  by (auto simp: on_connect_hook_def check_permission_def Let_def res_simps split: sum.splits prod.splits if_splits)

lemma on_connect_inv:
  assumes "ws_inv s" "sid \<in> set (sv_used_ids s)" "on_connect W sid m s = Inr t"
  shows "ws_inv t"
proof (cases "py_eq (dict_get m ''version'') (PStr ''1'')")
  case False
  then have "core t = core s" using assms(3) by (auto simp: on_connect_def core_upd_app)
  then show ?thesis using assms(1) ws_inv_core by blast
next
  case True
  then obtain py where t: "t = upd_app sid (\<lambda>a. (send [(''msg'', PStr ''connected''), (''session'', PStr sid)] a)\<lparr>app_handshake := True\<rparr>)
      (on_connect_hook W sid (if py then upd_app sid (\<lambda>a. a\<lparr>app_py_exceptions := True\<rparr>) s else s))"
    using assms(3) by (auto simp: on_connect_def Let_def res_simps split del: if_split)
  let ?s = "if py then upd_app sid (\<lambda>a. a\<lparr>app_py_exceptions := True\<rparr>) s else s"
  have "ws_inv ?s" using assms(1) app_inv_connected(2) [OF ws_inv_app [OF assms(1)]] by (simp add: ws_inv_upd_app)
  then have "ws_inv (on_connect_hook W sid ?s)" using assms(2) by (intro on_connect_hook_inv) auto
  then show ?thesis unfolding t by (intro ws_inv_upd_app app_inv_connected(1) ws_inv_app)
qed

lemma if_resE:
  assumes "(if c then a else b) = Inr t"
  obtains "c" "a = Inr t" | "\<not> c" "b = Inr t"
  using assms by (cases c) auto

lemma create_call_inv:
  assumes "ws_inv s"
  shows "ws_inv (upd_app sid (create_call m n) s)"
  using ws_inv_app [OF assms, of sid] assms
  by (intro ws_inv_upd_app) (auto simp: app_inv_def calls_ok_create, auto simp: create_call_def)

text \<open>What a message can do: connect, start a call, or nothing that the invariant reads.\<close>

lemma on_method_cases:
  assumes "on_method W sid m s = Inr t"
  obtains (quiet) "core t = core s"
  | (started) name svc mth n where "map_of m ''method'' = Some name" "lookup_value (ws_registry W) name = Inr (svc, mth)"
      "app_authenticated (sv_apps s sid) \<or> \<not> needs_auth mth" "t = upd_app sid (create_call m n) s"
proof (cases "map_of m ''method''")
  case None
  then have "try_app sid (send_error W m EINVAL ''Message is malformed: 'method' is absent.'' None PNone PNone) s = Inr t"
    using assms by (simp add: on_method_def)
  from quiet [OF try_app_core [OF this app_core_result(1)]] show ?thesis .
next
  case (Some name)
  show ?thesis
  proof (cases "lookup_value (ws_registry W) name")
    case (Inl e)
    then obtain en r x ty ex where "try_app sid (send_error W m en r x ty ex) s = Inr t"
      using assms Some by (auto simp: on_method_def split: exn.splits)
    from quiet [OF try_app_core [OF this app_core_result(1)]] show ?thesis .
  next
    case (Inr r)
    obtain svc mth where r: "r = (svc, mth)" by (cases r)
    show ?thesis
    proof (cases "\<not> app_authenticated (sv_apps s sid) \<and> needs_auth mth")
      case True
      then have "try_app sid (send_error W m EACCES ''Not authenticated'' None PNone PNone) s = Inr t"
        using assms Some Inr r by (simp add: on_method_def)
      from quiet [OF try_app_core [OF this app_core_result(1)]] show ?thesis .
    next
      case False
      then show ?thesis using assms Some Inr r started by (auto simp: on_method_def)
    qed
  qed
qed

lemma dispatch_cases:
  assumes "dispatch W sid m s = Inr t"
  obtains (connect) "on_connect W sid m s = Inr t"
  | (meth) "app_handshake (sv_apps s sid)" "on_method W sid m s = Inr t"
  | (quiet) "core t = core s"
proof -
  have sent: "core (upd_app sid (send d) s) = core s" for d by (rule core_upd_app) simp
  obtain msg where "(if msg = PStr ''connect'' then on_connect W sid m s
       else if \<not> app_handshake (sv_apps s sid) then Inr (upd_app sid (send failed_message) s)
       else if msg = PStr ''method'' then on_method W sid m s
       else if msg = PStr ''ping'' then Inr (upd_app sid (send (pong m)) s)
       else if \<not> app_authenticated (sv_apps s sid)
       then try_app sid (send_error W m EACCES ''Not authenticated'' None PNone PNone) s
       else if msg = PStr ''sub'' then
         rbind (dict_item m ''id'') (\<lambda>i. rbind (dict_item m ''name'') (\<lambda>n.
           try_app sid (subscribe (sv_event_sources s) i n) s))
       else if msg = PStr ''unsub'' then rbind (dict_item m ''id'') (\<lambda>i. try_app sid (unsubscribe i) s)
       else Inr s) = Inr t"
    using assms unfolding dispatch_def rbind_Inr by blast
  then show ?thesis
  proof (elim if_resE)
    assume "rbind (dict_item m ''id'') (\<lambda>i. rbind (dict_item m ''name'') (\<lambda>n.
           try_app sid (subscribe (sv_event_sources s) i n) s)) = Inr t"
    then obtain i n where "try_app sid (subscribe (sv_event_sources s) i n) s = Inr t" unfolding rbind_Inr by blast
    from quiet [OF try_app_core [OF this app_core_result(2)]] show ?thesis .
  next
    assume "rbind (dict_item m ''id'') (\<lambda>i. try_app sid (unsubscribe i) s) = Inr t"
    then obtain i where "try_app sid (unsubscribe i) s = Inr t" unfolding rbind_Inr by blast
    from quiet [OF try_app_core [OF this app_core_result(3)]] show ?thesis .
  next
    assume "try_app sid (send_error W m EACCES ''Not authenticated'' None PNone PNone) s = Inr t"
    from quiet [OF try_app_core [OF this app_core_result(1)]] show ?thesis .
  qed (use connect meth quiet sent in auto)
qed

lemma dispatch_inv:
  assumes "ws_inv s" "sid \<in> set (sv_used_ids s)" "dispatch W sid m s = Inr t"
  shows "ws_inv t"
  using assms(3)
proof (cases rule: dispatch_cases)
  case connect
  then show ?thesis by (rule on_connect_inv [OF assms(1,2)])
next
  case meth
  from meth(2) show ?thesis
    by (cases rule: on_method_cases) (use assms(1) ws_inv_core create_call_inv in blast)+
next
  case quiet
  then show ?thesis using assms(1) ws_inv_core by blast
qed

lemma on_message_inv:
  assumes "ws_inv s" "sid \<in> set (sv_used_ids s)"
  shows "ws_inv (fst (on_message W sid m s))"
  using dispatch_inv [OF ws_inv_callbacks [OF assms(1)]] ws_inv_callbacks [OF assms(1)] assms(2)
  by (auto simp: on_message_def Let_def split: pyval.splits sum.splits)

section \<open>Connections\<close>

lemma on_close_inv:
  assumes "ws_inv s"
  shows "ws_inv (on_close sid s)"
proof -
  let ?s = "run_callbacks (app_on_close (sv_apps s sid)) sid s"
  let ?t = "upd_app sid (\<lambda>a. a\<lparr>app_event_sources := map (\<lambda>(i, e). (i, cancel_source e)) (app_event_sources a)\<rparr>) ?s"
  have "ws_inv ?t"
    using ws_inv_callbacks [OF assms] ws_inv_core [OF core_upd_app] by (simp add: app_core_def)
  then show ?thesis
    by (auto simp: on_close_def Let_def unregister_wsclient_def ws_inv_def distinct_removeAll)
qed

lemma ws_handler_inv:
  assumes "ws_inv s" "sid \<in> set (sv_used_ids s)"
  shows "ws_inv (ws_handler W sid fr s)"
proof -
  have "ws_inv t" if "on_message W sid m s = (t, e)" for m t e
    using on_message_inv [OF assms, of W m] that by simp
  then show ?thesis
    using on_close_inv assms(1) by (auto simp: ws_handler_def split: frame.split sum.split prod.split option.split)
qed

lemma on_open_inv:
  assumes "ws_inv s" "sid \<notin> set (sv_used_ids s)"
  shows "ws_inv (on_open tr sid s)"
proof -
  have "map_of (sv_sessions s) sid = None" using ws_inv_app [OF assms(1), of sid] assms(2) by (simp add: app_inv_def)
  then have "app_inv True (map_of (sv_sessions s) sid) (Application_init tr)"
    using sem_ok_init by (auto simp: app_inv_def calls_ok_def Application_init_def SoftHardSemaphore_def)
  then show ?thesis
    using assms(1) by (auto simp: on_open_def register_wsclient_def ws_inv_def)
qed

section \<open>Steps\<close>

lemma ws_inv_same: "ws_inv s \<Longrightarrow> core t = core s \<Longrightarrow> ws_inv t"
  using ws_inv_core by blast

lemma token_get_core: "core (fst (token_get txt s)) = core s"
  by (auto simp: token_get_def core_def split: option.split)

lemma login_inv:
  assumes "ws_inv s" "sid \<in> set (sv_used_ids s)"
  shows "ws_inv (fst (login A sid u p otp s))" "ws_inv (fst (login_with_api_key A sid k s))"
    "ws_inv (fst (token_login sid txt s))" "ws_inv (fst (logout sid s))" "ws_inv (fst (generate_token txt ttl attrs s))"
proof -
  have l: "ws_inv (fst (case session_login sid c s of Inl e \<Rightarrow> (s, Inl e) | Inr s1 \<Rightarrow> (s1, Inr True)))" for c
    using assms(1) ws_inv_login [OF assms, of c] by (cases "session_login sid c s") simp_all
  show "ws_inv (fst (login A sid u p otp s))"
    using assms(1) l unfolding login_def by (cases "login_valid A u p otp") simp_all
  show "ws_inv (fst (login_with_api_key A sid k s))"
    using assms(1) l unfolding login_with_api_key_def by (cases "api_key_authenticate A k") simp_all
  show "ws_inv (fst (logout sid s))"
    using assms(1) ws_inv_logout [OF assms(1), of sid] unfolding logout_def by (cases "session_logout sid s") simp_all
  obtain s1 r where g: "token_get txt s = (s1, r)" by fastforce
  then have "core s1 = core s" using token_get_core [of "txt" s] by simp
  then have "ws_inv s1" "sid \<in> set (sv_used_ids s1)" using ws_inv_same [OF assms(1)] assms(2) by (simp_all add: core_def)
  then show "ws_inv (fst (token_login sid txt s))"
    using g ws_inv_login [of s1 sid "TokenSessionManagerCredentials (the r)"] unfolding token_login_def
    by (cases r; cases "session_login sid (TokenSessionManagerCredentials (the r)) s1") simp_all
  show "ws_inv (fst (generate_token txt ttl attrs s))"
    by (rule ws_inv_same [OF assms(1)]) (simp add: core_def generate_token_def token_create_def token_prune_def Let_def)
qed

lemma ws_inv_step:
  assumes "ws_inv s" "ws_step W A s t"
  shows "ws_inv t"
  using assms(2)
proof cases
  case (st_time d utc)
  then show ?thesis using ws_inv_same [OF assms(1)] by (simp add: core_def)
next
  case (st_frame sid fr)
  then show ?thesis using ws_handler_inv [OF assms(1)] assms(1) by (auto simp: ws_inv_def)
next
  case (st_start sid tk)
  then have "calls_ok (call_start W tk (sv_apps s sid))"
    using ws_inv_app [OF assms(1), of sid] by (intro call_start_ok) (auto simp: app_inv_def)
  then show ?thesis
    unfolding st_start(1) by (intro ws_inv_upd_app [OF assms(1)] app_inv_calls [OF ws_inv_app [OF assms(1)] _ call_start_same])
next
  case (st_end sid tk r)
  then have "calls_ok (sv_apps s sid)" "t_number tk \<in> set (sh_running (app_semaphore (sv_apps s sid)))"
    using ws_inv_app [OF assms(1), of sid] by (auto simp: app_inv_def runs_def)
  note e = call_end_ok [OF this, of W r]
  show ?thesis
    unfolding st_end(1) by (intro ws_inv_upd_app [OF assms(1)] app_inv_calls [OF ws_inv_app [OF assms(1)] conjunct1 [OF e] conjunct2 [OF e]])
next
  case (st_source sid i a)
  then have "app_core a = app_core (sv_apps s sid)" by (intro app_core_result(3))
  from app_inv_core [OF this] show ?thesis
    unfolding st_source(1) using ws_inv_app [OF assms(1), of sid] by (intro ws_inv_upd_app [OF assms(1)]) simp
next
  case (st_event name etype kwargs)
  then show ?thesis by (intro ws_inv_same [OF assms(1)] conjunct1 [OF send_event_core])
next
  case (st_open sid tr)
  then show ?thesis unfolding st_open(1) by (intro on_open_inv assms(1))
next
  case (st_login sid tk u p otp)
  then show ?thesis unfolding st_login(1) by (intro login_inv(1) assms(1)) (simp add: runs_def)
next
  case (st_api_key sid tk k)
  then show ?thesis unfolding st_api_key(1) by (intro login_inv(2) assms(1)) (simp add: runs_def)
next
  case (st_token sid tk tx)
  then show ?thesis unfolding st_token(1) by (intro login_inv(3) assms(1)) (simp add: runs_def)
next
  case (st_logout sid tk)
  then show ?thesis unfolding st_logout(1) by (intro login_inv(4) assms(1)) (simp add: runs_def)
next
  case (st_generate sid tk tx ttl attrs)
  then show ?thesis unfolding st_generate(1) by (intro login_inv(5) [of s sid] assms(1)) (simp add: runs_def)
qed

interpretation ws: step_system server_start "ws_step W A" ws_inv for W A
proof
  show "ws_inv s" if "server_start s" for s
    using that by (simp add: server_start_def ws_inv_def app_inv_def)
qed (rule ws_inv_step)

definition reachable_server :: "wslib \<Rightarrow> authlib \<Rightarrow> server \<Rightarrow> bool" where
  "reachable_server W A s \<longleftrightarrow> (\<exists>s0. server_start s0 \<and> rtranclp (ws_step W A) s0 s)"

lemma reachable_server_inv: "reachable_server W A s \<Longrightarrow> ws_inv s"
  using ws.good_reach unfolding reachable_server_def by blast

end
