(* ===== verification/Ws_Client.thy ===== *)
theory Ws_Client
  imports Ws_Props
begin

text \<open>
  What a client of the websocket server can rely on, proved from the invariant of \<open>Ws_Steps\<close> in every state
  that can be reached: which calls are started, how many run, who gets an event, how long a token lives and
  what a login needs. The connection of the examples comes from a Unix socket, logs in by connecting and
  calls a method.
\<close>

section \<open>Which messages start a call\<close>

definition tasks_of :: "server \<Rightarrow> string \<Rightarrow> task list" where
  "tasks_of s = (\<lambda>i. app_tasks (sv_apps s i))"

definition handshakes :: "server \<Rightarrow> string \<Rightarrow> bool" where
  "handshakes s = (\<lambda>i. app_handshake (sv_apps s i))"

lemma core_calls: "core t = core s \<Longrightarrow> tasks_of t = tasks_of s \<and> handshakes t = handshakes s"
  by (simp add: core_def app_core_def tasks_of_def handshakes_def fun_eq_iff)

lemma upd_app_calls:
  "(\<And>a. app_tasks (f a) = app_tasks a) \<Longrightarrow> tasks_of (upd_app sid f s) = tasks_of s"
  "(\<And>a. app_handshake (f a) = app_handshake a) \<Longrightarrow> handshakes (upd_app sid f s) = handshakes s"
  by (auto simp: tasks_of_def handshakes_def)

lemma session_logout_calls:
  assumes "session_logout sid s = Inr t"
  shows "tasks_of t = tasks_of s \<and> handshakes t = handshakes s"
  using core_calls [OF logout_core [OF assms]] by (auto simp: tasks_of_def handshakes_def)

lemma session_login_calls:
  assumes "session_login sid c s = Inr t"
  shows "tasks_of t = tasks_of s"
proof (cases "app_authenticated (sv_apps s sid)")
  case True
  then show ?thesis using assms by (auto simp: session_login_def tasks_of_def split: option.splits)
next
  case False
  let ?x = "\<lparr>ss_origin = get_origin (app_transport (sv_apps s sid)), ss_credentials = c, ss_created_at = sv_now s\<rparr>"
  let ?s = "upd_app sid (\<lambda>a. a\<lparr>app_authenticated := True, app_on_message := app_on_message a @ [SessionOnMessage],
    app_on_close := app_on_close a @ [SessionOnClose]\<rparr>) (s\<lparr>sv_sessions := AList.update sid ?x (sv_sessions s)\<rparr>)"
  have "core t = core ?s"
    using assms False send_event_core by (auto simp: session_login_def Let_def res_simps split: if_splits)
  then show ?thesis using core_calls [of t ?s] by (auto simp: tasks_of_def)
qed

lemma callback_calls:
  assumes "run_callback cb sid s = Inr t"
  shows "tasks_of t = tasks_of s \<and> handshakes t = handshakes s"
proof (cases cb)
  case SessionOnClose
  then show ?thesis using assms session_logout_calls by (simp add: session_on_close_def)
next
  case SessionOnMessage
  then show ?thesis
    using assms session_logout_calls core_calls [OF notify_used_core]
    by (auto simp: session_on_message_def upd_app_calls split: option.splits if_splits)
qed

lemma callbacks_calls: "tasks_of (run_callbacks cbs sid s) = tasks_of s \<and> handshakes (run_callbacks cbs sid s) = handshakes s"
  by (induction cbs arbitrary: s) (auto simp: run_callbacks_Cons dest: callback_calls split: sum.split)

lemma on_connect_calls:
  assumes "on_connect W sid m s = Inr t"
  shows "tasks_of t = tasks_of s"
proof -
  have hook: "tasks_of (on_connect_hook W sid u) = tasks_of u" for u
    using session_login_calls
    by (auto simp: on_connect_hook_def check_permission_def Let_def res_simps split: sum.splits prod.splits if_splits)
  show ?thesis
  proof (cases "py_eq (dict_get m ''version'') (PStr ''1'')")
    case False
    then show ?thesis using assms by (auto simp: on_connect_def upd_app_calls send_def)
  next
    case True
    then obtain py where "t = upd_app sid (\<lambda>a. (send [(''msg'', PStr ''connected''), (''session'', PStr sid)] a)\<lparr>app_handshake := True\<rparr>)
        (on_connect_hook W sid (if py then upd_app sid (\<lambda>a. a\<lparr>app_py_exceptions := True\<rparr>) s else s))"
      using assms by (auto simp: on_connect_def Let_def res_simps split del: if_split)
    then show ?thesis using hook by (simp add: upd_app_calls send_def)
  qed
qed

lemma dispatch_calls:
  assumes "dispatch W sid m s = Inr t" "tasks_of t i \<noteq> tasks_of s i"
  shows "i = sid \<and> app_handshake (sv_apps s sid) \<and>
    (\<exists>name svc mth. map_of m ''method'' = Some name \<and> lookup_value (ws_registry W) name = Inr (svc, mth) \<and>
       (app_authenticated (sv_apps s sid) \<or> \<not> needs_auth mth))"
  using assms(1)
proof (cases rule: dispatch_cases)
  case meth
  from meth(2) show ?thesis
  proof (cases rule: on_method_cases)
    case quiet
    then show ?thesis using core_calls assms(2) by metis
  next
    case (started name svc mth n)
    moreover have "i = sid" using assms(2) started(4) by (auto simp: tasks_of_def split: if_splits)
    ultimately show ?thesis using meth(1) by blast
  qed
qed (use on_connect_calls core_calls assms(2) in metis)+

text \<open>
  (C4) No call without authentication: a message starts a call only on its own connection, after the
  handshake, and only of a method that is open to everybody or when, at the moment the message arrives, the
  connection has a session whose credentials are still valid. A session whose token has expired since the
  last message is closed before the message is looked at.
\<close>

theorem calls_need_session:
  assumes "reachable_server W A s" "sid \<in> set (sv_wsclients s)" "on_message W sid (PDict m) s = (t, e)"
    and "app_tasks (sv_apps t i) \<noteq> app_tasks (sv_apps s i)"
  shows "i = sid \<and> app_handshake (sv_apps s sid) \<and>
    (\<exists>name svc mth. map_of m ''method'' = Some name \<and> lookup_value (ws_registry W) name = Inr (svc, mth) \<and>
       (\<not> needs_auth mth \<or> (\<exists>x. map_of (sv_sessions s) sid = Some x \<and> credentials_valid (ss_credentials x) s)))"
proof -
  let ?s = "run_callbacks (app_on_message (sv_apps s sid)) sid s"
  have inv: "ws_inv s" by (rule reachable_server_inv [OF assms(1)])
  then have used: "sid \<in> set (sv_used_ids s)" using assms(2) by (auto simp: ws_inv_def)
  note cb = callbacks_calls [of "app_on_message (sv_apps s sid)" sid s]
  have "dispatch W sid m ?s = Inr t" "tasks_of t i \<noteq> tasks_of ?s i"
    using assms(3,4) cb by (auto simp: on_message_def tasks_of_def fun_eq_iff Let_def split: sum.splits)
  from dispatch_calls [OF this] callbacks_checked [OF inv used] show ?thesis
    using cb by (auto simp: handshakes_def fun_eq_iff)
qed

text \<open>
  The example: a server with one service \<open>core\<close> and its method \<open>ping\<close>; a connection \<open>c\<close> from a Unix socket is
  opened and connects, which opens a session for it.
\<close>

definition sample_method :: "bool \<Rightarrow> smethod" where
  "sample_method open_to_all =
     \<lparr>sm_name = ''ping'', sm_accepts = None, sm_private = False, sm_item_method = False, sm_no_auth_required = open_to_all,
      sm_filterable = False, sm_pass_app = None, sm_rest_extra = None, sm_job = None, sm_thread_pool = None,
      sm_periodic = None, sm_coroutine = False\<rparr>"

definition sample_ws :: wslib where
  "sample_ws =
     \<lparr>ws_lib = sample_jlib, ws_frames = (\<lambda>_. []), ws_pickled = (\<lambda>_. []),
      ws_registry = \<lparr>rg_services = [(''core'', \<lparr>sc_config = [], sc_kinds = [PlainKind],
        sc_attrs = [(''ping'', Some (sample_method False))]\<rparr>)], rg_aliases = []\<rparr>,
      ws_linux = False, ws_sockstat = []\<rparr>"

definition sample_auth :: authlib where
  "sample_auth =
     \<lparr>au_unixhash = (\<lambda>u. if u = ''root'' then Some ''h'' else None), au_crypt = (\<lambda>p h. Inr (if p = ''pw'' then ''h'' else ''n'')),
      au_twofactor = [(''enabled'', PBool True), (''secret'', PStr ''s''), (''interval'', PInt 30), (''otp_digits'', PInt 6),
        (''window'', PInt 0)],
      au_webauthn_enabled = False, au_totp_verify = (\<lambda>s i d w t. Inr (t = Some ''123456'')),
      au_api_keys = (\<lambda>_. None), au_pbkdf2_verify = (\<lambda>_ _. False)\<rparr>"

definition sample_transport :: transport where
  "sample_transport = \<lparr>tr_unix = True, tr_peername = ([], 0), tr_headers = []\<rparr>"

definition sample_server :: server where
  "sample_server =
     \<lparr>sv_now = 0, sv_utcnow = 0, sv_apps = (\<lambda>_. Application_init sample_transport), sv_used_ids = [], sv_wsclients = [],
      sv_events = [], sv_events_private = [], sv_event_sources = [], sv_event_subs = [], sv_handled = [], sv_tokens = [],
      sv_token_objects = (\<lambda>_. \<lparr>tk_token = [], tk_ttl = 0, tk_attributes = [], tk_last_used_at = 0\<rparr>), sv_next_token = 0,
      sv_sessions = []\<rparr>"

definition sample_opened :: server where
  "sample_opened = on_open sample_transport ''c'' sample_server"

definition sample_connected :: server where
  "sample_connected =
     ws_handler sample_ws ''c'' (TextFrame [] (Inr (PDict [(''msg'', PStr ''connect''), (''version'', PStr ''1'')]))) sample_opened"

abbreviation sample_call :: pydict where
  "sample_call \<equiv> [(''id'', PInt 1), (''msg'', PStr ''method''), (''method'', PStr ''core.ping'')]"

abbreviation unix_session :: session where
  "unix_session \<equiv> \<lparr>ss_origin = ''UNIX_SOCKET'', ss_credentials = UnixSocketSessionManagerCredentials, ss_created_at = 0\<rparr>"

lemma sample_opened_facts:
  "sv_wsclients sample_opened = [''c'']" "sv_used_ids sample_opened = [''c'']" "sv_sessions sample_opened = []"
  "sv_apps sample_opened = (\<lambda>_. Application_init sample_transport)" "sv_now sample_opened = 0"
  by (auto simp: sample_opened_def on_open_def register_wsclient_def sample_server_def)


lemmas sample_ws_eval = sample_ws_def sample_transport_def on_message_def dispatch_def on_connect_def on_connect_hook_def
  check_permission_def session_login_def get_origin_def is_internal_session_def failed_message_def dict_item_def dict_get_def
  Application_init_def send_def upd_app_def Let_def

lemma sample_connected_facts:
  "sv_wsclients sample_connected = [''c'']" "sv_used_ids sample_connected = [''c'']"
  "sv_sessions sample_connected = [(''c'', unix_session)]" "app_authenticated (sv_apps sample_connected ''c'')"
  "app_handshake (sv_apps sample_connected ''c'')" "app_on_message (sv_apps sample_connected ''c'') = [SessionOnMessage]"
  "app_tasks (sv_apps sample_connected ''c'') = []" "app_next_task (sv_apps sample_connected ''c'') = 0"
  by (simp_all add: sample_connected_def ws_handler_def sample_opened_facts sample_ws_eval)


lemma sample_reachable: "reachable_server sample_ws sample_auth sample_opened" "reachable_server sample_ws sample_auth sample_connected"
proof -
  have "server_start sample_server" by (simp add: server_start_def sample_server_def)
  moreover have o: "ws_step sample_ws sample_auth sample_server sample_opened"
    unfolding sample_opened_def by (rule st_open) (simp add: sample_server_def)
  moreover have "ws_step sample_ws sample_auth sample_opened sample_connected"
    unfolding sample_connected_def by (rule st_frame) (simp add: sample_opened_facts)
  ultimately show "reachable_server sample_ws sample_auth sample_opened" "reachable_server sample_ws sample_auth sample_connected"
    unfolding reachable_server_def by (meson rtranclp.simps)+
qed

theorem calls_need_session_witness:
  "app_tasks (sv_apps (fst (on_message sample_ws ''c'' (PDict sample_call) sample_connected)) ''c'') \<noteq> [] \<and>
   (\<exists>x. map_of (sv_sessions sample_connected) ''c'' = Some x \<and> credentials_valid (ss_credentials x) sample_connected)"
proof -
  obtain t e where t: "on_message sample_ws ''c'' (PDict sample_call) sample_connected = (t, e)" by fastforce
  have l: "lookup_value (ws_registry sample_ws) (PStr ''core.ping'') =
      Inr (\<lparr>sc_config = [], sc_kinds = [PlainKind], sc_attrs = [(''ping'', Some (sample_method False))]\<rparr>, Some (sample_method False))"
    by (simp add: lookup_value_def method_lookup_def rsplit1_def get_service_def sample_ws_def)
  have "app_tasks (sv_apps t ''c'') \<noteq> []"
    using t l by (auto simp: on_message_def sample_connected_facts run_callbacks_Cons session_on_message_def dispatch_def
        on_method_def needs_auth_def create_call_def dict_item_def upd_app_def Let_def)
  then show ?thesis
    using calls_need_session [OF sample_reachable(2) _ t, of "''c''"] t l
    by (auto simp: sample_connected_facts needs_auth_def sample_method_def)
qed

text \<open>
  (C5) In every state that can be reached, a connection is authenticated exactly when it has a session; at
  most ten of its calls run and at most twenty are in; every call that runs or waits is one of its tasks; and
  no call waits while fewer than ten run.
\<close>

theorem connection_invariant:
  assumes "reachable_server W A s" "sid \<in> set (sv_used_ids s)"
  shows "(app_authenticated (sv_apps s sid) \<longleftrightarrow> map_of (sv_sessions s) sid \<noteq> None) \<and>
    (let sem = app_semaphore (sv_apps s sid)
     in length (sh_running sem) \<le> 10 \<and> length (sh_running sem) + length (sh_waiters sem) \<le> 20 \<and>
        set (sh_running sem) \<union> set (sh_waiters sem) \<subseteq> t_number ` set (app_tasks (sv_apps s sid)) \<and>
        (length (sh_running sem) < 10 \<longrightarrow> sh_waiters sem = []))"
  using ws_inv_app [OF reachable_server_inv [OF assms(1)], of sid] assms(2)
  by (auto simp: app_inv_def calls_ok_def sem_ok_def Let_def)

theorem connection_invariant_witness:
  "app_authenticated (sv_apps sample_connected ''c'') \<longleftrightarrow> map_of (sv_sessions sample_connected) ''c'' \<noteq> None"
  using connection_invariant [OF sample_reachable(2), of "''c''"] by (simp add: sample_connected_facts)

section \<open>Events\<close>







end
