(* ===== verification/Auth_Props.thy ===== *)
theory Auth_Props
  imports Ws_Client
begin

text \<open>
  Properties of tokens, logins, origins and of the throttle: how long a token is accepted, what a logout does
  to it, which factors a password login needs, that the origin of a session can be read back, and that
  throttled calls keep their distance.
\<close>

section \<open>Tokens\<close>


text \<open>
  (C38) Logging out does not end the token the session was opened with: the credentials pass the token object
  where the table of tokens is keyed by its text, so whoever holds the text can open a new session with it
  until it expires.
\<close>

theorem token_survives_logout:
  assumes "session_logout sid s = Inr t"
  shows "snd (token_get tx t) = snd (token_get tx s)"
proof -
  have "clock_tokens t = clock_tokens s"
  proof (cases "map_of (sv_sessions s) sid")
    case None
    then show ?thesis using assms by (auto simp: session_logout_def)
  next
    case (Some x)
    let ?s = "s\<lparr>sv_sessions := AList.delete sid (sv_sessions s)\<rparr>"
    obtain b u where b: "(if b then Inr ?s
        else send_event ''auth.sessions'' ''REMOVED'' [(''fields'', PDict [(''id'', PStr sid)])] ?s) = Inr u"
      and u: "t = upd_app sid (\<lambda>a. a\<lparr>app_authenticated := False\<rparr>) u"
      using assms Some by (auto simp: session_logout_def Let_def res_simps split del: if_split)
    have "clock_tokens u = clock_tokens ?s" using b send_event_core by (cases b) auto
    then show ?thesis using u by (simp add: clock_tokens_def upd_app_def)
  qed
  then show ?thesis by (auto simp: clock_tokens_def token_get_def token_is_valid_def split: option.split)
qed

definition sample_token :: server where
  "sample_token = fst (token_login ''c'' ''t'' (fst (generate_token ''t'' (Some 600) None sample_connected)))"

lemma sample_token_facts:
  "map_of (sv_sessions sample_token) ''c'' = Some (unix_session\<lparr>ss_credentials := TokenSessionManagerCredentials (sv_next_token sample_connected)\<rparr>)"
  "snd (token_get ''t'' sample_token) = Some (sv_next_token sample_connected)"
  by (simp_all add: sample_token_def token_login_def generate_token_def token_create_def token_prune_def token_get_def
      token_is_valid_def session_login_def sample_connected_facts update_conv Let_def)

theorem token_survives_logout_witness:
  "\<exists>t. session_logout ''c'' sample_token = Inr t \<and> snd (token_get ''t'' t) = Some (sv_next_token sample_connected)"
proof -
  obtain t where "session_logout ''c'' sample_token = Inr t"
    by (auto simp: session_logout_def sample_token_facts is_internal_session_def Let_def)
  then show ?thesis using token_survives_logout [of "''c''" sample_token t "''t''"] sample_token_facts by auto
qed

section \<open>Logins\<close>

lemma session_login_session:
  assumes "session_login sid c s = Inr t"
  shows "\<exists>x. map_of (sv_sessions t) sid = Some x \<and> ss_credentials x = c"
proof (cases "app_authenticated (sv_apps s sid)")
  case True
  then show ?thesis using assms by (auto simp: session_login_def update_conv split: option.splits)
next
  case False
  have "sv_sessions u = sv_sessions v" if "send_event n e k v = Inr u" for n e k u v
    using send_event_core [OF that] by (simp add: core_def)
  with False assms show ?thesis
    by (auto simp: session_login_def update_conv Let_def res_simps split: if_splits)
qed

text \<open>
  (C9) A login with a password succeeds only for \<open>root\<close> with the right password, never for an account whose hash
  is a placeholder, with a valid one-time password when that factor is enabled, and never when WebAuthn is the
  only second factor; then the connection has a session and is authenticated.
\<close>

theorem login_second_factor:
  assumes "login A sid u p otp s = (t, Inr True)"
  shows "u = ''root'' \<and>
    (\<exists>h. au_unixhash A u = Some h \<and> h \<notin> {''x'', ''*''} \<and> au_crypt A p h = Inr h) \<and>
    (\<exists>e. dict_item (au_twofactor A) ''enabled'' = Inr e \<and>
       (if truthy e then twofactor_verify A otp = Inr True else \<not> au_webauthn_enabled A)) \<and>
    (\<exists>x. map_of (sv_sessions t) sid = Some x \<and> ss_credentials x = LoginPasswordSessionManagerCredentials)"
proof -
  have v: "login_valid A u p otp = Inr True" and l: "session_login sid LoginPasswordSessionManagerCredentials s = Inr t"
    using assms by (auto simp: login_def split: sum.splits if_splits)
  obtain e where e: "check_user A u p = Inr True" "dict_item (au_twofactor A) ''enabled'' = Inr e"
      "if truthy e then twofactor_verify A otp = Inr True else \<not> au_webauthn_enabled A"
    using v by (auto simp: login_valid_def two_factor_auth_def res_simps split: if_splits)
  have "\<exists>x. map_of (sv_sessions t) sid = Some x \<and> ss_credentials x = LoginPasswordSessionManagerCredentials"
    by (rule session_login_session [OF l])
  with e show ?thesis
    by (auto simp: check_user_def check_password_def res_simps split: if_splits option.splits)
qed

theorem login_second_factor_witness:
  "\<exists>t. login sample_auth ''c'' ''root'' ''pw'' (Some ''123456'') sample_connected = (t, Inr True) \<and>
     (\<exists>x. map_of (sv_sessions t) ''c'' = Some x \<and> ss_credentials x = LoginPasswordSessionManagerCredentials)"
proof -
  have "\<exists>t. login sample_auth ''c'' ''root'' ''pw'' (Some ''123456'') sample_connected = (t, Inr True)"
    by (simp add: login_def login_valid_def check_user_def check_password_def two_factor_auth_def twofactor_verify_def
        sample_auth_def dict_item_def session_login_def sample_connected_facts Let_def)
  then show ?thesis using login_second_factor by blast
qed

section \<open>Origins\<close>

text \<open>
  (C39) The origin of a session can be read back: from the text \<open>address:port\<close>, with brackets around an IPv6
  address, the check for internal sessions recovers the port and the address, for every address without
  brackets of its own and every port; so a session is internal exactly when it comes from the loopback
  addresses or, with a port up to 1024, from the other controller.
\<close>

theorem origin_roundtrip:
  assumes "CHR ''['' \<notin> set addr" "CHR '']'' \<notin> set addr"
  shows "origin_parts (origin_text addr port) = Inr (addr, port) \<and>
    (ss_origin x = origin_text addr port \<longrightarrow> is_internal_session x =
       Inr (addr \<in> {''127.0.0.1'', ''::1''} \<or>
         addr \<in> {''169.254.10.1'', ''169.254.10.2'', ''169.254.10.20'', ''169.254.10.80''} \<and> port \<le> 1024))"
proof -
  have "list_all (\<lambda>c. \<not> c \<in> set ''[]'') addr" using assms by (auto simp: list_all_iff)
  then have s: "py_strip_chars ''[]'' addr = addr" unfolding py_strip_chars_def by (rule strip_by_id)
  have "origin_text addr port \<noteq> ''UNIX_SOCKET''"
  proof
    assume "origin_text addr port = ''UNIX_SOCKET''"
    moreover have "CHR '':'' \<in> set (origin_text addr port)" by (auto simp: origin_text_def)
    ultimately show False by simp
  qed
  then show ?thesis
    using origin_parts_text [of addr port] unfolding is_internal_session_def by (simp add: s del: insert_iff)
qed

theorem origin_roundtrip_witness: "origin_parts (origin_text ''fe80::1'' 40392) = Inr (''fe80::1'', 40392)"
  using origin_roundtrip [of "''fe80::1''" 40392] by simp

section \<open>Throttle\<close>

text \<open>
  The attempts of all callers, in the order in which they take the lock: when each is made and its key. The
  attempts that pass.
\<close>

fun attempts :: "(rat \<times> string option) list \<Rightarrow> throttle \<Rightarrow> (rat \<times> string option) list" where
  "attempts [] t = []"
| "attempts ((now, key) # rest) t =
     (case register_call now key t of
        (t1, True) \<Rightarrow> (now, key) # attempts rest t1
      | (t1, False) \<Rightarrow> attempts rest t1)"

text \<open>
  (C40) A throttle keeps calls apart: in any interleaving of first attempts and retries of any number of
  callers, two consecutive calls with the same key that are let through are more than the period apart.
\<close>

theorem throttle_spaced:
  "successively (\<lambda>a b. fst a + th_period t < fst b) (filter (\<lambda>p. snd p = key) (attempts xs t))"
proof -
  have "successively (\<lambda>a b. fst a + th_period t < fst b) (filter (\<lambda>p. snd p = key) (attempts xs t)) \<and>
      (filter (\<lambda>p. snd p = key) (attempts xs t) \<noteq> [] \<longrightarrow>
        th_last_calls t key + th_period t < fst (hd (filter (\<lambda>p. snd p = key) (attempts xs t))))"
  proof (induction xs arbitrary: t)
    case (Cons p xs)
    obtain now k where p: "p = (now, k)" by (cases p)
    show ?case
    proof (cases "now - th_last_calls t k > th_period t")
      case True
      let ?t = "t\<lparr>th_last_calls := (th_last_calls t)(k := now)\<rparr>"
      show ?thesis
        using Cons.IH [of ?t] True p
        by (cases "filter (\<lambda>p. snd p = key) (attempts xs ?t)") (auto simp: register_call_def)
    qed (use Cons.IH [of t] p in \<open>simp add: register_call_def\<close>)
  qed simp
  then show ?thesis by simp
qed

text \<open>A caller that finds its turn in the list of its retries gets the first time that is late enough.\<close>

lemma throttle_wait_time:
  "throttle_wait key tries t = Some (t1, now) \<Longrightarrow> now \<in> set tries \<and> th_last_calls t key + th_period t < now"
  by (induction tries arbitrary: t) (auto simp: register_call_def split: if_splits)

end
