(* ===== verification/Spec2Isabelle.thy ===== *)
theory Spec2Isabelle
  imports Query Accepts Jobs_Life Progress Auth_Props
begin

text \<open>
  A verification development for the middleware daemon (\<open>src/src/middlewared/middlewared\<close>): the core that
  every plugin of the system goes through. A websocket client sends a message; the daemon checks its session,
  looks the method up, cleans and validates the arguments against the schema of the method, runs the method or
  queues a job, and answers; on the way it sends events to subscribers. The theories follow this path.

  \<^bold>\<open>Parts, theories and sources.\<close>

  \<^item> \<open>Prelude\<close>: Python values (\<open>pyval\<close>), exceptions as values of a sum type, ordered dictionaries (the locale
    \<open>ordered_dict\<close> and its interpretation on association lists), texts, numbers and slices of the language.
    \<open>Steps\<close>: the locale \<open>step_system\<close>, an invariant of a transition system with the lemmas its clients use; it is
    interpreted for the job queue, for its work, for the progress buffer, the semaphore and the server.
  \<^item> \<open>Errors\<close>: \<open>service_exception.py\<close>, \<open>utils/shell.py\<close>. \<open>Query\<close>: \<open>filter_list\<close>, \<open>get\<close>, \<open>partition\<close> and the helpers of
    \<open>utils/__init__.py\<close>, with the locale \<open>key_order\<close> for sortable keys. \<open>Validators\<close>: \<open>validators.py\<close>,
    \<open>async_validators.py\<close>.
  \<^item> \<open>Schema\<close>, \<open>Schema_Laws\<close>: the attribute classes of \<open>schema.py\<close>, one constructor of \<open>attr\<close> per class, with
    \<open>clean\<close>, \<open>validate\<close>, \<open>dump\<close>, \<open>to_json_schema\<close>. \<open>Resolve\<close>: constructors, \<open>Ref\<close>, \<open>Patch\<close>, \<open>resolve_methods\<close>.
    \<open>Accepts\<close>: the wrapper of the decorator \<open>accepts\<close> and the \<open>Cron\<close> conversions.
  \<^item> \<open>Jobs\<close>: \<open>job.py\<close>, the decorator \<open>job\<close>, and the job methods of \<open>CoreService\<close> in \<open>service.py\<close>. The record \<open>jobs_queue\<close>
    is \<open>JobsQueue\<close> with stores for job and lock objects; \<open>run\<close> is cut at its \<open>await\<close> points. \<open>Jobs_Sched\<close>: the queue as
    a step relation and its invariant; \<open>Jobs_Sample\<close>: concrete states; \<open>Jobs_Props\<close>, \<open>Jobs_Ids\<close>, \<open>Jobs_Life\<close>: the
    properties. \<open>Progress\<close>: \<open>JobProgressBuffer\<close> of \<open>job.py\<close>.
  \<^item> \<open>Semaphore\<close>: \<open>utils/lock.py\<close>. \<open>Server\<close>: the state of server and connections, \<open>event.py\<close>, events and subscriptions
    of \<open>main.py\<close>. \<open>Auth\<close>, \<open>Auth_Laws\<close>: \<open>plugins/auth.py\<close> and \<open>authenticate\<close> of \<open>plugins/api_key.py\<close>. \<open>Services\<close>:
    decorators, configuration, registry, throttle and the descriptions of \<open>CoreService\<close> (\<open>service.py\<close>,
    \<open>utils/__init__.py\<close>, \<open>utils/service/call.py\<close>). \<open>Calls\<close>: \<open>_call\<close> and its relatives, hooks and plugin setup of
    \<open>main.py\<close>. \<open>Websocket\<close>: \<open>ws_handler\<close> and \<open>Application\<close> of \<open>main.py\<close>. \<open>Ws_Steps\<close>, \<open>Ws_Props\<close>: the server as a step
    relation and its invariant; \<open>Ws_Client\<close>, \<open>Auth_Props\<close>: the properties.

  \<^bold>\<open>What is shown.\<close>

  \<^item> Jobs: at most one job per lock name runs; the queue implements a scheduler over names; no wake-up is lost
    and accepted jobs finish; life cycle, numbering, bounds of the deque and of lock queues; excerpts of logs;
    what waiting returns. Progress updates keep their interval and the newest one is not lost.
  \<^item> Connections: no call without handshake and, for methods that need it, a valid session; sessions and
    authentication agree; limits on concurrent calls; events reach exactly the subscribers; token life time,
    second factor, origins; throttled calls keep their distance.
  \<^item> Schemas and queries: cleaned values have the promised shape, accepted arguments too; cleaning twice,
    partial updates, masking of private values; resolution of references ends; filtering, paging and ordering;
    round trips of paths and schedules; validators.
  \<^item> Some properties state what the code does where it is not what it means to do: expired tokens in \<open>get_token\<close>,
    tokens after a logout, jobs that lose their log file, lists with \<open>unique\<close>, passwords that are not private,
    \<open>filter_getattrs\<close>, retried resolution, empty error texts.

  \<^bold>\<open>Bounds.\<close> Functions are total; the only bound is \<open>depth\<close> in \<open>Resolve\<close>, for patches that edit placeholders, which
  plays the role of the interpreter's recursion limit and is an arbitrary parameter of the theorems. Loops that
  wait (\<open>wrap_loop\<close>, \<open>throttle_wait\<close>) take what they read at each turn as a list and return \<open>None\<close> when it ends; that the
  job queue drains is a theorem about its steps, with a bound on their number. Numbers of Python are unbounded,
  so there is no wrap-around.

  \<^bold>\<open>Parameters.\<close> Code outside the repository and the environment enter as arguments: regular expressions, \<open>ipaddress\<close>,
  \<open>croniter\<close>, \<open>crypt\<close>, \<open>pyotp\<close>, \<open>passlib\<close>, the clock, random texts, rows of the database, texts of exceptions, file
  contents, the output of \<open>sockstat\<close>. The records \<open>vlib\<close>, \<open>slib\<close>, \<open>jlib\<close>, \<open>authlib\<close> and \<open>wslib\<close> collect them.

  \<^bold>\<open>Not modelled.\<close> The plugins other than \<open>auth\<close>, which drive external programs, kernels and third-party libraries;
  the datastore (SQLAlchemy and SQLite); the alert system; \<open>FileApplication\<close>, the REST API and the client, which are
  built on third-party network libraries; \<open>ConfigService\<close>, \<open>CRUDService\<close> and their relatives, whose bodies are calls
  into the datastore; workers, logging, crash reporting, and the start and the end of the process; of \<open>get_methods\<close>
  the reading of documentation strings; wrapping of coroutine functions by decorators.
\<close>

end
